(* ===== verification/Prelude.thy ===== *)
theory Prelude
  imports Complex_Main "HOL-Library.Word" "HOL-Library.Sublist" "HOL-Library.AList"
begin

text \<open>
  What every component of the development shares: the C++ integer types at their widths, the
  exceptions the code throws and catches, the operations of \<open>std::string\<close> and of the standard
  streams that the sources use, and the generic lemmas about them.

  Conventions. A \<open>std::string\<close> is a \<^typ>\<open>string\<close> (a \<^typ>\<open>char\<close> is one byte). A function that may
  throw returns \<open>exn + 'a\<close>: \<^term>\<open>Inl e\<close> is the exception in flight, \<^term>\<open>Inr x\<close> the normal
  return. \<open>std::string::npos\<close> is \<^term>\<open>None\<close>.
\<close>

named_theorems dispatcher_simps "facts about the dispatcher's operations"

section \<open>Integers\<close>

type_synonym u64 = "64 word"
type_synonym bytes = "8 word list"

text \<open>\<open>static_cast<int>\<close> of a 64-bit value keeps the low 32 bits, read as two's complement.\<close>

definition to_int32 :: "int \<Rightarrow> int" where
  "to_int32 i = sint (word_of_int i :: 32 word)"

text \<open>\<open>static_cast<uint64_t>\<close> of a signed value, and \<open>static_cast<int64_t>\<close> back.\<close>

definition to_u64 :: "int \<Rightarrow> u64" where
  "to_u64 i = word_of_int i"

definition to_int64 :: "u64 \<Rightarrow> int" where
  "to_int64 w = sint w"

abbreviation int64_max :: int where "int64_max \<equiv> 9223372036854775807"
abbreviation int32_max :: int where "int32_max \<equiv> 2147483647"
abbreviation int32_min :: int where "int32_min \<equiv> -2147483648"

lemma to_int32_id: "int32_min \<le> i \<Longrightarrow> i \<le> int32_max \<Longrightarrow> to_int32 i = i"
  by (simp add: to_int32_def sint_sbintrunc' signed_take_bit_int_eq_self)

lemma to_int32_range: "int32_min \<le> to_int32 i \<and> to_int32 i \<le> int32_max"
  using sint_range_size [of "word_of_int i :: 32 word"]
  by (simp add: to_int32_def word_size)

lemma to_int64_to_u64:
  "- int64_max - 1 \<le> i \<Longrightarrow> i \<le> int64_max \<Longrightarrow> to_int64 (to_u64 i) = i"
  by (simp add: to_int64_def to_u64_def sint_sbintrunc' signed_take_bit_int_eq_self)

lemma to_u64_to_int64 [simp]: "to_u64 (to_int64 w) = w"
  by (simp add: to_int64_def to_u64_def)

section \<open>Exceptions\<close>

text \<open>
  The exception classes the sources tell apart in their \<open>catch\<close> clauses, each with its
  \<open>what()\<close> text. \<open>Undefined_behaviour\<close> is not an exception: it marks a point where the C++ program
  has no defined behaviour (a null pointer is dereferenced, \<open>front()\<close> of an empty vector); no
  \<open>catch\<close> clause of the model handles it.
\<close>

datatype exn =
    Sql_error string
  | Broken_connection string
  | Mqtt_exception string
  | Runtime_error string
  | Json_error string
  | Stream_error string
  | Undefined_behaviour

fun what :: "exn \<Rightarrow> string" where
  "what (Sql_error s) = s"
| "what (Broken_connection s) = s"
| "what (Mqtt_exception s) = s"
| "what (Runtime_error s) = s"
| "what (Json_error s) = s"
| "what (Stream_error s) = s"
| "what Undefined_behaviour = []"

definition is_std_exception :: "exn \<Rightarrow> bool" where
  "is_std_exception e \<longleftrightarrow> e \<noteq> Undefined_behaviour"

fun sbind :: "'e + 'a \<Rightarrow> ('a \<Rightarrow> 'e + 'b) \<Rightarrow> 'e + 'b" where
  "sbind (Inl e) f = Inl e"
| "sbind (Inr a) f = f a"

lemma sbind_eq_Inr [simp]: "sbind m f = Inr b \<longleftrightarrow> (\<exists>a. m = Inr a \<and> f a = Inr b)"
  by (cases m) auto

lemma sbind_eq_Inl: "sbind m f = Inl e \<longleftrightarrow> m = Inl e \<or> (\<exists>a. m = Inr a \<and> f a = Inl e)"
  by (cases m) auto

lemma sbind_cong: "m = m' \<Longrightarrow> (\<And>a. m' = Inr a \<Longrightarrow> f a = g a) \<Longrightarrow> sbind m f = sbind m' g"
  by (cases m') auto

text \<open>\<open>try \<dots> catch (\<dots>) { return default; }\<close> for every \<open>std::exception\<close>.\<close>

fun catch_std :: "(exn + 'a) \<Rightarrow> (exn \<Rightarrow> exn + 'a) \<Rightarrow> exn + 'a" where
  "catch_std (Inr a) h = Inr a"
| "catch_std (Inl e) h = (if is_std_exception e then h e else Inl e)"

section \<open>Strings\<close>

abbreviation nl :: char where "nl \<equiv> CHR 0x0A"
abbreviation dq :: char where "dq \<equiv> CHR 0x22"

text \<open>\<open>s.find(c)\<close>, \<open>s.find(c, pos)\<close> and \<open>s.rfind(c)\<close>.\<close>

fun str_find :: "char \<Rightarrow> string \<Rightarrow> nat option" where
  "str_find c [] = None"
| "str_find c (x # xs) = (if x = c then Some 0 else map_option Suc (str_find c xs))"

definition str_find_from :: "char \<Rightarrow> string \<Rightarrow> nat \<Rightarrow> nat option" where
  "str_find_from c s pos = map_option (\<lambda>i. pos + i) (str_find c (drop pos s))"

definition str_rfind :: "char \<Rightarrow> string \<Rightarrow> nat option" where
  "str_rfind c s = map_option (\<lambda>i. length s - Suc i) (str_find c (rev s))"

text \<open>\<open>s.substr(pos, n)\<close> for \<open>pos \<le> s.size()\<close>, and the search for a substring.\<close>

definition substr :: "string \<Rightarrow> nat \<Rightarrow> nat \<Rightarrow> string" where
  "substr s pos n = take n (drop pos s)"

fun contains_str :: "string \<Rightarrow> string \<Rightarrow> bool" where
  "contains_str p [] = (p = [])"
| "contains_str p (x # xs) = (prefix p (x # xs) \<or> contains_str p xs)"

text \<open>\<open>s.c_str()\<close> copied into a \<open>std::string\<close> stops at the first NUL byte.\<close>

definition c_str_copy :: "string \<Rightarrow> string" where
  "c_str_copy s = takeWhile (\<lambda>c. c \<noteq> CHR 0x00) s"

lemma str_find_Some_nth: "str_find c s = Some i \<Longrightarrow> i < length s \<and> s ! i = c"
  by (induction s arbitrary: i) (auto split: if_splits)

lemma str_find_Some_iff:
  "str_find c s = Some i \<longleftrightarrow> (\<exists>a b. s = a @ c # b \<and> c \<notin> set a \<and> length a = i)"
proof (induction s arbitrary: i)
  case (Cons x xs)
  show ?case
  proof (cases "x = c")
    case True
    then show ?thesis by (auto simp: Cons_eq_append_conv)
  next
    case False
    then show ?thesis using Cons.IH by (force simp: Cons_eq_append_conv)
  qed
qed simp

lemma str_find_None_iff: "str_find c s = None \<longleftrightarrow> c \<notin> set s"
  by (induction s) auto

lemma str_find_append [simp]: "c \<notin> set a \<Longrightarrow> str_find c (a @ c # b) = Some (length a)"
  by (induction a) auto

lemma str_find_absent [simp]: "c \<notin> set s \<Longrightarrow> str_find c s = None"
  by (simp add: str_find_None_iff)

lemma str_rfind_append [simp]: "c \<notin> set b \<Longrightarrow> str_rfind c (a @ c # b) = Some (length a)"
  by (simp add: str_rfind_def)

lemma str_rfind_absent [simp]: "c \<notin> set s \<Longrightarrow> str_rfind c s = None"
  by (simp add: str_rfind_def)

lemma contains_str_iff: "contains_str p s \<longleftrightarrow> (\<exists>a b. s = a @ p @ b)"
proof (induction s)
  case (Cons x xs)
  show ?case
  proof
    assume "contains_str p (x # xs)"
    then consider "prefix p (x # xs)" | "contains_str p xs" by auto
    then show "\<exists>a b. x # xs = a @ p @ b"
    proof cases
      case 1
      then obtain b where "x # xs = p @ b" by (auto elim: prefixE)
      then have "x # xs = [] @ p @ b" by simp
      then show ?thesis by blast
    next
      case 2
      with Cons.IH obtain a b where "xs = a @ p @ b" by blast
      then have "x # xs = (x # a) @ p @ b" by simp
      then show ?thesis by blast
    qed
  next
    assume "\<exists>a b. x # xs = a @ p @ b"
    then obtain a b where eq: "x # xs = a @ p @ b" by blast
    show "contains_str p (x # xs)"
    proof (cases a)
      case Nil
      with eq have "prefix p (x # xs)" by simp
      then show ?thesis by simp
    next
      case (Cons y ys)
      with eq have "xs = ys @ p @ b" by simp
      then show ?thesis using \<open>contains_str p xs = _\<close> by auto
    qed
  qed
qed auto

section \<open>Decimal output\<close>

text \<open>\<open>std::to_string\<close> of an unsigned and of a signed integer.\<close>

definition digit_char :: "nat \<Rightarrow> char" where
  "digit_char d = char_of (48 + d)"

fun nat_to_string :: "nat \<Rightarrow> string" where
  "nat_to_string n = (if n < 10 then [digit_char n] else nat_to_string (n div 10) @ [digit_char (n mod 10)])"

declare nat_to_string.simps [simp del]

definition int_to_string :: "int \<Rightarrow> string" where
  "int_to_string i = (if i < 0 then CHR ''-'' # nat_to_string (nat (- i)) else nat_to_string (nat i))"

definition u64_to_string :: "u64 \<Rightarrow> string" where
  "u64_to_string w = nat_to_string (unat w)"

text \<open>Reading a run of decimal digits back: the value of a digit string.\<close>

definition is_digit :: "char \<Rightarrow> bool" where
  "is_digit c \<longleftrightarrow> (48::nat) \<le> of_char c \<and> of_char c \<le> (57::nat)"

definition digit_val :: "char \<Rightarrow> nat" where
  "digit_val c = of_char c - 48"

definition digits_val :: "string \<Rightarrow> nat" where
  "digits_val s = foldl (\<lambda>n c. 10 * n + digit_val c) 0 s"

lemma of_char_digit_char: "d < 10 \<Longrightarrow> (of_char (digit_char d) :: nat) = 48 + d"
  by (simp add: digit_char_def)

lemma digit_char_simps [simp]:
  "digit_char 0 = CHR ''0''" "digit_char (Suc 0) = CHR ''1''" "digit_char 1 = CHR ''1''"
  "digit_char 2 = CHR ''2''" "digit_char 3 = CHR ''3''" "digit_char 4 = CHR ''4''"
  "digit_char 5 = CHR ''5''" "digit_char 6 = CHR ''6''" "digit_char 7 = CHR ''7''"
  "digit_char 8 = CHR ''8''" "digit_char 9 = CHR ''9''"
  by code_simp+

lemma is_digit_digit_char [simp]: "d < 10 \<Longrightarrow> is_digit (digit_char d)"
  by (simp add: is_digit_def of_char_digit_char)

lemma digit_val_digit_char [simp]: "d < 10 \<Longrightarrow> digit_val (digit_char d) = d"
  by (simp add: digit_val_def of_char_digit_char)

lemma digits_val_snoc [simp]: "digits_val (s @ [c]) = 10 * digits_val s + digit_val c"
  by (simp add: digits_val_def)

lemma nat_to_string_digits: "\<forall>c \<in> set (nat_to_string n). is_digit c"
proof (induction n rule: nat_to_string.induct)
  case (1 n)
  then show ?case by (subst nat_to_string.simps) auto
qed

lemma nat_to_string_not_Nil [simp]: "nat_to_string n \<noteq> []"
  by (subst nat_to_string.simps) auto

lemma digits_val_nat_to_string [simp]: "digits_val (nat_to_string n) = n"
proof (induction n rule: nat_to_string.induct)
  case (1 n)
  show ?case
  proof (cases "n < 10")
    case True
    then show ?thesis by (subst nat_to_string.simps) (simp add: digits_val_def)
  next
    case False
    with 1 show ?thesis by (subst nat_to_string.simps) simp
  qed
qed

lemma nat_to_string_inj: "nat_to_string m = nat_to_string n \<Longrightarrow> m = n"
  by (metis digits_val_nat_to_string)

lemma int_to_string_inj: "int_to_string i = int_to_string j \<Longrightarrow> i = j"
proof -
  have minus: "CHR ''-'' \<notin> set (nat_to_string n)" for n
  proof
    assume "CHR ''-'' \<in> set (nat_to_string n)"
    then have "is_digit (CHR ''-'')" using nat_to_string_digits by blast
    then show False by (simp add: is_digit_def)
  qed
  assume eq: "int_to_string i = int_to_string j"
  have heads: "CHR ''-'' # s \<noteq> nat_to_string n" for s n
    using minus [of n] by (metis list.set_intros(1))
  from eq show "i = j"
    by (auto simp: int_to_string_def heads heads [symmetric] eq_commute [of "nat_to_string _" "_ # _"]
        dest!: nat_to_string_inj split: if_splits)
qed

section \<open>Whitespace and stream extraction\<close>

text \<open>The C locale's \<open>isspace\<close>, and what \<open>find_first_not_of(" \t\r\n")\<close> skips.\<close>

definition is_space :: "char \<Rightarrow> bool" where
  "is_space c \<longleftrightarrow> c \<in> {CHR '' '', CHR 0x09, CHR 0x0A, CHR 0x0B, CHR 0x0C, CHR 0x0D}"

definition is_trim :: "char \<Rightarrow> bool" where
  "is_trim c \<longleftrightarrow> c \<in> {CHR '' '', CHR 0x09, CHR 0x0D, CHR 0x0A}"

lemma is_digit_not_space: "is_digit c \<Longrightarrow> \<not> is_space c"
  by (auto simp: is_digit_def is_space_def)

section \<open>Association lists\<close>

text \<open>
  \<open>std::map\<close> and \<open>std::unordered_map\<close> are association lists with distinct keys:
  \<open>map_of\<close> looks up, \<^const>\<open>AList.update\<close> is \<open>m[k] = v\<close>, \<^const>\<open>AList.delete\<close> is \<open>m.erase(k)\<close> and
  \<^const>\<open>length\<close> is \<open>m.size()\<close>.
\<close>

abbreviation wf_alist :: "('k \<times> 'v) list \<Rightarrow> bool" where
  "wf_alist m \<equiv> distinct (map fst m)"

declare map_of_eq_Some_iff [simp del] Some_eq_map_of_iff [simp del]

lemma wf_alist_update [simp, intro]: "wf_alist m \<Longrightarrow> wf_alist (AList.update k v m)"
  by (rule distinct_update)

lemma wf_alist_delete [simp, intro]: "wf_alist m \<Longrightarrow> wf_alist (AList.delete k m)"
  by (rule distinct_delete)

lemma alist_map_of_update [simp]: "map_of (AList.update k v m) = (map_of m)(k \<mapsto> v)"
  by (simp add: update_conv')

lemma alist_map_of_delete [simp]: "map_of (AList.delete k m) = (map_of m)(k := None)"
  by (simp add: delete_conv')

lemma length_update_present: "map_of m k = Some w \<Longrightarrow> length (AList.update k v m) = length m"
  by (induction m) auto

lemma length_update_absent: "map_of m k = None \<Longrightarrow> length (AList.update k v m) = Suc (length m)"
  by (induction m) auto

lemma length_update_le: "length (AList.update k v m) \<le> Suc (length m)"
  by (induction m) auto

end
