(* ===== verification/Json.thy ===== *)
theory Json
  imports Prelude
begin

text \<open>
  JSON values as the sources use them through \<open>boost::json\<close>: the value type with Boost's eight
  kinds, the checked accessors (\<open>as_int64\<close>, \<open>at\<close>, \<open>value_to\<close>, \dots), each of which throws on a
  kind mismatch or a missing key, and the pretty printer of the repository,
  \<open>libs/json/JsonUtils.cpp\<close>.

  \<open>boost::json::parse\<close> and \<open>boost::json::serialize\<close> are library code and stay parameters,
  \<open>prs\<close> and \<open>ser\<close>, of the definitions that call them. A double is carried as the rational its
  shortest decimal text denotes.
\<close>

section \<open>Values and accessors\<close>

datatype json =
    JNull
  | JBool bool
  | JInt64 int
  | JUint64 nat
  | JDouble rat
  | JString string
  | JArray "json list"
  | JObject "(string \<times> json) list"

type_synonym json_object = "(string \<times> json) list"
type_synonym json_parse = "string \<Rightarrow> exn + json"
type_synonym json_serialize = "json \<Rightarrow> string"

fun as_object :: "json \<Rightarrow> exn + json_object" where
  "as_object (JObject fs) = Inr fs"
| "as_object _ = Inl (Json_error ''not an object'')"

fun as_int64 :: "json \<Rightarrow> exn + int" where
  "as_int64 (JInt64 i) = Inr i"
| "as_int64 _ = Inl (Json_error ''not an int64'')"

fun as_double :: "json \<Rightarrow> exn + rat" where
  "as_double (JDouble d) = Inr d"
| "as_double _ = Inl (Json_error ''not a double'')"

fun as_bool :: "json \<Rightarrow> exn + bool" where
  "as_bool (JBool b) = Inr b"
| "as_bool _ = Inl (Json_error ''not a bool'')"

text \<open>\<open>as_string\<close> and \<open>value_to<std::string>\<close> both demand the string kind.\<close>

fun as_string :: "json \<Rightarrow> exn + string" where
  "as_string (JString s) = Inr s"
| "as_string _ = Inl (Json_error ''not a string'')"

definition obj_at :: "json_object \<Rightarrow> string \<Rightarrow> exn + json" where
  "obj_at fs k = (case map_of fs k of None \<Rightarrow> Inl (Json_error ''out of range'') | Some v \<Rightarrow> Inr v)"

definition obj_contains :: "json_object \<Rightarrow> string \<Rightarrow> bool" where
  "obj_contains fs k \<longleftrightarrow> map_of fs k \<noteq> None"

text \<open>\<open>obj[k] = v\<close> replaces in place and appends a new key at the end.\<close>

definition obj_set :: "string \<Rightarrow> json \<Rightarrow> json_object \<Rightarrow> json_object" where
  "obj_set k v fs = AList.update k v fs"

lemma as_object_Inr [simp]: "as_object v = Inr fs \<longleftrightarrow> v = JObject fs"
  by (cases v) auto

lemma as_int64_Inr [simp]: "as_int64 v = Inr i \<longleftrightarrow> v = JInt64 i"
  by (cases v) auto

lemma as_double_Inr [simp]: "as_double v = Inr d \<longleftrightarrow> v = JDouble d"
  by (cases v) auto

lemma as_bool_Inr [simp]: "as_bool v = Inr b \<longleftrightarrow> v = JBool b"
  by (cases v) auto

lemma as_string_Inr [simp]: "as_string v = Inr s \<longleftrightarrow> v = JString s"
  by (cases v) auto

lemma obj_at_Inr [simp]: "obj_at fs k = Inr v \<longleftrightarrow> map_of fs k = Some v"
  by (simp add: obj_at_def split: option.split)

lemma obj_at_Some: "map_of fs k = Some v \<Longrightarrow> obj_at fs k = Inr v"
  by simp

lemma obj_at_None: "map_of fs k = None \<Longrightarrow> obj_at fs k = Inl (Json_error ''out of range'')"
  by (simp add: obj_at_def)

lemma as_std: "as_object v = Inl e \<Longrightarrow> is_std_exception e"
  "as_int64 v = Inl e \<Longrightarrow> is_std_exception e"
  "as_double v = Inl e \<Longrightarrow> is_std_exception e"
  "as_bool v = Inl e \<Longrightarrow> is_std_exception e"
  "as_string v = Inl e \<Longrightarrow> is_std_exception e"
  by (cases v; auto simp: is_std_exception_def)+

lemma obj_at_std: "obj_at fs k = Inl e \<Longrightarrow> is_std_exception e"
  by (auto simp: obj_at_def is_std_exception_def split: option.splits)

text \<open>
  What a serialise/parse round trip does to a value, as Boost documents it: an unsigned number that
  fits \<open>int64_t\<close> comes back with kind \<open>int64\<close>, everything else as it was.
\<close>

fun json_normal :: "json \<Rightarrow> json" where
  "json_normal (JUint64 n) = (if int n \<le> int64_max then JInt64 (int n) else JUint64 n)"
| "json_normal (JArray vs) = JArray (map json_normal vs)"
| "json_normal (JObject fs) = JObject (map (\<lambda>(k, v). (k, json_normal v)) fs)"
| "json_normal v = v"

definition codec_ok :: "json_parse \<Rightarrow> json_serialize \<Rightarrow> json \<Rightarrow> bool" where
  "codec_ok prs ser v \<longleftrightarrow> prs (ser v) = Inr (json_normal v)"

section \<open>The pretty printer of \<open>JsonUtils\<close>\<close>

fun print_json :: "json_serialize \<Rightarrow> string \<Rightarrow> json \<Rightarrow> string"
  and print_fields :: "json_serialize \<Rightarrow> string \<Rightarrow> json_object \<Rightarrow> string"
  and print_elems :: "json_serialize \<Rightarrow> string \<Rightarrow> json list \<Rightarrow> string" where
  "print_json ser ind (JObject fs) = ''{'' @ [nl] @ print_fields ser ind fs @ ind @ ''}''"
| "print_json ser ind (JArray vs) = ''['' @ [nl] @ print_elems ser ind vs @ ind @ '']''"
| "print_json ser ind v = ser v"
| "print_fields ser ind [] = []"
| "print_fields ser ind ((k, v) # fs) =
     ind @ ''  '' @ [dq] @ k @ [dq] @ '' : '' @ print_json ser (ind @ ''  '') v
       @ (if fs \<noteq> [] then '','' @ [nl] else [nl]) @ print_fields ser ind fs"
| "print_elems ser ind [] = []"
| "print_elems ser ind (v # vs) =
     ind @ ''  '' @ print_json ser (ind @ ''  '') v
       @ (if vs \<noteq> [] then '','' @ [nl] else [nl]) @ print_elems ser ind vs"

definition json_toString :: "json_serialize \<Rightarrow> json \<Rightarrow> string" where
  "json_toString ser v = print_json ser [] v"

subsection \<open>What the printed text denotes\<close>

text \<open>
  The JSON grammar as a relation between a text and the value it denotes. Scalars are a parameter
  \<open>S\<close> (their text is the library's business); keys are taken literally, so only keys without a
  quote, a backslash or a control character may occur. Whitespace is JSON's.
\<close>

definition is_ws :: "string \<Rightarrow> bool" where
  "is_ws s \<longleftrightarrow> list_all (\<lambda>c. c \<in> {CHR '' '', CHR 0x09, CHR 0x0A, CHR 0x0D}) s"

definition plain_key :: "string \<Rightarrow> bool" where
  "plain_key k \<longleftrightarrow> list_all (\<lambda>c. c \<noteq> dq \<and> c \<noteq> CHR 0x5C \<and> (32::nat) \<le> of_char c) k"

fun is_scalar :: "json \<Rightarrow> bool" where
  "is_scalar (JObject _) = False"
| "is_scalar (JArray _) = False"
| "is_scalar _ = True"

fun plain_keys :: "json \<Rightarrow> bool" where
  "plain_keys (JObject fs) \<longleftrightarrow> (\<forall>(k, v) \<in> set fs. plain_key k \<and> plain_keys v)"
| "plain_keys (JArray vs) \<longleftrightarrow> (\<forall>v \<in> set vs. plain_keys v)"
| "plain_keys _ \<longleftrightarrow> True"

inductive json_text :: "(string \<Rightarrow> json \<Rightarrow> bool) \<Rightarrow> string \<Rightarrow> json \<Rightarrow> bool"
  and members_text :: "(string \<Rightarrow> json \<Rightarrow> bool) \<Rightarrow> string \<Rightarrow> json_object \<Rightarrow> bool"
  and elements_text :: "(string \<Rightarrow> json \<Rightarrow> bool) \<Rightarrow> string \<Rightarrow> json list \<Rightarrow> bool"
  for S where
  scalar: "is_scalar v \<Longrightarrow> S s v \<Longrightarrow> json_text S s v"
| object_empty: "is_ws w \<Longrightarrow> json_text S (''{'' @ w @ ''}'') (JObject [])"
| object: "members_text S m fs \<Longrightarrow> json_text S (''{'' @ m @ ''}'') (JObject fs)"
| array_empty: "is_ws w \<Longrightarrow> json_text S (''['' @ w @ '']'') (JArray [])"
| array: "elements_text S m vs \<Longrightarrow> json_text S (''['' @ m @ '']'') (JArray vs)"
| member_last: "is_ws w1 \<Longrightarrow> plain_key k \<Longrightarrow> is_ws w2 \<Longrightarrow> is_ws w3 \<Longrightarrow> json_text S s v \<Longrightarrow> is_ws w4
    \<Longrightarrow> members_text S (w1 @ [dq] @ k @ [dq] @ w2 @ '':'' @ w3 @ s @ w4) [(k, v)]"
| member_more: "is_ws w1 \<Longrightarrow> plain_key k \<Longrightarrow> is_ws w2 \<Longrightarrow> is_ws w3 \<Longrightarrow> json_text S s v \<Longrightarrow> is_ws w4
    \<Longrightarrow> members_text S m fs
    \<Longrightarrow> members_text S (w1 @ [dq] @ k @ [dq] @ w2 @ '':'' @ w3 @ s @ w4 @ '','' @ m) ((k, v) # fs)"
| element_last: "is_ws w1 \<Longrightarrow> json_text S s v \<Longrightarrow> is_ws w2 \<Longrightarrow> elements_text S (w1 @ s @ w2) [v]"
| element_more: "is_ws w1 \<Longrightarrow> json_text S s v \<Longrightarrow> is_ws w2 \<Longrightarrow> elements_text S m vs
    \<Longrightarrow> elements_text S (w1 @ s @ w2 @ '','' @ m) (v # vs)"

lemma is_ws_append [simp]: "is_ws (a @ b) \<longleftrightarrow> is_ws a \<and> is_ws b"
  by (simp add: is_ws_def)

lemma is_ws_Cons [simp]:
  "is_ws (c # s) \<longleftrightarrow> c \<in> {CHR '' '', CHR 0x09, CHR 0x0A, CHR 0x0D} \<and> is_ws s"
  by (simp add: is_ws_def)

lemma is_ws_Nil [simp]: "is_ws []"
  by (simp add: is_ws_def)

text \<open>
  The printer, with the line break before a field or element moved to its front: this is the shape
  the grammar's rules have.
\<close>

definition scalars_denote :: "(string \<Rightarrow> json \<Rightarrow> bool) \<Rightarrow> json_serialize \<Rightarrow> bool" where
  "scalars_denote S ser \<longleftrightarrow> (\<forall>v. is_scalar v \<longrightarrow> S (ser v) v)"

lemma print_json_text_aux:
  shows "scalars_denote S ser \<Longrightarrow> is_ws ind \<Longrightarrow> plain_keys v \<Longrightarrow> json_text S (print_json ser ind v) v"
    and "scalars_denote S ser \<Longrightarrow> is_ws ind \<Longrightarrow> plain_keys (JObject fs) \<Longrightarrow> fs \<noteq> [] \<Longrightarrow>
      members_text S (nl # print_fields ser ind fs @ ind) fs"
    and "scalars_denote S ser \<Longrightarrow> is_ws ind \<Longrightarrow> plain_keys (JArray vs) \<Longrightarrow> vs \<noteq> [] \<Longrightarrow>
      elements_text S (nl # print_elems ser ind vs @ ind) vs"
proof (induction ser ind v and ser ind fs and ser ind vs
    rule: print_json_print_fields_print_elems.induct)
  case (1 ser ind fs)
  show ?case
  proof (cases "fs = []")
    case True
    with 1 show ?thesis using object_empty [of "nl # ind" S] by simp
  next
    case False
    with 1 show ?thesis using object [of S "nl # print_fields ser ind fs @ ind" fs] by simp
  qed
next
  case (2 ser ind vs)
  show ?case
  proof (cases "vs = []")
    case True
    with 2 show ?thesis using array_empty [of "nl # ind" S] by simp
  next
    case False
    with 2 show ?thesis using array [of S "nl # print_elems ser ind vs @ ind" vs] by simp
  qed
next
  case (5 ser ind k v fs)
  then have v: "json_text S (print_json ser (ind @ ''  '') v) v" by simp
  show ?case
  proof (cases "fs = []")
    case True
    with 5 v show ?thesis
      using member_last [of "nl # ind @ ''  ''" k "'' ''" "'' ''" S _ v "nl # ind"] by simp
  next
    case False
    with 5 v show ?thesis
      using member_more [of "nl # ind @ ''  ''" k "'' ''" "'' ''" S _ v "[]"
          "nl # print_fields ser ind fs @ ind" fs] by simp
  qed
next
  case (7 ser ind v vs)
  then have v: "json_text S (print_json ser (ind @ ''  '') v) v" by simp
  show ?case
  proof (cases "vs = []")
    case True
    with 7 v show ?thesis
      using element_last [of "nl # ind @ ''  ''" S _ v "nl # ind"] by simp
  next
    case False
    with 7 v show ?thesis
      using element_more [of "nl # ind @ ''  ''" S _ v "[]" "nl # print_elems ser ind vs @ ind" vs]
      by simp
  qed
qed (auto intro: scalar simp: scalars_denote_def)

text \<open>C34: the text \<open>JsonUtils::toString\<close> prints is JSON text of the value it was given, whatever its
  nesting, as long as no key needs escaping; how scalars are written is the library's.\<close>

theorem json_toString_denotes:
  assumes "scalars_denote S ser" and "plain_keys v"
  shows "json_text S (json_toString ser v) v"
  using assms by (auto simp: json_toString_def intro: print_json_text_aux(1))

definition sample_json :: json where
  "sample_json = JObject [(''id'', JInt64 1), (''tags'', JArray [JBool True, JNull]), (''in'', JObject [])]"

theorem json_toString_denotes_witness:
  "json_text (\<lambda>s v. s = ''0'') (json_toString (\<lambda>v. ''0'') sample_json) sample_json"
  by (rule json_toString_denotes)
    (simp_all add: scalars_denote_def sample_json_def plain_key_def)

text \<open>Keys are printed unescaped, so the printer is not injective: an object with the one key
  \<open>a" : null,\<dots>"b\<close> prints as the object with the two keys \<open>a\<close> and \<open>b\<close> does.\<close>

lemma json_toString_key_collision:
  "json_toString ser (JObject [(''a'' @ [dq] @ '' : '' @ ser JNull @ '','' @ [nl] @ ''  '' @ [dq] @ ''b'', JNull)])
     = json_toString ser (JObject [(''a'', JNull), (''b'', JNull)])"
  by (simp add: json_toString_def)

end
