(* ===== verification/Dispatcher.thy ===== *)
theory Dispatcher
  imports Prelude
begin

text \<open>
  The request/response rendezvous of \<open>server/src/dispatcher/Dispatcher.cpp\<close>.

  A handler thread calls \<open>wait_for_response(id, timeout)\<close>: it puts a \<open>RequestContext\<close> on its own
  stack, publishes a pointer to it in \<open>pending_requests[id]\<close> and blocks on the context's condition
  variable until \<open>dispatch(id, status)\<close> marks the context ready or the timeout passes; then it
  erases \<open>pending_requests[id]\<close>. The mutex \<open>map_mtx\<close> is held by every access, and given up only
  while the thread is blocked inside \<open>wait_for\<close>, so the atomic steps are: entering the wait,
  a dispatch, and leaving the wait. A pointer to a context is modelled as the number of the thread
  whose stack holds it; \<open>contexts\<close> are the contexts that are alive.
\<close>

section \<open>State and operations\<close>

datatype response_status = PENDING | SUCCESS | TIMEOUT | DB_ERROR | SYSTEM_FULL

fun status_to_string :: "response_status \<Rightarrow> string" where
  "status_to_string SUCCESS = ''SUCCESS''"
| "status_to_string TIMEOUT = ''ERROR: Request Timed Out''"
| "status_to_string DB_ERROR = ''ERROR: Database Failure''"
| "status_to_string SYSTEM_FULL = ''ERROR: Maximum Pending Requests Reached''"
| "status_to_string PENDING = ''PENDING''"

record request_context =
  ctx_id :: u64
  deadline :: int
  ctx_status :: response_status
  ready :: bool

record dispatcher =
  pending_requests :: "(u64 \<times> nat) list"
  contexts :: "(nat \<times> request_context) list"
  now :: int

definition MAX_PENDING :: nat where
  "MAX_PENDING = 500"

definition init_dispatcher :: dispatcher where
  "init_dispatcher = \<lparr>pending_requests = [], contexts = [], now = 0\<rparr>"

text \<open>
  \<open>wait_for_response\<close> up to the blocking call. \<^term>\<open>Some r\<close> is an early return with \<open>r\<close>;
  \<^term>\<open>None\<close> means the thread \<open>t\<close> is now blocked.
\<close>

definition wait_enter :: "nat \<Rightarrow> u64 \<Rightarrow> int \<Rightarrow> dispatcher \<Rightarrow> response_status option \<times> dispatcher" where
  "wait_enter t rid timeout_ms d =
     (if MAX_PENDING \<le> length (pending_requests d) then (Some SYSTEM_FULL, d)
      else (None, d\<lparr>pending_requests := AList.update rid t (pending_requests d),
                    contexts := AList.update t
                      \<lparr>ctx_id = rid, deadline = now d + timeout_ms, ctx_status = PENDING, ready = False\<rparr>
                      (contexts d)\<rparr>))"

text \<open>
  \<open>wait_for_response\<close> from the wake-up on: \<open>wait_for\<close> returns when the predicate holds or the
  deadline has passed, and its value is the predicate's. \<^term>\<open>None\<close>: still blocked.
\<close>

definition wait_leave :: "nat \<Rightarrow> dispatcher \<Rightarrow> (response_status \<times> dispatcher) option" where
  "wait_leave t d =
     (case map_of (contexts d) t of
        None \<Rightarrow> None
      | Some c \<Rightarrow>
          if ready c \<or> deadline c \<le> now d
          then Some (if ready c then ctx_status c else TIMEOUT,
                     d\<lparr>pending_requests := AList.delete (ctx_id c) (pending_requests d),
                       contexts := AList.delete t (contexts d)\<rparr>)
          else None)"

text \<open>\<open>dispatch\<close>: writing through a pointer to a context that is gone is undefined behaviour.\<close>

definition dispatch :: "u64 \<Rightarrow> response_status \<Rightarrow> dispatcher \<Rightarrow> exn + dispatcher" where
  "dispatch rid st d =
     (case map_of (pending_requests d) rid of
        None \<Rightarrow> Inr d
      | Some t \<Rightarrow>
          (case map_of (contexts d) t of
             None \<Rightarrow> Inl Undefined_behaviour
           | Some c \<Rightarrow>
               Inr (d\<lparr>contexts := AList.update t (c\<lparr>ctx_status := st, ready := True\<rparr>) (contexts d)\<rparr>)))"

section \<open>Interleavings\<close>

text \<open>The steps of any number of threads, in any order, and the passing of time.\<close>

datatype disp_label =
    Enter nat u64 int
  | Reject nat u64
  | Dispatch u64 response_status
  | Return nat response_status
  | Tick nat

inductive disp_step :: "dispatcher \<Rightarrow> disp_label \<Rightarrow> dispatcher \<Rightarrow> bool" where
  enter: "map_of (contexts d) t = None \<Longrightarrow> wait_enter t rid ms d = (None, d')
    \<Longrightarrow> disp_step d (Enter t rid ms) d'"
| reject: "map_of (contexts d) t = None \<Longrightarrow> wait_enter t rid ms d = (Some r, d')
    \<Longrightarrow> disp_step d (Reject t rid) d'"
| dispatch: "dispatch rid st d = Inr d' \<Longrightarrow> disp_step d (Dispatch rid st) d'"
| leave: "wait_leave t d = Some (r, d') \<Longrightarrow> disp_step d (Return t r) d'"
| tick: "disp_step d (Tick n) (d\<lparr>now := now d + int n\<rparr>)"

inductive_cases disp_step_EnterE: "disp_step d (Enter t rid ms) d'"
inductive_cases disp_step_ReturnE: "disp_step d (Return t r) d'"
inductive_simps disp_step_Dispatch_iff: "disp_step d (Dispatch rid st) d'"

inductive disp_reachable :: "dispatcher \<Rightarrow> bool" where
  init: "disp_reachable init_dispatcher"
| step: "disp_reachable d \<Longrightarrow> disp_step d l d' \<Longrightarrow> disp_reachable d'"

text \<open>
  The invariant: both maps have distinct keys, the guard has kept the map within its limit, and
  every published pointer leads to a live context that waits for exactly that id.
\<close>

definition disp_inv :: "dispatcher \<Rightarrow> bool" where
  "disp_inv d \<longleftrightarrow>
     wf_alist (pending_requests d) \<and> wf_alist (contexts d) \<and>
     length (pending_requests d) \<le> MAX_PENDING \<and>
     (\<forall>rid t. map_of (pending_requests d) rid = Some t \<longrightarrow>
        (\<exists>c. map_of (contexts d) t = Some c \<and> ctx_id c = rid))"

lemma disp_inv_ptr:
  "disp_inv d \<Longrightarrow> map_of (pending_requests d) rid = Some t
    \<Longrightarrow> \<exists>c. map_of (contexts d) t = Some c \<and> ctx_id c = rid"
  by (simp add: disp_inv_def)

lemma disp_inv_init: "disp_inv init_dispatcher"
  by (simp add: disp_inv_def init_dispatcher_def)

lemma wait_enter_inv:
  assumes inv: "disp_inv d" and free: "map_of (contexts d) t = None"
    and enter: "wait_enter t rid ms d = (r, d')"
  shows "disp_inv d'"
proof -
  have other: "t' \<noteq> t" if "map_of (pending_requests d) rid' = Some t'" for rid' t'
    using disp_inv_ptr [OF inv that] free by auto
  have "length (AList.update rid t (pending_requests d)) \<le> MAX_PENDING"
    if "\<not> MAX_PENDING \<le> length (pending_requests d)"
    using that length_update_le [of rid t "pending_requests d"] by linarith
  with inv enter other show ?thesis
    by (auto simp: wait_enter_def disp_inv_def split: if_splits)
qed

lemma wait_leave_inv:
  assumes inv: "disp_inv d" and leave: "wait_leave t d = Some (r, d')"
  shows "disp_inv d'"
proof -
  from leave obtain c where c: "map_of (contexts d) t = Some c"
    and d': "d' = d\<lparr>pending_requests := AList.delete (ctx_id c) (pending_requests d),
                    contexts := AList.delete t (contexts d)\<rparr>"
    by (auto simp: wait_leave_def split: option.splits if_splits)
  have "length (AList.delete (ctx_id c) (pending_requests d)) \<le> MAX_PENDING"
    using inv length_delete_le [of "ctx_id c" "pending_requests d"] by (simp add: disp_inv_def)
  moreover have "t' \<noteq> t" if "map_of (pending_requests d) i = Some t'" "i \<noteq> ctx_id c" for i t'
    using disp_inv_ptr [OF inv that(1)] that(2) c by auto
  ultimately show ?thesis using inv d' by (auto simp: disp_inv_def)
qed

lemma dispatch_inv:
  assumes "disp_inv d" and "dispatch rid st d = Inr d'"
  shows "disp_inv d'"
  using assms by (fastforce simp: dispatch_def disp_inv_def split: option.splits)

lemma disp_step_inv: "disp_step d l d' \<Longrightarrow> disp_inv d \<Longrightarrow> disp_inv d'"
proof (induction rule: disp_step.induct)
  case (tick d n)
  then show ?case by (simp add: disp_inv_def)
qed (blast intro: wait_enter_inv wait_leave_inv dispatch_inv)+

lemma disp_reachable_inv: "disp_reachable d \<Longrightarrow> disp_inv d"
  by (induction rule: disp_reachable.induct) (auto intro: disp_inv_init disp_step_inv)

text \<open>C9: writing through the published pointer is always safe: in no reachable state, whatever
  the threads did and in whatever order, can a dispatch reach a context that is gone.\<close>

theorem dispatch_never_dangles:
  assumes "disp_reachable d"
  shows "\<exists>d'. dispatch rid st d = Inr d'"
  using disp_inv_ptr [OF disp_reachable_inv [OF assms]]
  by (fastforce simp: dispatch_def split: option.split)

text \<open>The table never holds more than \<open>MAX_PENDING\<close> entries, and a waiter is turned away with
  \<open>SYSTEM_FULL\<close> exactly when it holds that many, whether or not its id is already there.\<close>

lemma pending_bounded:
  assumes "disp_reachable d"
  shows "length (pending_requests d) \<le> MAX_PENDING
    \<and> (fst (wait_enter t rid ms d) = Some SYSTEM_FULL \<longleftrightarrow> length (pending_requests d) = MAX_PENDING)"
  using disp_reachable_inv [OF assms] by (auto simp: wait_enter_def disp_inv_def)

section \<open>One call, seen from its thread\<close>

text \<open>
  \<open>wait_for_response\<close> as the calling thread sees it: it enters, the other threads and the clock do
  \<open>evs\<close> while it is blocked, and it leaves; if nothing woke it by then, time passes to its deadline.
  Events of other threads that are not possible in the state (a thread entering twice, leaving
  while blocked) have no effect.
\<close>

datatype disp_event = Ev_enter nat u64 int | Ev_dispatch u64 response_status | Ev_leave nat | Ev_tick nat

fun env_event :: "disp_event \<Rightarrow> dispatcher \<Rightarrow> exn + dispatcher" where
  "env_event (Ev_enter t rid ms) d =
     (case map_of (contexts d) t of None \<Rightarrow> Inr (snd (wait_enter t rid ms d)) | Some _ \<Rightarrow> Inr d)"
| "env_event (Ev_dispatch rid st) d = dispatch rid st d"
| "env_event (Ev_leave t) d = (case wait_leave t d of None \<Rightarrow> Inr d | Some (_, d') \<Rightarrow> Inr d')"
| "env_event (Ev_tick n) d = Inr (d\<lparr>now := now d + int n\<rparr>)"

fun env_events :: "disp_event list \<Rightarrow> dispatcher \<Rightarrow> exn + dispatcher" where
  "env_events [] d = Inr d"
| "env_events (e # es) d = sbind (env_event e d) (env_events es)"

definition wait_finish :: "nat \<Rightarrow> dispatcher \<Rightarrow> exn + (response_status \<times> dispatcher)" where
  "wait_finish t d =
     (case wait_leave t d of
        Some r \<Rightarrow> Inr r
      | None \<Rightarrow>
          (case map_of (contexts d) t of
             None \<Rightarrow> Inl Undefined_behaviour
           | Some c \<Rightarrow>
               (case wait_leave t (d\<lparr>now := deadline c\<rparr>) of
                  Some r \<Rightarrow> Inr r
                | None \<Rightarrow> Inl Undefined_behaviour)))"

definition wait_for_response ::
  "nat \<Rightarrow> disp_event list \<Rightarrow> u64 \<Rightarrow> int \<Rightarrow> dispatcher \<Rightarrow> exn + (response_status \<times> dispatcher)" where
  "wait_for_response t evs rid timeout_ms d =
     (case wait_enter t rid timeout_ms d of
        (Some r, d') \<Rightarrow> Inr (r, d')
      | (None, d') \<Rightarrow> sbind (env_events evs d') (wait_finish t))"

text \<open>
  The contract: the answer is the last status dispatched for the id while the thread was blocked,
  and \<open>TIMEOUT\<close> if there was none. It holds for an id nobody else waits for
  (\<open>id_free\<close>: before the call, \<open>ev_ok\<close>: during it), which is how the handlers use it, since they draw
  each id from the database's sequence.
\<close>

fun add_answer :: "u64 \<Rightarrow> disp_event \<Rightarrow> response_status option \<Rightarrow> response_status option" where
  "add_answer rid (Ev_dispatch i st) ans = (if i = rid then Some st else ans)"
| "add_answer rid _ ans = ans"

definition last_answer :: "u64 \<Rightarrow> disp_event list \<Rightarrow> response_status option" where
  "last_answer rid evs = fold (add_answer rid) evs None"

definition id_free :: "u64 \<Rightarrow> dispatcher \<Rightarrow> bool" where
  "id_free rid d \<longleftrightarrow> (\<forall>t c. map_of (contexts d) t = Some c \<longrightarrow> ctx_id c \<noteq> rid)"

fun ev_ok :: "nat \<Rightarrow> u64 \<Rightarrow> disp_event \<Rightarrow> bool" where
  "ev_ok t rid (Ev_enter t' rid' ms) \<longleftrightarrow> t' \<noteq> t \<and> rid' \<noteq> rid"
| "ev_ok t rid (Ev_leave t') \<longleftrightarrow> t' \<noteq> t"
| "ev_ok t rid _ \<longleftrightarrow> True"

text \<open>While \<open>t\<close> is blocked: it is registered under its id, alone, with answer \<open>ans\<close> so far.\<close>

definition waiting :: "nat \<Rightarrow> u64 \<Rightarrow> response_status option \<Rightarrow> dispatcher \<Rightarrow> bool" where
  "waiting t rid ans d \<longleftrightarrow> disp_inv d \<and> map_of (pending_requests d) rid = Some t \<and>
     (\<exists>c. map_of (contexts d) t = Some c \<and> ctx_id c = rid \<and>
        (case ans of None \<Rightarrow> \<not> ready c | Some st \<Rightarrow> ready c \<and> ctx_status c = st)) \<and>
     (\<forall>t' c. map_of (contexts d) t' = Some c \<longrightarrow> t' \<noteq> t \<longrightarrow> ctx_id c \<noteq> rid)"

lemma waiting_enter:
  assumes "disp_inv d" and "id_free rid d" and "map_of (contexts d) t = None"
    and "wait_enter t rid ms d = (None, d')"
  shows "waiting t rid None d'"
  using assms wait_enter_inv [OF assms(1,3,4)]
  by (auto simp: waiting_def wait_enter_def id_free_def split: if_splits) blast

lemma waiting_other_ctx:
  assumes "waiting t rid ans d" and "t' \<noteq> t" and "map_of (contexts d) t' = Some c"
  shows "ctx_id c \<noteq> rid"
  using assms by (auto simp: waiting_def)

lemma waiting_inv: "waiting t rid ans d \<Longrightarrow> disp_inv d"
  by (simp add: waiting_def)

lemma waiting_enter_other:
  assumes w: "waiting t rid ans d" and ne: "t' \<noteq> t" "rid' \<noteq> rid"
    and free: "map_of (contexts d) t' = None"
  shows "waiting t rid ans (snd (wait_enter t' rid' ms d))"
proof -
  have "disp_inv (snd (wait_enter t' rid' ms d))"
    using waiting_inv [OF w] free by (auto intro: wait_enter_inv simp: prod_eq_iff)
  then show ?thesis
    using w ne by (auto simp: waiting_def wait_enter_def)
qed

lemma waiting_leave_other:
  assumes w: "waiting t rid ans d" and ne: "t' \<noteq> t" and leave: "wait_leave t' d = Some (r, d')"
  shows "waiting t rid ans d'"
proof -
  have inv: "disp_inv d'" using waiting_inv [OF w] leave by (rule wait_leave_inv)
  from leave obtain c where c: "map_of (contexts d) t' = Some c"
    and d': "d' = d\<lparr>pending_requests := AList.delete (ctx_id c) (pending_requests d),
                    contexts := AList.delete t' (contexts d)\<rparr>"
    by (auto simp: wait_leave_def split: option.splits if_splits)
  have "ctx_id c \<noteq> rid" using waiting_other_ctx [OF w ne c] .
  note inv
  moreover have "map_of (pending_requests d') rid = Some t"
    using w d' \<open>ctx_id c \<noteq> rid\<close> by (simp add: waiting_def)
  moreover have "map_of (contexts d') t = map_of (contexts d) t"
    using d' ne by simp
  moreover have "\<forall>i c'. map_of (contexts d') i = Some c' \<longrightarrow> i \<noteq> t \<longrightarrow> ctx_id c' \<noteq> rid"
    using d' waiting_other_ctx [OF w] by (simp split: if_splits)
  ultimately show ?thesis using w unfolding waiting_def by metis
qed

lemma waiting_dispatch:
  assumes w: "waiting t rid ans d"
  shows "\<exists>d'. dispatch i st d = Inr d' \<and> waiting t rid (if i = rid then Some st else ans) d'"
proof (cases "map_of (pending_requests d) i")
  case None
  with w show ?thesis by (auto simp: dispatch_def waiting_def)
next
  case (Some t')
  with disp_inv_ptr [OF waiting_inv [OF w]] obtain c
    where c: "map_of (contexts d) t' = Some c" "ctx_id c = i" by blast
  let ?d' = "d\<lparr>contexts := AList.update t' (c\<lparr>ctx_status := st, ready := True\<rparr>) (contexts d)\<rparr>"
  have eq: "dispatch i st d = Inr ?d'" using Some c by (simp add: dispatch_def)
  have "disp_inv ?d'" using waiting_inv [OF w] eq by (rule dispatch_inv)
  moreover have "t' = t \<longleftrightarrow> i = rid" using w Some c by (auto simp: waiting_def)
  ultimately have "waiting t rid (if i = rid then Some st else ans) ?d'"
    using w Some c by (auto simp: waiting_def)
  with eq show ?thesis by blast
qed

lemma waiting_event:
  assumes w: "waiting t rid ans d" and ok: "ev_ok t rid e"
  shows "\<exists>d'. env_event e d = Inr d' \<and> waiting t rid (add_answer rid e ans) d'"
proof (cases e)
  case (Ev_enter t' rid' ms)
  with ok w show ?thesis
    by (cases "map_of (contexts d) t'") (auto intro: waiting_enter_other)
next
  case (Ev_dispatch i st)
  with waiting_dispatch [OF w] show ?thesis by auto
next
  case (Ev_leave t')
  with ok w show ?thesis
    by (cases "wait_leave t' d") (auto intro: waiting_leave_other)
next
  case (Ev_tick n)
  with w show ?thesis by (auto simp: waiting_def disp_inv_def)
qed

lemma waiting_events:
  "waiting t rid ans d \<Longrightarrow> list_all (ev_ok t rid) evs
    \<Longrightarrow> \<exists>d'. env_events evs d = Inr d' \<and> waiting t rid (fold (add_answer rid) evs ans) d'"
proof (induction evs arbitrary: ans d)
  case Nil
  then show ?case by simp
next
  case (Cons e evs)
  from Cons.prems obtain d1 where "env_event e d = Inr d1"
    and "waiting t rid (add_answer rid e ans) d1"
    using waiting_event by fastforce
  with Cons.IH Cons.prems(2) show ?case by fastforce
qed

lemma waiting_finish:
  assumes w: "waiting t rid ans d"
  shows "\<exists>d'. wait_finish t d = Inr (case ans of Some st \<Rightarrow> st | None \<Rightarrow> TIMEOUT, d') \<and> disp_inv d'
    \<and> map_of (pending_requests d') rid = None"
proof -
  from w obtain c where c: "map_of (contexts d) t = Some c" "ctx_id c = rid"
    by (auto simp: waiting_def)
  have early: "disp_inv d'" if "wait_leave t d = Some (r, d')" for r d'
    using waiting_inv [OF w] that by (rule wait_leave_inv)
  have late: "disp_inv d'" if "wait_leave t (d\<lparr>now := deadline c\<rparr>) = Some (r, d')" for r d'
    using waiting_inv [OF w] that by (intro wait_leave_inv [OF _ that]) (simp add: disp_inv_def)
  show ?thesis
    using w c early late
    by (cases ans) (auto simp: wait_finish_def wait_leave_def waiting_def split: if_splits)
qed

lemma wait_for_response_inv:
  assumes "disp_inv d" and "id_free rid d" and "map_of (contexts d) t = None"
    and "length (pending_requests d) < MAX_PENDING"
    and "list_all (ev_ok t rid) evs"
  shows "\<exists>d'. wait_for_response t evs rid ms d
      = Inr (case last_answer rid evs of Some st \<Rightarrow> st | None \<Rightarrow> TIMEOUT, d')
    \<and> disp_inv d' \<and> map_of (pending_requests d') rid = None"
proof -
  obtain d1 where d1: "wait_enter t rid ms d = (None, d1)"
    using assms(4) by (auto simp: wait_enter_def)
  have "waiting t rid None d1"
    using assms(1-3) d1 by (rule waiting_enter)
  then obtain d2 where "env_events evs d1 = Inr d2" "waiting t rid (last_answer rid evs) d2"
    using waiting_events assms(5) unfolding last_answer_def by blast
  with waiting_finish d1 show ?thesis by (fastforce simp: wait_for_response_def)
qed

lemma wait_for_response_full:
  "MAX_PENDING \<le> length (pending_requests d) \<Longrightarrow> wait_for_response t evs rid ms d = Inr (SYSTEM_FULL, d)"
  by (simp add: wait_for_response_def wait_enter_def)

text \<open>C3: a call on an id nobody else waits for always returns. With \<open>MAX_PENDING\<close> entries in the
  table it returns \<open>SYSTEM_FULL\<close> at once and leaves the dispatcher as it was; otherwise it returns
  the last status dispatched for that id while it was blocked, \<open>TIMEOUT\<close> if none was, for every
  interleaving with other callers, other dispatches and the clock, and its entry is gone from the
  table afterwards.\<close>

theorem wait_for_response_contract:
  assumes "disp_reachable d" and "id_free rid d" and "map_of (contexts d) t = None"
    and "list_all (ev_ok t rid) evs"
  shows "if length (pending_requests d) = MAX_PENDING
    then wait_for_response t evs rid ms d = Inr (SYSTEM_FULL, d)
    else \<exists>d'. wait_for_response t evs rid ms d
        = Inr (case last_answer rid evs of Some st \<Rightarrow> st | None \<Rightarrow> TIMEOUT, d')
      \<and> disp_inv d' \<and> map_of (pending_requests d') rid = None"
proof (cases "length (pending_requests d) = MAX_PENDING")
  case True
  then show ?thesis by (simp add: wait_for_response_full)
next
  case False
  then have "length (pending_requests d) < MAX_PENDING"
    using disp_reachable_inv [OF assms(1)] by (simp add: disp_inv_def)
  with False wait_for_response_inv [OF disp_reachable_inv [OF assms(1)] assms(2,3) _ assms(4)]
  show ?thesis by simp
qed

text \<open>A dispatcher with any number of blocked threads up to the limit can be reached.\<close>

lemma update_fresh: "map_of xs k = None \<Longrightarrow> AList.update k v xs = xs @ [(k, v)]"
  by (induction xs) (auto split: if_splits)

lemma crowd_reachable:
  assumes "n \<le> MAX_PENDING"
  shows "\<exists>d. disp_reachable d \<and> length (pending_requests d) = n
    \<and> (\<forall>t i. n \<le> t \<longrightarrow> n \<le> unat i \<longrightarrow>
        map_of (contexts d) t = None \<and> map_of (pending_requests d) i = None \<and> id_free i d)"
  using assms
proof (induction n)
  case 0
  have "disp_reachable init_dispatcher" by (rule disp_reachable.init)
  then show ?case by (intro exI [of _ init_dispatcher]) (simp add: init_dispatcher_def id_free_def)
next
  case (Suc n)
  then obtain d where d: "disp_reachable d" "length (pending_requests d) = n"
    and free: "n \<le> t \<Longrightarrow> n \<le> unat i \<Longrightarrow>
        map_of (contexts d) t = None \<and> map_of (pending_requests d) i = None \<and> id_free i d" for t i
    by (auto simp: MAX_PENDING_def)
  let ?i = "of_nat n :: u64"
  let ?d = "snd (wait_enter n ?i 50 d)"
  have un: "unat ?i = n" using Suc.prems by (simp add: MAX_PENDING_def unat_of_nat take_bit_nat_eq_self)
  have room: "length (pending_requests d) < MAX_PENDING" using Suc.prems d by simp
  have "disp_step d (Enter n ?i 50) ?d"
    by (rule disp_step.enter) (use free [of n ?i] un room in \<open>simp_all add: wait_enter_def\<close>)
  then have "disp_reachable ?d" by (rule disp_reachable.step [OF d(1)])
  moreover have "length (pending_requests ?d) = Suc n"
    using free [of n ?i] un room d by (simp add: wait_enter_def update_fresh)
  moreover have "map_of (contexts ?d) t = None \<and> map_of (pending_requests ?d) i = None \<and> id_free i ?d"
    if "Suc n \<le> t" "Suc n \<le> unat i" for t i
    using free [of t i] that un room by (auto simp: wait_enter_def id_free_def)
  ultimately show ?case by blast
qed

text \<open>
  A dispatcher with one blocked thread, and one with two threads that wait for the same id: both
  are reachable, and serve as the concrete inputs below.
\<close>

definition one_waiter :: dispatcher where
  "one_waiter = snd (wait_enter 1 7 50 init_dispatcher)"

definition two_waiters :: dispatcher where
  "two_waiters = snd (wait_enter 2 7 50 one_waiter)"

lemmas scenario_simps = one_waiter_def two_waiters_def init_dispatcher_def wait_enter_def
  wait_leave_def dispatch_def MAX_PENDING_def id_free_def

lemma one_waiter_reachable: "disp_reachable one_waiter"
  by (rule disp_reachable.step [OF disp_reachable.init disp_step.enter [of _ 1 7 50]])
    (simp_all add: scenario_simps)

lemma two_waiters_reachable: "disp_reachable two_waiters"
  by (rule disp_reachable.step [OF one_waiter_reachable disp_step.enter [of _ 2 7 50]])
    (simp_all add: scenario_simps)

theorem dispatch_never_dangles_witness: "\<exists>d'. dispatch 7 SUCCESS two_waiters = Inr d'"
  by (rule dispatch_never_dangles [OF two_waiters_reachable])

lemma pending_bounded_example:
  "length (pending_requests two_waiters) \<le> MAX_PENDING
    \<and> (fst (wait_enter 3 9 10 two_waiters) = Some SYSTEM_FULL
        \<longleftrightarrow> length (pending_requests two_waiters) = MAX_PENDING)"
  by (rule pending_bounded [OF two_waiters_reachable])

theorem wait_for_response_contract_witness:
  "(\<exists>d'. wait_for_response 5 [Ev_tick 3, Ev_dispatch 9 SUCCESS, Ev_dispatch 8 DB_ERROR, Ev_leave 1] 9 100 one_waiter
      = Inr (SUCCESS, d')
    \<and> disp_inv d' \<and> map_of (pending_requests d') 9 = None)
   \<and> (\<exists>d. length (pending_requests d) = MAX_PENDING
        \<and> wait_for_response 600 [Ev_tick 3] 700 100 d = Inr (SYSTEM_FULL, d))"
proof -
  obtain d where d: "disp_reachable d" "length (pending_requests d) = MAX_PENDING"
    and free: "\<forall>t i. MAX_PENDING \<le> t \<longrightarrow> MAX_PENDING \<le> unat (i :: u64) \<longrightarrow>
        map_of (contexts d) t = None \<and> map_of (pending_requests d) i = None \<and> id_free i d"
    using crowd_reachable [OF order.refl] by blast
  have room: "id_free 700 d" "map_of (contexts d) 600 = None"
    using free [rule_format, of 600 700] by (simp_all add: MAX_PENDING_def)
  show ?thesis
    using wait_for_response_contract [OF one_waiter_reachable, of 9 5
        "[Ev_tick 3, Ev_dispatch 9 SUCCESS, Ev_dispatch 8 DB_ERROR, Ev_leave 1]" 100]
      wait_for_response_contract [OF d(1) room, of "[Ev_tick 3]" 100] d(2)
    by (auto simp: scenario_simps last_answer_def)
qed

section \<open>What the calls of some threads leave behind\<close>

text \<open>\<open>T\<close> are threads of interest. Events of the others (\<open>outsider\<close>), and whole calls of the threads
  of \<open>T\<close>, keep the invariant and leave no context of a thread of \<open>T\<close> behind.\<close>

fun outsider :: "nat set \<Rightarrow> disp_event \<Rightarrow> bool" where
  "outsider T (Ev_enter t rid ms) \<longleftrightarrow> t \<notin> T"
| "outsider T (Ev_leave t) \<longleftrightarrow> t \<notin> T"
| "outsider T _ \<longleftrightarrow> True"

definition own_free :: "nat set \<Rightarrow> dispatcher \<Rightarrow> bool" where
  "own_free T d \<longleftrightarrow> disp_inv d \<and> (\<forall>t \<in> T. map_of (contexts d) t = None)"

lemma own_freeD: "own_free T d \<Longrightarrow> t \<in> T \<Longrightarrow> map_of (contexts d) t = None"
  by (simp add: own_free_def)

lemma own_free_inv: "own_free T d \<Longrightarrow> disp_inv d"
  by (simp add: own_free_def)

lemma own_free_mono: "own_free T d \<Longrightarrow> F \<subseteq> T \<Longrightarrow> own_free F d"
  by (auto simp: own_free_def)

lemma wait_enter_free:
  assumes "own_free T d" and "t \<notin> T" and "map_of (contexts d) t = None"
  shows "own_free T (snd (wait_enter t rid ms d))"
proof -
  have "disp_inv (snd (wait_enter t rid ms d))"
    using own_free_inv [OF assms(1)] assms(3) by (auto intro: wait_enter_inv simp: prod_eq_iff)
  then show ?thesis using assms(1,2) by (auto simp: own_free_def wait_enter_def)
qed

lemma wait_leave_free:
  assumes "own_free T d" and "wait_leave t d = Some (r, d')"
  shows "own_free (insert t T) d'"
proof -
  have "disp_inv d'" using own_free_inv [OF assms(1)] assms(2) by (rule wait_leave_inv)
  then show ?thesis
    using assms by (auto simp: own_free_def wait_leave_def split: option.splits if_splits)
qed

lemma dispatch_free:
  assumes "own_free T d" and "dispatch rid st d = Inr d'"
  shows "own_free T d'"
proof -
  have "disp_inv d'" using own_free_inv [OF assms(1)] assms(2) by (rule dispatch_inv)
  then show ?thesis using assms by (auto simp: own_free_def dispatch_def split: option.splits)
qed

lemma env_event_free:
  assumes free: "own_free F d" and out: "outsider T e" and sub: "F \<subseteq> T" and step: "env_event e d = Inr d'"
  shows "own_free F d'"
proof (cases e)
  case (Ev_enter t rid ms)
  show ?thesis
  proof (cases "map_of (contexts d) t")
    case None
    moreover have "t \<notin> F" using Ev_enter out sub by auto
    ultimately show ?thesis using Ev_enter step wait_enter_free [OF free] by auto
  qed (use Ev_enter step free in simp)
next
  case (Ev_dispatch rid st)
  with step dispatch_free [OF free] show ?thesis by simp
next
  case (Ev_leave t)
  show ?thesis
  proof (cases "wait_leave t d")
    case (Some p)
    then obtain r d1 where leave: "wait_leave t d = Some (r, d1)" by (cases p) simp
    from wait_leave_free [OF free leave] leave Ev_leave step own_free_mono show ?thesis by fastforce
  qed (use Ev_leave step free in simp)
next
  case (Ev_tick n)
  with step free show ?thesis by (auto simp: own_free_def disp_inv_def)
qed

lemma env_events_free:
  "own_free F d \<Longrightarrow> list_all (outsider T) evs \<Longrightarrow> F \<subseteq> T \<Longrightarrow> env_events evs d = Inr d' \<Longrightarrow> own_free F d'"
  by (induction evs arbitrary: d) (auto intro: env_event_free)

lemma wait_finish_free:
  assumes free: "own_free T d" and fin: "wait_finish t d = Inr (r, d')"
  shows "own_free (insert t T) d'"
proof (cases "wait_leave t d")
  case (Some p)
  with fin wait_leave_free [OF free] show ?thesis by (simp add: wait_finish_def)
next
  case None
  with fin obtain c :: request_context where "wait_leave t (d\<lparr>now := deadline c\<rparr>) = Some (r, d')"
    by (auto simp: wait_finish_def split: option.splits)
  moreover have "own_free T (d\<lparr>now := deadline c\<rparr>)" using free by (simp add: own_free_def disp_inv_def)
  ultimately show ?thesis using wait_leave_free by blast
qed

lemma wait_for_response_free:
  assumes free: "own_free T d" and "t \<in> T" and evs: "list_all (outsider T) evs"
    and run: "wait_for_response t evs rid ms d = Inr (r, d')"
  shows "own_free T d'"
proof (cases "wait_enter t rid ms d")
  case (Pair early d1)
  show ?thesis
  proof (cases early)
    case (Some st)
    with Pair run free show ?thesis by (auto simp: wait_for_response_def wait_enter_def split: if_splits)
  next
    case None
    with Pair run obtain d2 where d2: "env_events evs d1 = Inr d2" "wait_finish t d2 = Inr (r, d')"
      by (auto simp: wait_for_response_def)
    have "own_free (T - {t}) d1"
      using wait_enter_free [OF own_free_mono [OF free, of "T - {t}"], of t rid ms] own_freeD [OF free assms(2)] Pair
      by auto
    from env_events_free [OF this evs _ d2(1)] have "own_free (T - {t}) d2" by blast
    from wait_finish_free [OF this d2(2)] assms(2) show ?thesis by (simp add: insert_absorb)
  qed
qed

section \<open>Where answers get lost\<close>

lemma id_free_not_pending:
  "disp_inv d \<Longrightarrow> id_free rid d \<Longrightarrow> map_of (pending_requests d) rid = None"
  by (cases "map_of (pending_requests d) rid") (auto simp: id_free_def dest: disp_inv_ptr)

text \<open>An answer that arrives before the handler has entered \<open>wait_for_response\<close> is lost: the
  dispatch changes nothing, and the call that follows times out unless a second answer comes.\<close>

lemma early_answer_is_lost:
  assumes "disp_reachable d" and "id_free rid d" and "map_of (contexts d) t = None"
    and "length (pending_requests d) < MAX_PENDING"
  shows "dispatch rid st d = Inr d \<and> (\<exists>d'. wait_for_response t [] rid ms d = Inr (TIMEOUT, d'))"
proof -
  have "map_of (pending_requests d) rid = None"
    using disp_reachable_inv [OF assms(1)] assms(2) by (rule id_free_not_pending)
  moreover have "\<exists>d'. wait_for_response t [] rid ms d = Inr (TIMEOUT, d')"
    using wait_for_response_inv [OF disp_reachable_inv [OF assms(1)] assms(2-4), of "[]" ms]
    by (auto simp: last_answer_def)
  ultimately show ?thesis by (simp add: dispatch_def)
qed

lemma early_answer_is_lost_example:
  "dispatch 9 SUCCESS one_waiter = Inr one_waiter
    \<and> (\<exists>d'. wait_for_response 5 [] 9 100 one_waiter = Inr (TIMEOUT, d'))"
  by (rule early_answer_is_lost [OF one_waiter_reachable]) (simp_all add: scenario_simps)

text \<open>Ids must be unique among the waiters. When two threads wait for one id and either of
  them leaves, the table entry goes with it: no later dispatch reaches the other one.\<close>

lemma duplicate_id_drops_waiter:
  assumes "disp_reachable d"
    and "map_of (contexts d) t1 = Some c1" and "map_of (contexts d) t2 = Some c2"
    and "ctx_id c1 = rid" and "ctx_id c2 = rid" and "t1 \<noteq> t2"
    and "wait_leave t1 d = Some (r, d1)"
  shows "dispatch rid st d1 = Inr d1 \<and> map_of (contexts d1) t2 = Some c2"
  using assms by (auto simp: wait_leave_def dispatch_def split: if_splits)

lemma duplicate_id_drops_waiter_example:
  "\<exists>d1. wait_leave 1 (two_waiters\<lparr>now := 60\<rparr>) = Some (TIMEOUT, d1) \<and> dispatch 7 SUCCESS d1 = Inr d1"
proof -
  let ?d = "two_waiters\<lparr>now := now two_waiters + int 60\<rparr>"
  have reach: "disp_reachable ?d"
    by (rule disp_reachable.step [OF two_waiters_reachable disp_step.tick])
  have leave: "\<exists>d1. wait_leave 1 ?d = Some (TIMEOUT, d1)"
    by (simp add: scenario_simps)
  then obtain d1 where d1: "wait_leave 1 ?d = Some (TIMEOUT, d1)" by blast
  have "dispatch 7 SUCCESS d1 = Inr d1"
    using duplicate_id_drops_waiter [OF reach _ _ _ _ _ d1, where rid = 7 and st = SUCCESS and ?t2.0 = 2]
    by (simp add: scenario_simps)
  with d1 show ?thesis by (simp add: scenario_simps)
qed

section \<open>The interface the handlers rely on\<close>

text \<open>
  What the CLI and the HTTP handler need of the rendezvous: a call on a usable id returns, and its
  result is the answer given to that id, or \<open>TIMEOUT\<close>.
\<close>

locale response_channel =
  fixes wait :: "'ev list \<Rightarrow> u64 \<Rightarrow> int \<Rightarrow> 's \<Rightarrow> exn + (response_status \<times> 's)"
    and usable :: "u64 \<Rightarrow> 'ev list \<Rightarrow> 's \<Rightarrow> bool"
    and answer :: "u64 \<Rightarrow> 'ev list \<Rightarrow> response_status option"
  assumes wait_answer: "usable rid evs s \<Longrightarrow>
    \<exists>s'. wait evs rid ms s = Inr (case answer rid evs of Some st \<Rightarrow> st | None \<Rightarrow> TIMEOUT, s')"
begin

lemma wait_returns: "usable rid evs s \<Longrightarrow> \<exists>st s'. wait evs rid ms s = Inr (st, s')"
  using wait_answer by blast

lemma wait_success_iff:
  "usable rid evs s \<Longrightarrow> (\<exists>s'. wait evs rid ms s = Inr (SUCCESS, s')) \<longleftrightarrow> answer rid evs = Some SUCCESS"
  using wait_answer [of rid evs s ms] by (auto split: option.splits)

lemma wait_silent: "usable rid evs s \<Longrightarrow> answer rid evs = None \<Longrightarrow> \<exists>s'. wait evs rid ms s = Inr (TIMEOUT, s')"
  using wait_answer [of rid evs s ms] by auto

end

definition channel_usable :: "nat \<Rightarrow> u64 \<Rightarrow> disp_event list \<Rightarrow> dispatcher \<Rightarrow> bool" where
  "channel_usable t rid evs d \<longleftrightarrow> disp_inv d \<and> id_free rid d \<and> map_of (contexts d) t = None
     \<and> length (pending_requests d) < MAX_PENDING \<and> list_all (ev_ok t rid) evs"

interpretation disp: response_channel "wait_for_response t" "channel_usable t" last_answer for t
proof unfold_locales
  fix rid evs s ms
  assume "channel_usable t rid evs s"
  then show "\<exists>s'. wait_for_response t evs rid ms s
      = Inr (case last_answer rid evs of Some st \<Rightarrow> st | None \<Rightarrow> TIMEOUT, s')"
    using wait_for_response_inv unfolding channel_usable_def by blast
qed

end
