(* ===== verification/Jwt.thy ===== *)
theory Jwt
  imports Json
begin

text \<open>
  The token manager of \<open>libs/jwt/JwtManager.cpp\<close>: base64url over Botan's base64, token generation
  and verification. Botan's base64 and signatures and Boost's parser and serialiser are
  parameters, gathered in \<open>jwt_lib\<close>; what is assumed of them is stated where it is used. RFC 4648
  base64, at the end of the theory, is a concrete instance of those assumptions.
\<close>

section \<open>Bytes and base64url\<close>

definition str_bytes :: "string \<Rightarrow> bytes" where
  "str_bytes s = map (\<lambda>c. word_of_nat (of_char c)) s"

definition bytes_str :: "bytes \<Rightarrow> string" where
  "bytes_str b = map (\<lambda>w. char_of (unat w)) b"

lemma bytes_str_bytes [simp]: "bytes_str (str_bytes s) = s"
proof -
  have "(of_char c :: nat) < 256" for c :: char by simp
  then have "unat (word_of_nat (of_char c) :: 8 word) = of_char c" for c :: char
    by (simp add: unat_of_nat)
  then show ?thesis
    by (induction s) (simp_all add: bytes_str_def str_bytes_def)
qed

definition std_replace :: "char \<Rightarrow> char \<Rightarrow> string \<Rightarrow> string" where
  "std_replace a b s = map (\<lambda>c. if c = a then b else c) s"

definition base64url_encode :: "(bytes \<Rightarrow> string) \<Rightarrow> bytes \<Rightarrow> string" where
  "base64url_encode enc data =
     (let b64 = enc data;
          b64 = std_replace (CHR ''+'') (CHR ''-'') b64;
          b64 = std_replace (CHR ''/'') (CHR ''_'') b64
      in filter (\<lambda>c. c \<noteq> CHR ''='') b64)"

definition base64url_encode_str :: "(bytes \<Rightarrow> string) \<Rightarrow> string \<Rightarrow> string" where
  "base64url_encode_str enc data = base64url_encode enc (str_bytes data)"

text \<open>The loop \<open>while (b64.size() % 4 != 0) b64.push_back('=')\<close>.\<close>

lemma pad4_arith:
  fixes n :: nat
  assumes "0 < n mod 4"
  shows "4 - n mod 4 = Suc ((4 - Suc n mod 4) mod 4)"
proof -
  have "n mod 4 = 1 \<or> n mod 4 = 2 \<or> n mod 4 = 3"
    using assms mod_less_divisor [of 4 n] by linarith
  then show ?thesis by (elim disjE) (simp_all add: mod_Suc)
qed

function pad4 :: "string \<Rightarrow> string" where
  "pad4 s = (if length s mod 4 \<noteq> 0 then pad4 (s @ ''='') else s)"
  by pat_completeness auto
termination
proof (relation "measure (\<lambda>s. (4 - length s mod 4) mod 4)")
  fix s :: string
  assume "length s mod 4 \<noteq> 0"
  then show "(s @ ''='', s) \<in> measure (\<lambda>s. (4 - length s mod 4) mod 4)"
    using pad4_arith [of "length s"] by simp
qed simp

declare pad4.simps [simp del]

definition base64url_decode :: "(string \<Rightarrow> exn + bytes) \<Rightarrow> string \<Rightarrow> exn + bytes" where
  "base64url_decode dec input =
     (let b64 = std_replace (CHR ''-'') (CHR ''+'') input;
          b64 = std_replace (CHR ''_'') (CHR ''/'') b64
      in dec (pad4 b64))"

lemma pad4_eq: "pad4 s = s @ replicate ((4 - length s mod 4) mod 4) (CHR ''='')"
proof (induction s rule: pad4.induct)
  case (1 s)
  show ?case
  proof (cases "length s mod 4 = 0")
    case True
    then show ?thesis by (simp add: pad4.simps [of s])
  next
    case False
    let ?k = "(4 - length (s @ ''='') mod 4) mod 4"
    have k: "(4 - length s mod 4) mod 4 = Suc ?k" using False pad4_arith [of "length s"] by simp
    have "pad4 s = pad4 (s @ ''='')" using False by (simp add: pad4.simps [of s])
    also have "\<dots> = (s @ ''='') @ replicate ?k (CHR ''='')" using 1 False by simp
    also have "\<dots> = s @ replicate (Suc ?k) (CHR ''='')" by simp
    finally show ?thesis unfolding k .
  qed
qed

text \<open>
  What is assumed of the base64 codec: decoding inverts encoding, and an encoding is a run of
  base64 characters padded with \<open>=\<close> to a multiple of four.
\<close>

definition b64_alphabet :: string where
  "b64_alphabet = ''ABCDEFGHIJKLMNOPQRSTUVWXYZabcdefghijklmnopqrstuvwxyz0123456789+/''"

definition base64_ok :: "(bytes \<Rightarrow> string) \<Rightarrow> (string \<Rightarrow> exn + bytes) \<Rightarrow> bool" where
  "base64_ok enc dec \<longleftrightarrow>
     (\<forall>d. dec (enc d) = Inr d \<and>
       (\<exists>core. set core \<subseteq> set b64_alphabet \<and>
          enc d = core @ replicate ((4 - length core mod 4) mod 4) (CHR ''='')))"

lemma alphabet_facts:
  "c \<in> set b64_alphabet \<Longrightarrow> c \<noteq> CHR ''='' \<and> c \<noteq> CHR ''-'' \<and> c \<noteq> CHR ''_'' \<and> c \<noteq> CHR ''.''"
  by (auto simp: b64_alphabet_def)

lemma std_replace_append [simp]: "std_replace a b (s @ t) = std_replace a b s @ std_replace a b t"
  by (simp add: std_replace_def)

lemma std_replace_replicate [simp]:
  "std_replace a b (replicate n c) = replicate n (if c = a then b else c)"
  by (simp add: std_replace_def)

lemma length_std_replace [simp]: "length (std_replace a b s) = length s"
  by (simp add: std_replace_def)

lemma base64url_encode_core:
  assumes "set core \<subseteq> set b64_alphabet" and "enc d = core @ replicate n (CHR ''='')"
  shows "base64url_encode enc d
    = std_replace (CHR ''/'') (CHR ''_'') (std_replace (CHR ''+'') (CHR ''-'') core)"
proof -
  have "c \<noteq> CHR ''=''" if "c \<in> set core" for c
    using assms(1) that alphabet_facts by blast
  then show ?thesis
    using assms(2) by (auto simp: base64url_encode_def Let_def std_replace_def filter_id_conv)
qed

lemma std_replace_back:
  assumes "set core \<subseteq> set b64_alphabet"
  shows "std_replace (CHR ''_'') (CHR ''/'') (std_replace (CHR ''-'') (CHR ''+'')
    (std_replace (CHR ''/'') (CHR ''_'') (std_replace (CHR ''+'') (CHR ''-'') core))) = core"
  using assms by (induction core) (auto simp: std_replace_def dest: alphabet_facts)

lemma base64url_no_dot:
  assumes "base64_ok enc dec"
  shows "CHR ''.'' \<notin> set (base64url_encode enc d)"
proof -
  obtain core n where core: "set core \<subseteq> set b64_alphabet" "enc d = core @ replicate n (CHR ''='')"
    using assms unfolding base64_ok_def by blast
  then show ?thesis
    using alphabet_facts by (auto simp: base64url_encode_core std_replace_def)
qed

lemma base64url_decode_encode:
  assumes "base64_ok enc dec"
  shows "base64url_decode dec (base64url_encode enc d) = Inr d"
proof -
  obtain core where core: "set core \<subseteq> set b64_alphabet"
    "enc d = core @ replicate ((4 - length core mod 4) mod 4) (CHR ''='')"
    using assms unfolding base64_ok_def by blast
  have "base64url_decode dec (base64url_encode enc d) = dec (pad4 core)"
    unfolding base64url_encode_core [where enc = enc and d = d, OF core] base64url_decode_def Let_def
    by (simp add: std_replace_back [OF core(1)])
  also have "\<dots> = dec (enc d)" by (simp add: pad4_eq core(2))
  finally show ?thesis using assms by (simp add: base64_ok_def)
qed

section \<open>Tokens\<close>

record ('sk, 'pk) jwt_lib =
  b64_encode :: "bytes \<Rightarrow> string"
  b64_decode :: "string \<Rightarrow> exn + bytes"
  j_parse :: json_parse
  j_serialize :: json_serialize
  sign_message :: "'sk \<Rightarrow> bytes \<Rightarrow> bytes"
  verify_message :: "'pk \<Rightarrow> bytes \<Rightarrow> bytes \<Rightarrow> bool"

record ('sk, 'pk) jwt_manager =
  private_key :: 'sk
  public_key :: 'pk

record jwt_claims =
  sub :: string
  role :: string
  iat :: u64
  exp :: u64

definition JWT_ALGO :: string where
  "JWT_ALGO = ''ES384''"

definition JWT_HEADER :: string where
  "JWT_HEADER = ''{'' @ [dq] @ ''alg'' @ [dq] @ '':'' @ [dq] @ ''ES384'' @ [dq] @ '',''
     @ [dq] @ ''typ'' @ [dq] @ '':'' @ [dq] @ ''JWT'' @ [dq] @ ''}''"

definition jwt_payload :: "u64 \<Rightarrow> string \<Rightarrow> string \<Rightarrow> u64 \<Rightarrow> json_object" where
  "jwt_payload now subject rl ttl_seconds =
     (let payload = [];
          payload = obj_set ''iss'' (JString ''management-sensors'') payload;
          payload = obj_set ''sub'' (JString subject) payload;
          payload = obj_set ''role'' (JString rl) payload;
          payload = obj_set ''iat'' (JUint64 (unat now)) payload
      in obj_set ''exp'' (JUint64 (unat (now + ttl_seconds))) payload)"

definition jwt_generate ::
  "('sk, 'pk) jwt_lib \<Rightarrow> ('sk, 'pk) jwt_manager \<Rightarrow> u64 \<Rightarrow> string \<Rightarrow> string \<Rightarrow> u64 \<Rightarrow> string" where
  "jwt_generate L m now subject rl ttl_seconds =
     (let payload = JObject (jwt_payload now subject rl ttl_seconds);
          header_b64 = base64url_encode_str (b64_encode L) JWT_HEADER;
          payload_b64 = base64url_encode_str (b64_encode L) (j_serialize L payload);
          signing_input = header_b64 @ ''.'' @ payload_b64;
          signature = sign_message L (private_key m) (str_bytes signing_input)
      in signing_input @ ''.'' @ base64url_encode (b64_encode L) signature)"

text \<open>
  The body of the \<open>try\<close> block of \<open>verify\<close> once the token is split: \<^term>\<open>Inr None\<close> is
  \<open>return std::nullopt\<close>, \<^term>\<open>Inl e\<close> an exception.
\<close>

definition jwt_verify_parts ::
  "('sk, 'pk) jwt_lib \<Rightarrow> ('sk, 'pk) jwt_manager \<Rightarrow> u64 \<Rightarrow> string \<Rightarrow> string \<Rightarrow> string
    \<Rightarrow> exn + jwt_claims option" where
  "jwt_verify_parts L m now header_b64 payload_b64 sig_b64 =
     sbind (base64url_decode (b64_decode L) header_b64) (\<lambda>header_raw.
     sbind (j_parse L (bytes_str header_raw)) (\<lambda>header_json.
     sbind (as_object header_json) (\<lambda>header_obj.
     sbind (obj_at header_obj ''alg'') (\<lambda>alg_json.
     sbind (as_string alg_json) (\<lambda>alg.
       if alg \<noteq> JWT_ALGO then Inr None
       else
         let signing_input = header_b64 @ ''.'' @ payload_b64 in
         sbind (base64url_decode (b64_decode L) sig_b64) (\<lambda>sig_bytes.
           if \<not> verify_message L (public_key m) (str_bytes signing_input) sig_bytes then Inr None
           else
             sbind (base64url_decode (b64_decode L) payload_b64) (\<lambda>payload_raw.
             sbind (j_parse L (bytes_str payload_raw)) (\<lambda>payload_json.
             sbind (as_object payload_json) (\<lambda>obj.
             sbind (sbind (obj_at obj ''sub'') as_string) (\<lambda>c_sub.
             sbind (sbind (obj_at obj ''role'') as_string) (\<lambda>c_role.
             sbind (sbind (obj_at obj ''iat'') as_int64) (\<lambda>c_iat.
             sbind (sbind (obj_at obj ''exp'') as_int64) (\<lambda>c_exp.
               if to_u64 c_exp \<le> now then Inr None
               else Inr (Some \<lparr>sub = c_sub, role = c_role, iat = to_u64 c_iat, exp = to_u64 c_exp\<rparr>))))))))))))))"

definition jwt_verify ::
  "('sk, 'pk) jwt_lib \<Rightarrow> ('sk, 'pk) jwt_manager \<Rightarrow> u64 \<Rightarrow> string \<Rightarrow> jwt_claims option" where
  "jwt_verify L m now token =
     (case str_find (CHR ''.'') token of
        None \<Rightarrow> None
      | Some dot1 \<Rightarrow>
          (case str_find_from (CHR ''.'') token (dot1 + 1) of
             None \<Rightarrow> None
           | Some dot2 \<Rightarrow>
               (case jwt_verify_parts L m now (substr token 0 dot1)
                       (substr token (dot1 + 1) (dot2 - dot1 - 1)) (drop (dot2 + 1) token) of
                  Inl _ \<Rightarrow> None
                | Inr r \<Rightarrow> r)))"

lemma jwt_verify_split:
  assumes "CHR ''.'' \<notin> set h" and "CHR ''.'' \<notin> set p"
  shows "jwt_verify L m now (h @ ''.'' @ p @ ''.'' @ s)
    = (case jwt_verify_parts L m now h p s of Inl _ \<Rightarrow> None | Inr r \<Rightarrow> r)"
proof -
  have "str_find_from (CHR ''.'') (h @ CHR ''.'' # p @ CHR ''.'' # s) (Suc (length h))
      = Some (Suc (length h) + length p)"
    using assms by (simp add: str_find_from_def)
  then show ?thesis using assms by (simp add: jwt_verify_def substr_def)
qed

text \<open>The converse: a token that verifies splits at its first two dots.\<close>

lemma jwt_verify_SomeE:
  assumes "jwt_verify L m now token = Some c"
  obtains h p s where "token = h @ ''.'' @ p @ ''.'' @ s"
    and "CHR ''.'' \<notin> set h" and "CHR ''.'' \<notin> set p"
    and "jwt_verify_parts L m now h p s = Inr (Some c)"
proof -
  from assms obtain dot1 where "str_find (CHR ''.'') token = Some dot1"
    by (auto simp: jwt_verify_def split: option.splits)
  then obtain h t where t: "token = h @ CHR ''.'' # t" "CHR ''.'' \<notin> set h" "length h = dot1"
    by (auto simp: str_find_Some_iff)
  with assms have "str_find (CHR ''.'') t \<noteq> None"
    by (auto simp: jwt_verify_def str_find_from_def split: option.splits)
  then obtain p s where p: "t = p @ CHR ''.'' # s" "CHR ''.'' \<notin> set p"
    by (auto simp: str_find_Some_iff)
  have tok: "token = h @ ''.'' @ p @ ''.'' @ s" using t p by simp
  have "jwt_verify_parts L m now h p s = Inr (Some c)"
    using assms unfolding tok jwt_verify_split [OF t(2) p(2)] by (auto split: sum.splits)
  with that tok t(2) p(2) show thesis by blast
qed

section \<open>RFC 4648 base64, an instance of the codec assumptions\<close>

definition rfc_char :: "nat \<Rightarrow> char" where
  "rfc_char n = b64_alphabet ! n"

definition rfc_val :: "char \<Rightarrow> nat" where
  "rfc_val c = (case str_find c b64_alphabet of Some i \<Rightarrow> i | None \<Rightarrow> 0)"

fun rfc_encode :: "bytes \<Rightarrow> string" where
  "rfc_encode [] = []"
| "rfc_encode [a] =
     [rfc_char (unat a div 4), rfc_char (unat a mod 4 * 16), CHR ''='', CHR ''='']"
| "rfc_encode [a, b] =
     [rfc_char (unat a div 4), rfc_char (unat a mod 4 * 16 + unat b div 16),
      rfc_char (unat b mod 16 * 4), CHR ''='']"
| "rfc_encode (a # b # c # r) =
     rfc_char (unat a div 4) # rfc_char (unat a mod 4 * 16 + unat b div 16)
       # rfc_char (unat b mod 16 * 4 + unat c div 64) # rfc_char (unat c mod 64) # rfc_encode r"

fun rfc_decode :: "string \<Rightarrow> exn + bytes" where
  "rfc_decode [] = Inr []"
| "rfc_decode (w # x # y # z # r) =
     (let v = rfc_val w * 4 + rfc_val x div 16;
          v2 = rfc_val x mod 16 * 16 + rfc_val y div 4;
          v3 = rfc_val y mod 4 * 64 + rfc_val z
      in if z = CHR ''=''
         then (if r \<noteq> [] then Inl (Runtime_error ''base64'')
               else if y = CHR ''='' then Inr [word_of_nat v]
               else Inr [word_of_nat v, word_of_nat v2])
         else sbind (rfc_decode r) (\<lambda>t. Inr (word_of_nat v # word_of_nat v2 # word_of_nat v3 # t)))"
| "rfc_decode _ = Inl (Runtime_error ''base64'')"

lemma rfc_chars: "\<forall>n \<in> {0..<64}. rfc_val (rfc_char n) = n \<and> rfc_char n \<in> set b64_alphabet"
  by code_simp

lemma rfc_val_char [simp]: "n < 64 \<Longrightarrow> rfc_val (rfc_char n) = n"
  using rfc_chars by simp

lemma rfc_char_alphabet [simp]: "n < 64 \<Longrightarrow> rfc_char n \<in> set b64_alphabet"
  using rfc_chars by simp

lemma rfc_char_not_pad [simp]: "n < 64 \<Longrightarrow> rfc_char n \<noteq> CHR ''=''"
  using alphabet_facts [OF rfc_char_alphabet] by blast

lemma unat8: "unat (a :: 8 word) < 256"
  using unsigned_less [of a] by simp

lemma byte_bounds [simp]:
  fixes a b :: "8 word"
  shows "unat a div 4 < 64" "unat a mod 4 * 16 < 64" "unat a mod 4 * 16 + unat b div 16 < 64"
    "unat b mod 16 * 4 < 64" "unat a mod 16 * 4 + unat b div 64 < 64" "unat a mod 64 < 64"
  using unat8 [of a] unat8 [of b] by linarith+

lemma byte_nibbles [simp]:
  fixes a :: "8 word"
  shows "unat a div 16 div 16 = 0" "unat a div 16 mod 16 = unat a div 16"
    "unat a div 64 div 4 = 0" "unat a div 64 mod 4 = unat a div 64"
proof -
  have "unat a div 16 < 16" "unat a div 64 < 4" using unat8 [of a] by linarith+
  then show "unat a div 16 div 16 = 0" "unat a div 16 mod 16 = unat a div 16"
    "unat a div 64 div 4 = 0" "unat a div 64 mod 4 = unat a div 64" by simp_all
qed

lemma rfc_decode_encode: "rfc_decode (rfc_encode d) = Inr d"
proof (induction d rule: rfc_encode.induct)
  case (2 a)
  have "unat a div 4 * 4 + unat a mod 4 * 16 div 16 = unat a" by simp
  then show ?case by (simp add: Let_def del: of_nat_add of_nat_mult)
next
  case (3 a b)
  show ?case by (simp add: Let_def del: of_nat_add of_nat_mult)
next
  case (4 a b c r)
  then show ?case by (simp add: Let_def del: of_nat_add of_nat_mult)
qed simp

lemma rfc_encode_shape:
  "\<exists>core. set core \<subseteq> set b64_alphabet \<and>
     rfc_encode d = core @ replicate ((4 - length core mod 4) mod 4) (CHR ''='')"
proof (induction d rule: rfc_encode.induct)
  case 1
  show ?case by (rule exI [of _ "[]"]) simp
next
  case (2 a)
  show ?case
    by (rule exI [of _ "[rfc_char (unat a div 4), rfc_char (unat a mod 4 * 16)]"]) (simp add: numeral_2_eq_2)
next
  case (3 a b)
  show ?case
    by (rule exI [of _ "[rfc_char (unat a div 4), rfc_char (unat a mod 4 * 16 + unat b div 16),
        rfc_char (unat b mod 16 * 4)]"]) simp
next
  case (4 a b c r)
  then obtain core where "set core \<subseteq> set b64_alphabet"
    "rfc_encode r = core @ replicate ((4 - length core mod 4) mod 4) (CHR ''='')" by blast
  then show ?case
    by (intro exI [of _ "rfc_char (unat a div 4) # rfc_char (unat a mod 4 * 16 + unat b div 16)
       # rfc_char (unat b mod 16 * 4 + unat c div 64) # rfc_char (unat c mod 64) # core"]) simp
qed

lemma rfc_base64_ok: "base64_ok rfc_encode rfc_decode"
  by (simp add: base64_ok_def rfc_decode_encode rfc_encode_shape)

section \<open>What tokens promise\<close>

text \<open>C23: base64url decoding inverts base64url encoding on every byte sequence, for any base64 codec
  whose output is base64 characters padded to a multiple of four.\<close>

theorem base64url_roundtrip:
  assumes "base64_ok enc dec"
  shows "base64url_decode dec (base64url_encode enc d) = Inr d"
  using assms by (rule base64url_decode_encode)

theorem base64url_roundtrip_witness:
  "base64url_decode rfc_decode (base64url_encode rfc_encode [251, 255, 7, 1]) = Inr [251, 255, 7, 1]"
  by (rule base64url_roundtrip [OF rfc_base64_ok])

text \<open>C4: a token verifies only if it has three segments, its header names ES384, the signature is
  valid over the first two segments, and the payload is an object whose fields sub, role, iat and
  exp are the claims returned (the two times read as unsigned numbers), the expiry still ahead.\<close>

theorem jwt_verify_sound:
  assumes "jwt_verify L m now token = Some c"
  shows "\<exists>h p s sig hdr obj hraw praw.
     token = h @ ''.'' @ p @ ''.'' @ s \<and> CHR ''.'' \<notin> set h \<and> CHR ''.'' \<notin> set p
     \<and> base64url_decode (b64_decode L) h = Inr hraw \<and> j_parse L (bytes_str hraw) = Inr (JObject hdr)
     \<and> map_of hdr ''alg'' = Some (JString ''ES384'')
     \<and> base64url_decode (b64_decode L) s = Inr sig
     \<and> verify_message L (public_key m) (str_bytes (h @ ''.'' @ p)) sig
     \<and> base64url_decode (b64_decode L) p = Inr praw \<and> j_parse L (bytes_str praw) = Inr (JObject obj)
     \<and> map_of obj ''sub'' = Some (JString (sub c)) \<and> map_of obj ''role'' = Some (JString (role c))
     \<and> (\<exists>i. map_of obj ''iat'' = Some (JInt64 i) \<and> iat c = to_u64 i)
     \<and> (\<exists>e. map_of obj ''exp'' = Some (JInt64 e) \<and> exp c = to_u64 e \<and> now < to_u64 e)"
proof -
  obtain h p s where tok: "token = h @ ''.'' @ p @ ''.'' @ s" "CHR ''.'' \<notin> set h" "CHR ''.'' \<notin> set p"
    and parts: "jwt_verify_parts L m now h p s = Inr (Some c)"
    using assms by (rule jwt_verify_SomeE) blast
  from parts have "\<exists>sig hdr obj hraw praw.
     base64url_decode (b64_decode L) h = Inr hraw \<and> j_parse L (bytes_str hraw) = Inr (JObject hdr)
     \<and> map_of hdr ''alg'' = Some (JString ''ES384'')
     \<and> base64url_decode (b64_decode L) s = Inr sig
     \<and> verify_message L (public_key m) (str_bytes (h @ ''.'' @ p)) sig
     \<and> base64url_decode (b64_decode L) p = Inr praw \<and> j_parse L (bytes_str praw) = Inr (JObject obj)
     \<and> map_of obj ''sub'' = Some (JString (sub c)) \<and> map_of obj ''role'' = Some (JString (role c))
     \<and> (\<exists>i. map_of obj ''iat'' = Some (JInt64 i) \<and> iat c = to_u64 i)
     \<and> (\<exists>e. map_of obj ''exp'' = Some (JInt64 e) \<and> exp c = to_u64 e \<and> now < to_u64 e)"
    by (fastforce simp: jwt_verify_parts_def JWT_ALGO_def Let_def not_le split: if_splits)
  with tok show ?thesis by blast
qed

text \<open>What is assumed of the libraries for a given payload.\<close>

definition jwt_header_json :: json where
  "jwt_header_json = JObject [(''alg'', JString ''ES384''), (''typ'', JString ''JWT'')]"

definition jwt_lib_ok :: "('sk, 'pk) jwt_lib \<Rightarrow> ('sk, 'pk) jwt_manager \<Rightarrow> json \<Rightarrow> bool" where
  "jwt_lib_ok L m payload \<longleftrightarrow>
     base64_ok (b64_encode L) (b64_decode L)
     \<and> j_parse L JWT_HEADER = Inr jwt_header_json
     \<and> codec_ok (j_parse L) (j_serialize L) payload
     \<and> (\<forall>msg. verify_message L (public_key m) msg (sign_message L (private_key m) msg))"

lemma jwt_verify_generate_parts:
  assumes ok: "jwt_lib_ok L m (JObject (jwt_payload t0 subject rl ttl))"
  shows "jwt_verify L m now (jwt_generate L m t0 subject rl ttl)
    = (if int (unat t0) \<le> int64_max \<and> int (unat (t0 + ttl)) \<le> int64_max \<and> now < t0 + ttl
       then Some \<lparr>sub = subject, role = rl, iat = t0, exp = t0 + ttl\<rparr> else None)"
proof -
  let ?h = "base64url_encode_str (b64_encode L) JWT_HEADER"
  let ?p = "base64url_encode_str (b64_encode L) (j_serialize L (JObject (jwt_payload t0 subject rl ttl)))"
  let ?s = "base64url_encode (b64_encode L) (sign_message L (private_key m) (str_bytes (?h @ ''.'' @ ?p)))"
  from ok have b64: "base64_ok (b64_encode L) (b64_decode L)" by (simp add: jwt_lib_ok_def)
  note dec = base64url_decode_encode [OF b64]
  have gen: "jwt_generate L m t0 subject rl ttl = ?h @ ''.'' @ ?p @ ''.'' @ ?s"
    by (simp add: jwt_generate_def Let_def)
  have dots: "CHR ''.'' \<notin> set ?h" "CHR ''.'' \<notin> set ?p"
    using base64url_no_dot [OF b64] by (simp_all add: base64url_encode_str_def)
  show ?thesis
    using ok unfolding gen jwt_verify_split [OF dots]
    by (auto simp: jwt_verify_parts_def base64url_encode_str_def dec jwt_lib_ok_def codec_ok_def
        jwt_header_json_def jwt_payload_def obj_set_def obj_at_def JWT_ALGO_def to_u64_def not_le Let_def
        sum.case_eq_if split: if_splits)
qed

text \<open>C24: a token the manager issued verifies with the subject, role and times it was issued for
  until its expiry and never from then on, as long as the expiry fits a signed 64-bit number.\<close>

theorem jwt_roundtrip:
  assumes "jwt_lib_ok L m (JObject (jwt_payload t0 subject rl ttl))"
    and "int (unat t0) + int (unat ttl) \<le> int64_max"
  shows "jwt_verify L m t1 (jwt_generate L m t0 subject rl ttl)
    = (if unat t1 < unat t0 + unat ttl
       then Some \<lparr>sub = subject, role = rl, iat = t0, exp = t0 + ttl\<rparr> else None)"
proof -
  have "unat t0 + unat ttl < 18446744073709551616"
    using assms(2) by linarith
  then have "unat (t0 + ttl) = unat t0 + unat ttl"
    by (simp add: unat_word_ariths)
  moreover have "int (unat t0) \<le> int64_max" using assms(2) by linarith
  ultimately show ?thesis
    using assms(2) by (auto simp: jwt_verify_generate_parts [OF assms(1)] word_less_nat_alt)
qed

definition sample_payload :: json where
  "sample_payload = JObject (jwt_payload 1000 ''admin'' ''admin'' 3600)"

definition sample_lib :: "json \<Rightarrow> (unit, unit) jwt_lib" where
  "sample_lib payload =
     \<lparr>b64_encode = rfc_encode, b64_decode = rfc_decode,
      j_parse = (\<lambda>s. if s = JWT_HEADER then Inr jwt_header_json else Inr (json_normal payload)),
      j_serialize = (\<lambda>v. ''{}''), sign_message = (\<lambda>k msg. rev msg),
      verify_message = (\<lambda>k msg sig. sig = rev msg)\<rparr>"

definition sample_manager :: "(unit, unit) jwt_manager" where
  "sample_manager = \<lparr>private_key = (), public_key = ()\<rparr>"

lemma sample_lib_ok: "jwt_lib_ok (sample_lib payload) sample_manager payload"
  by (simp add: jwt_lib_ok_def sample_lib_def rfc_base64_ok codec_ok_def JWT_HEADER_def)

theorem jwt_roundtrip_witness:
  "jwt_verify (sample_lib sample_payload) sample_manager 1500
     (jwt_generate (sample_lib sample_payload) sample_manager 1000 ''admin'' ''admin'' 3600)
   = Some \<lparr>sub = ''admin'', role = ''admin'', iat = 1000, exp = 4600\<rparr>"
  unfolding sample_payload_def
  by (subst jwt_roundtrip [OF sample_lib_ok]) simp_all

theorem jwt_verify_sound_witness:
  "\<exists>praw obj e. j_parse (sample_lib sample_payload) (bytes_str praw) = Inr (JObject obj)
     \<and> map_of obj ''sub'' = Some (JString ''admin'')
     \<and> map_of obj ''exp'' = Some (JInt64 e) \<and> (4600 :: u64) = to_u64 e \<and> (1500 :: u64) < to_u64 e"
proof -
  have "jwt_verify (sample_lib sample_payload) sample_manager 1500
     (jwt_generate (sample_lib sample_payload) sample_manager 1000 ''admin'' ''admin'' 3600)
   = Some \<lparr>sub = ''admin'', role = ''admin'', iat = 1000, exp = 4600\<rparr>"
    unfolding sample_payload_def
    by (subst jwt_verify_generate_parts [OF sample_lib_ok]) simp
  from jwt_verify_sound [OF this] show ?thesis by auto
qed

text \<open>A time to live that takes the expiry past the signed 64-bit range gives a token that is
  never accepted: the claim is written as an unsigned number and read back as a signed one.\<close>

lemma jwt_far_expiry_rejected:
  assumes "jwt_lib_ok L m (JObject (jwt_payload t0 subject rl ttl))"
    and "int64_max < int (unat (t0 + ttl))"
  shows "jwt_verify L m t1 (jwt_generate L m t0 subject rl ttl) = None"
  using assms(2) by (simp add: jwt_verify_generate_parts [OF assms(1)])

lemma jwt_far_expiry_rejected_example:
  "jwt_verify (sample_lib (JObject (jwt_payload 1000 ''a'' ''b'' 9223372036854775000))) sample_manager 1500
     (jwt_generate (sample_lib (JObject (jwt_payload 1000 ''a'' ''b'' 9223372036854775000)))
        sample_manager 1000 ''a'' ''b'' 9223372036854775000) = None"
  by (rule jwt_far_expiry_rejected [OF sample_lib_ok]) simp

section \<open>Construction\<close>

text \<open>The constructor: the files that can be opened, and Botan's loading of a key and of a certificate's key.\<close>

definition jwt_new ::
  "(string \<Rightarrow> string option) \<Rightarrow> (string \<Rightarrow> exn + 'sk option) \<Rightarrow> (string \<Rightarrow> exn + 'pk option) \<Rightarrow> string \<Rightarrow> string
    \<Rightarrow> exn + ('sk, 'pk) jwt_manager" where
  "jwt_new files load_key subject_public_key private_key_path certificate_path =
     (case files private_key_path of
        None \<Rightarrow> Inl (Runtime_error (''JwtManager: cannot open '' @ private_key_path))
      | Some pem \<Rightarrow>
          sbind (load_key pem) (\<lambda>sk.
          case sk of None \<Rightarrow> Inl (Runtime_error (''JwtManager: failed to load private key from '' @ private_key_path))
          | Some sk \<Rightarrow>
              sbind (subject_public_key certificate_path) (\<lambda>pk.
              case pk of None \<Rightarrow> Inl (Runtime_error (''JwtManager: failed to extract public key from '' @ certificate_path))
              | Some pk \<Rightarrow> Inr \<lparr>private_key = sk, public_key = pk\<rparr>)))"

lemma jwt_new_Inr:
  "jwt_new files load_key cert_key kp cp = Inr m \<longleftrightarrow>
    (\<exists>pem. files kp = Some pem \<and> load_key pem = Inr (Some (private_key m))) \<and> cert_key cp = Inr (Some (public_key m))"
  by (cases m) (auto simp: jwt_new_def split: option.splits)

text \<open>Nothing compares the two keys: with a certificate of another key the manager is constructed all the same,
  and rejects every token it issues.\<close>

lemma mismatched_keys_reject:
  assumes "base64_ok (b64_encode L) (b64_decode L)" and "j_parse L JWT_HEADER = Inr jwt_header_json"
    and "\<And>msg. \<not> verify_message L (public_key m) msg (sign_message L (private_key m) msg)"
  shows "jwt_verify L m now (jwt_generate L m t0 subject rl ttl) = None"
proof -
  let ?h = "base64url_encode_str (b64_encode L) JWT_HEADER"
  let ?p = "base64url_encode_str (b64_encode L) (j_serialize L (JObject (jwt_payload t0 subject rl ttl)))"
  let ?s = "base64url_encode (b64_encode L) (sign_message L (private_key m) (str_bytes (?h @ ''.'' @ ?p)))"
  have gen: "jwt_generate L m t0 subject rl ttl = ?h @ ''.'' @ ?p @ ''.'' @ ?s"
    by (simp add: jwt_generate_def Let_def)
  have dots: "CHR ''.'' \<notin> set ?h" "CHR ''.'' \<notin> set ?p"
    using base64url_no_dot [OF assms(1)] by (simp_all add: base64url_encode_str_def)
  show ?thesis
    using assms(2,3) unfolding gen jwt_verify_split [OF dots]
    by (simp add: jwt_verify_parts_def base64url_encode_str_def base64url_decode_encode [OF assms(1)]
        jwt_header_json_def obj_at_def JWT_ALGO_def Let_def)
qed

end
