(* ===== verification/Db_Schema.thy ===== *)
theory Db_Schema
  imports Json
begin

text \<open>
  The database of \<open>database/sql/db.sql\<close>: the tables with their constraints, the triggers that turn
  row changes into notifications, and the SQL statements that \<open>libs/db/DatabaseManager.cpp\<close> sends.
  A table is an association list from its primary key to the rest of the row. A statement either
  fails with a \<open>Sql_error\<close> and changes nothing, or yields the new database; the notifications of a
  statement are appended to \<open>notifications\<close> as channel and payload, in commit order.

  Parameters: \<open>inet\<close> is PostgreSQL's reading of an \<open>INET\<close> literal into its canonical text, \<^term>\<open>None\<close>
  if it is not one; \<open>clock\<close> is the text of \<open>now()\<close>.
\<close>

section \<open>Tables\<close>

record cert_row =
  fingerprint :: string
  common_name :: "string option"
  is_revoked :: "bool option"
  pem_data :: string

record config_row =
  hostname :: string
  ip_address :: string
  is_active :: "bool option"
  cert_id :: int
  request_id :: "int option"

record pending_row =
  p_sensor_id :: int
  requested_hostname :: "string option"
  requested_ip :: string
  requested_is_active :: "bool option"
  p_status :: string
  requested_at :: string

record state_row =
  current_temp :: "rat option"
  last_update :: string

record sequence =
  last_value :: int
  is_called :: bool

record database =
  sensor_certs :: "(int \<times> cert_row) list"
  sensor_config :: "(int \<times> config_row) list"
  sensor_config_pending :: "(int \<times> pending_row) list"
  sensor_state :: "(int \<times> state_row) list"
  request_id_seq :: "sequence option"
  notifications :: "(string \<times> json) list"
  clock :: string

type_synonym inet_input = "string \<Rightarrow> string option"

section \<open>Triggers\<close>

text \<open>
  \<open>json_build_object\<close> keeps the order of its arguments; \<open>jsonb_build_object\<close> stores keys by length
  and then bytewise, which is the order written in \<open>notify_config_change\<close> here.
\<close>

definition json_opt :: "('a \<Rightarrow> json) \<Rightarrow> 'a option \<Rightarrow> json" where
  "json_opt f x = (case x of None \<Rightarrow> JNull | Some a \<Rightarrow> f a)"

text \<open>The cast \<open>inet::text\<close> always shows the mask length, the plain output only one below the full width.\<close>

definition inet_text :: "string \<Rightarrow> string" where
  "inet_text a = (if CHR ''/'' \<in> set a then a
     else a @ (if CHR '':'' \<in> set a then ''/128'' else ''/32''))"

definition notify_config_change :: "string \<Rightarrow> int \<Rightarrow> config_row \<Rightarrow> string \<times> json" where
  "notify_config_change tg_op sid row =
     (''config_events'',
      if tg_op = ''DELETE''
      then JObject [(''action'', JString ''DELETE''), (''hostname'', JString (hostname row)),
             (''sensor_id'', JInt64 sid), (''request_id'', json_opt JInt64 (request_id row))]
      else JObject [(''action'', JString tg_op), (''new_ip'', JString (inet_text (ip_address row))),
             (''hostname'', JString (hostname row)), (''sensor_id'', JInt64 sid),
             (''request_id'', json_opt JInt64 (request_id row))])"

definition notify_state_change :: "int \<Rightarrow> state_row \<Rightarrow> string \<times> json" where
  "notify_state_change sid row =
     (''state_events'',
      JObject [(''sensor_id'', JInt64 sid), (''temp'', json_opt JDouble (current_temp row)),
        (''ts'', JString (last_update row))])"

definition notify_config_request :: "string \<Rightarrow> int \<Rightarrow> pending_row \<Rightarrow> string \<times> json" where
  "notify_config_request tg_op rid row =
     (''config_requested'',
      JObject [(''request_id'', JInt64 rid), (''sensor_id'', JInt64 (p_sensor_id row)),
        (''hostname'', json_opt JString (requested_hostname row)),
        (''ip_address'', JString (requested_ip row)),
        (''is_active'', json_opt JBool (requested_is_active row)),
        (''action'', JString tg_op)])"

definition pg_notify :: "string \<times> json \<Rightarrow> database \<Rightarrow> database" where
  "pg_notify n db = db\<lparr>notifications := notifications db @ [n]\<rparr>"

section \<open>Statements\<close>

definition sql_bigint :: "u64 \<Rightarrow> exn + int" where
  "sql_bigint w = (if int (unat w) \<le> int64_max then Inr (int (unat w))
                   else Inl (Sql_error ''value out of range for type bigint''))"

definition sql_inet :: "inet_input \<Rightarrow> string \<Rightarrow> exn + string" where
  "sql_inet inet s = (case inet s of Some t \<Rightarrow> Inr t
                      | None \<Rightarrow> Inl (Sql_error ''invalid input syntax for type inet''))"

text \<open>A value is a string of bytes, counted as characters: exact for ASCII, and for other encodings
  stricter than PostgreSQL, which counts characters.\<close>

definition sql_varchar100 :: "string \<Rightarrow> exn + string" where
  "sql_varchar100 s = (if length s \<le> 100 then Inr s
                       else Inl (Sql_error ''value too long for type character varying(100)''))"

text \<open>\<open>NUMERIC(5, 2)\<close>: rounded half away from zero to two places, three digits before the point.\<close>

definition sql_numeric_5_2 :: "rat \<Rightarrow> exn + rat" where
  "sql_numeric_5_2 x =
     (let r = sgn x * of_int \<lfloor>\<bar>x\<bar> * 100 + 1 / 2\<rfloor> / 100
      in if \<bar>r\<bar> < 1000 then Inr r else Inl (Sql_error ''numeric field overflow''))"

text \<open>\<open>add_pending_config\<close>'s \<open>INSERT\<close>, with its primary key, foreign key and trigger.\<close>

definition sql_insert_pending ::
  "inet_input \<Rightarrow> u64 \<Rightarrow> int \<Rightarrow> string \<Rightarrow> string \<Rightarrow> bool \<Rightarrow> database \<Rightarrow> exn + database" where
  "sql_insert_pending inet rid sid host ip active db =
     sbind (sql_bigint rid) (\<lambda>r.
     sbind (sql_varchar100 host) (\<lambda>h.
     sbind (sql_inet inet ip) (\<lambda>a.
       if map_of (sensor_config_pending db) r \<noteq> None
       then Inl (Sql_error ''duplicate key: sensor_config_pending_pkey'')
       else if map_of (sensor_config db) sid = None
       then Inl (Sql_error ''foreign key: sensor_config_pending.sensor_id'')
       else
         let row = \<lparr>p_sensor_id = sid, requested_hostname = Some h, requested_ip = a,
                    requested_is_active = Some active, p_status = ''PENDING'', requested_at = clock db\<rparr>
         in Inr (pg_notify (notify_config_request ''INSERT'' r row)
              (db\<lparr>sensor_config_pending := AList.update r row (sensor_config_pending db)\<rparr>)))))"

text \<open>
  \<open>upsert_sensor_config\<close>'s \<open>INSERT \<dots> ON CONFLICT (sensor_id) DO UPDATE \<dots> RETURNING cert_id\<close>. The
  proposed row takes its \<open>cert_id\<close> from the existing row, else from the certificate numbered like
  the sensor; \<open>NOT NULL\<close> is checked on the proposed row first, \<open>UNIQUE\<close> only when it is inserted.
\<close>

definition resolve_cert :: "int \<Rightarrow> database \<Rightarrow> int option" where
  "resolve_cert sid db =
     (case map_of (sensor_config db) sid of
        Some row \<Rightarrow> Some (cert_id row)
      | None \<Rightarrow> (case map_of (sensor_certs db) sid of Some _ \<Rightarrow> Some sid | None \<Rightarrow> None))"

definition sql_upsert_config ::
  "inet_input \<Rightarrow> int \<Rightarrow> string \<Rightarrow> string \<Rightarrow> bool \<Rightarrow> u64 \<Rightarrow> database \<Rightarrow> exn + (int option list \<times> database)" where
  "sql_upsert_config inet sid host ip active rid db =
     sbind (sql_varchar100 host) (\<lambda>h.
     sbind (sql_inet inet ip) (\<lambda>a.
     sbind (sql_bigint rid) (\<lambda>r.
       case resolve_cert sid db of
         None \<Rightarrow> Inl (Sql_error ''not null: sensor_config.cert_id'')
       | Some c \<Rightarrow>
           (case map_of (sensor_config db) sid of
              Some old \<Rightarrow>
                let row = old\<lparr>hostname := h, ip_address := a, is_active := Some active, request_id := Some r\<rparr>
                in Inr ([Some (cert_id row)], pg_notify (notify_config_change ''UPDATE'' sid row)
                     (db\<lparr>sensor_config := AList.update sid row (sensor_config db)\<rparr>))
            | None \<Rightarrow>
                if c \<in> cert_id ` snd ` set (sensor_config db)
                then Inl (Sql_error ''duplicate key: sensor_config_cert_id_key'')
                else
                  let row = \<lparr>hostname = h, ip_address = a, is_active = Some active, cert_id = c, request_id = Some r\<rparr>
                  in Inr ([Some c], pg_notify (notify_config_change ''INSERT'' sid row)
                       (db\<lparr>sensor_config := AList.update sid row (sensor_config db)\<rparr>))))))"

text \<open>\<open>upsert_sensor_state\<close>'s statement.\<close>

definition sql_upsert_state :: "int \<Rightarrow> rat \<Rightarrow> database \<Rightarrow> exn + database" where
  "sql_upsert_state sid temp db =
     sbind (sql_numeric_5_2 temp) (\<lambda>t.
       if map_of (sensor_config db) sid = None
       then Inl (Sql_error ''foreign key: sensor_state.sensor_id'')
       else
         let row = \<lparr>current_temp = Some t, last_update = clock db\<rparr>
         in Inr (pg_notify (notify_state_change sid row)
              (db\<lparr>sensor_state := AList.update sid row (sensor_state db)\<rparr>)))"

text \<open>Sequences: \<open>CREATE SEQUENCE IF NOT EXISTS\<close>, \<open>setval\<close> and \<open>nextval\<close>, bounds 1 and \<open>int64_max\<close>.\<close>

definition sql_create_sequence :: "database \<Rightarrow> database" where
  "sql_create_sequence db =
     (case request_id_seq db of
        None \<Rightarrow> db\<lparr>request_id_seq := Some \<lparr>last_value = 1, is_called = False\<rparr>\<rparr>
      | Some _ \<Rightarrow> db)"

definition sql_setval :: "int \<Rightarrow> database \<Rightarrow> exn + database" where
  "sql_setval n db =
     (if request_id_seq db = None then Inl (Sql_error ''relation request_id_seq does not exist'')
      else if n < 1 \<or> int64_max < n then Inl (Sql_error ''setval: value out of bounds'')
      else Inr (db\<lparr>request_id_seq := Some \<lparr>last_value = n, is_called = True\<rparr>\<rparr>))"

definition sql_nextval :: "database \<Rightarrow> exn + (int \<times> database)" where
  "sql_nextval db =
     (case request_id_seq db of
        None \<Rightarrow> Inl (Sql_error ''relation request_id_seq does not exist'')
      | Some s \<Rightarrow>
          let n = (if is_called s then last_value s + 1 else last_value s)
          in if int64_max < n then Inl (Sql_error ''nextval: reached maximum value of sequence'')
             else Inr (n, db\<lparr>request_id_seq := Some \<lparr>last_value = n, is_called = True\<rparr>\<rparr>))"

text \<open>\<open>COALESCE(GREATEST((SELECT MAX \<dots>), (SELECT MAX \<dots>)), 0)\<close>; nulls are ignored throughout.\<close>

definition stored_request_ids :: "database \<Rightarrow> int list" where
  "stored_request_ids db =
     map fst (sensor_config_pending db)
     @ List.map_filter (\<lambda>(_, row). request_id row) (sensor_config db)"

definition max_request_id :: "database \<Rightarrow> int" where
  "max_request_id db =
     (case stored_request_ids db of [] \<Rightarrow> 0 | r # rs \<Rightarrow> fold max rs r)"

section \<open>The schema invariant\<close>

definition status_ok :: "string \<Rightarrow> bool" where
  "status_ok s \<longleftrightarrow> s \<in> {''PENDING'', ''SUCCESS'', ''ERROR'', ''TIMEOUT''}"

definition certs_unique :: "(int \<times> config_row) list \<Rightarrow> bool" where
  "certs_unique cfg \<longleftrightarrow>
     (\<forall>s1 s2 r1 r2. map_of cfg s1 = Some r1 \<longrightarrow> map_of cfg s2 = Some r2
        \<longrightarrow> cert_id r1 = cert_id r2 \<longrightarrow> s1 = s2)"

definition schema_ok :: "database \<Rightarrow> bool" where
  "schema_ok db \<longleftrightarrow>
     wf_alist (sensor_certs db) \<and> wf_alist (sensor_config db)
     \<and> wf_alist (sensor_config_pending db) \<and> wf_alist (sensor_state db)
     \<and> certs_unique (sensor_config db)
     \<and> (\<forall>s r. map_of (sensor_config db) s = Some r \<longrightarrow>
          map_of (sensor_certs db) (cert_id r) \<noteq> None \<and> length (hostname r) \<le> 100)
     \<and> (\<forall>i r. map_of (sensor_config_pending db) i = Some r \<longrightarrow>
          map_of (sensor_config db) (p_sensor_id r) \<noteq> None \<and> status_ok (p_status r))
     \<and> (\<forall>s r. map_of (sensor_state db) s = Some r \<longrightarrow> map_of (sensor_config db) s \<noteq> None)"

lemma pg_notify_tables [simp]:
  "sensor_certs (pg_notify n db) = sensor_certs db"
  "sensor_config (pg_notify n db) = sensor_config db"
  "sensor_config_pending (pg_notify n db) = sensor_config_pending db"
  "sensor_state (pg_notify n db) = sensor_state db"
  "request_id_seq (pg_notify n db) = request_id_seq db"
  "notifications (pg_notify n db) = notifications db @ [n]"
  "clock (pg_notify n db) = clock db"
  by (simp_all add: pg_notify_def)

lemma schema_ok_notify [simp]: "schema_ok (pg_notify n db) = schema_ok db"
  by (simp add: schema_ok_def)

lemma in_cert_ids: "wf_alist cfg \<Longrightarrow> map_of cfg s = Some r \<Longrightarrow> cert_id r \<in> cert_id ` snd ` set cfg"
  by (force dest: map_of_SomeD)

lemma status_ok_pending [simp]: "status_ok ''PENDING''"
  by (simp add: status_ok_def)

lemma sql_insert_pending_ok:
  assumes "schema_ok db" and "sql_insert_pending inet rid sid host ip active db = Inr db'"
  shows "schema_ok db'"
  using assms
  by (auto simp: sql_insert_pending_def schema_ok_def Let_def split: if_splits)

lemma sql_upsert_state_ok:
  assumes "schema_ok db" and "sql_upsert_state sid temp db = Inr db'"
  shows "schema_ok db'"
  using assms by (auto simp: sql_upsert_state_def schema_ok_def Let_def split: if_splits)

lemma resolve_cert_Some:
  assumes "schema_ok db" and "resolve_cert sid db = Some c"
  shows "map_of (sensor_certs db) c \<noteq> None"
  using assms by (auto simp: resolve_cert_def schema_ok_def split: option.splits)

lemma certs_unique_update:
  assumes "wf_alist cfg" and "certs_unique cfg" and "map_of cfg s = Some old" and "cert_id row = cert_id old"
  shows "certs_unique (AList.update s row cfg)"
  using assms unfolding certs_unique_def by (metis alist_map_of_update fun_upd_apply option.inject)

lemma certs_unique_insert:
  assumes "wf_alist cfg" and "certs_unique cfg" and "cert_id row \<notin> cert_id ` snd ` set cfg"
  shows "certs_unique (AList.update s row cfg)"
proof -
  have "cert_id r \<noteq> cert_id row" if "map_of cfg s' = Some r" for s' r
    using in_cert_ids [OF assms(1) that] assms(3) by metis
  with assms(2) show ?thesis
    unfolding certs_unique_def by (metis alist_map_of_update fun_upd_apply option.inject)
qed

text \<open>The two ways the upsert can succeed.\<close>

lemma sql_upsert_config_cases:
  assumes "sql_upsert_config inet sid host ip active rid db = Inr (res, db')"
  obtains (update) old a where "map_of (sensor_config db) sid = Some old" and "inet ip = Some a"
      and "res = [Some (cert_id old)]" and "length host \<le> 100" and "int (unat rid) \<le> int64_max"
      and "db' = pg_notify (notify_config_change ''UPDATE'' sid (old\<lparr>hostname := host, ip_address := a,
          is_active := Some active, request_id := Some (int (unat rid))\<rparr>))
        (db\<lparr>sensor_config := AList.update sid (old\<lparr>hostname := host, ip_address := a,
          is_active := Some active, request_id := Some (int (unat rid))\<rparr>) (sensor_config db)\<rparr>)"
  | (insert) a where "map_of (sensor_config db) sid = None" and "map_of (sensor_certs db) sid \<noteq> None"
      and "inet ip = Some a" and "sid \<notin> cert_id ` snd ` set (sensor_config db)"
      and "res = [Some sid]" and "length host \<le> 100" and "int (unat rid) \<le> int64_max"
      and "db' = pg_notify (notify_config_change ''INSERT'' sid \<lparr>hostname = host, ip_address = a,
          is_active = Some active, cert_id = sid, request_id = Some (int (unat rid))\<rparr>)
        (db\<lparr>sensor_config := AList.update sid \<lparr>hostname = host, ip_address = a,
          is_active = Some active, cert_id = sid, request_id = Some (int (unat rid))\<rparr> (sensor_config db)\<rparr>)"
proof (cases "map_of (sensor_config db) sid")
  case (Some old)
  with assms update [of old] show thesis
    by (auto simp: sql_upsert_config_def sql_varchar100_def sql_inet_def sql_bigint_def
        resolve_cert_def Let_def split: if_splits option.splits)
next
  case None
  with assms insert show thesis
    by (auto simp: sql_upsert_config_def sql_varchar100_def sql_inet_def sql_bigint_def
        resolve_cert_def Let_def split: if_splits option.splits)
qed

lemma sql_upsert_config_ok:
  assumes ok: "schema_ok db" and up: "sql_upsert_config inet sid host ip active rid db = Inr (res, db')"
  shows "schema_ok db'"
  using up
proof (cases rule: sql_upsert_config_cases)
  case (update old a)
  let ?row = "old\<lparr>hostname := host, ip_address := a, is_active := Some active,
    request_id := Some (int (unat rid))\<rparr>"
  have "certs_unique (AList.update sid ?row (sensor_config db))"
    using ok update(1) by (intro certs_unique_update) (auto simp: schema_ok_def)
  then show ?thesis using ok update by (auto simp: schema_ok_def)
next
  case (insert a)
  let ?row = "\<lparr>hostname = host, ip_address = a, is_active = Some active, cert_id = sid,
    request_id = Some (int (unat rid))\<rparr>"
  have "certs_unique (AList.update sid ?row (sensor_config db))"
    using ok insert(4) by (intro certs_unique_insert) (auto simp: schema_ok_def)
  then show ?thesis using ok insert by (auto simp: schema_ok_def)
qed

lemma sql_create_sequence_ok [simp]: "schema_ok (sql_create_sequence db) = schema_ok db"
  by (simp add: sql_create_sequence_def schema_ok_def split: option.splits)

lemma sql_setval_ok: "sql_setval n db = Inr db' \<Longrightarrow> schema_ok db' = schema_ok db"
  by (auto simp: sql_setval_def schema_ok_def split: if_splits)

lemma sql_nextval_ok: "sql_nextval db = Inr (n, db') \<Longrightarrow> schema_ok db' = schema_ok db"
  by (auto simp: sql_nextval_def schema_ok_def Let_def split: if_splits option.splits)

end
