(* ===== verification/Database_Manager.thy ===== *)
theory Database_Manager
  imports Db_Schema
begin

text \<open>
  \<open>libs/db/DatabaseManager.cpp\<close>: the two connections and their life cycle, the data-changing calls
  with the exceptions each one lets through or swallows, the request-id sequence, and the
  registration and delivery of notifications. Every call runs under \<open>conn_mutex_\<close>, so a call is one
  atomic step on the manager and the database. The manager is polymorphic in the type of its
  callbacks.

  \<open>link_up\<close> is whether the server can still be reached through an open connection object; using one
  that cannot be reached throws \<open>broken_connection\<close> and leaves the object closed.
\<close>

section \<open>Connections\<close>

datatype connection = Null_conn | Closed_conn | Open_conn

record 'h db_manager =
  connection_queries :: connection
  connection_listener :: connection
  link_up :: bool
  callbacks :: "(string \<times> 'h) list"
  listener_thread :: bool

definition new_db_manager :: "'h db_manager" where
  "new_db_manager = \<lparr>connection_queries = Null_conn, connection_listener = Null_conn,
     link_up = False, callbacks = [], listener_thread = False\<rparr>"

text \<open>
  \<open>connect\<close>: \<open>ok1\<close> and \<open>ok2\<close> say whether the server accepts the first and the second connection; a
  refusal throws, and what was assigned before it stays assigned.
\<close>

definition db_connect :: "bool \<Rightarrow> bool \<Rightarrow> 'h db_manager \<Rightarrow> (exn + unit) \<times> 'h db_manager" where
  "db_connect ok1 ok2 m =
     (if \<not> ok1 then (Inl (Broken_connection ''connect''), m)
      else let m = m\<lparr>connection_listener := Open_conn\<rparr>
           in if \<not> ok2 then (Inl (Broken_connection ''connect''), m)
              else (Inr (), m\<lparr>connection_queries := Open_conn, link_up := True\<rparr>))"

definition close_conn :: "connection \<Rightarrow> connection" where
  "close_conn c = (if c = Open_conn then Closed_conn else c)"

definition db_disconnect :: "'h db_manager \<Rightarrow> 'h db_manager" where
  "db_disconnect m = m\<lparr>connection_listener := close_conn (connection_listener m),
     connection_queries := close_conn (connection_queries m)\<rparr>"

text \<open>The destructor: disconnect, join the listener, release both connections.\<close>

definition db_destroy :: "'h db_manager \<Rightarrow> 'h db_manager" where
  "db_destroy m = (db_disconnect m)\<lparr>listener_thread := False,
     connection_listener := Null_conn, connection_queries := Null_conn\<rparr>"

definition queries_available :: "'h db_manager \<Rightarrow> bool" where
  "queries_available m \<longleftrightarrow> connection_queries m = Open_conn"

text \<open>
  \<open>pqxx::work txn(*connection_queries_); txn.exec(\<dots>); txn.commit();\<close> around one statement, or a
  sequence of them: all of it or nothing. Two things that PostgreSQL allows are left out. A sequence is not
  transactional, so a \<open>nextval\<close> whose transaction then fails has used up its number; here it has not. And a
  connection lost during the commit leaves it in doubt (\<open>in_doubt_error\<close>): here that commit did not happen. The
  caller sees an exception either way.
\<close>

definition run_txn :: "(database \<Rightarrow> exn + ('a \<times> database)) \<Rightarrow> 'h db_manager \<Rightarrow> database
    \<Rightarrow> (exn + 'a) \<times> 'h db_manager \<times> database" where
  "run_txn stmt m db =
     (if connection_queries m = Null_conn then (Inl Undefined_behaviour, m, db)
      else if connection_queries m = Closed_conn \<or> \<not> link_up m
      then (Inl (Broken_connection ''connection lost''), m\<lparr>connection_queries := Closed_conn\<rparr>, db)
      else (case stmt db of
              Inl e \<Rightarrow> (Inl e, m, db)
            | Inr (a, db') \<Rightarrow> (Inr a, m, db')))"

section \<open>The calls\<close>

text \<open>
  Which exceptions a \<open>catch\<close> chain swallows: \<open>swallow p d\<close> turns an exception that satisfies \<open>p\<close>
  into the normal return of \<open>d\<close>.
\<close>

definition swallow :: "(exn \<Rightarrow> bool) \<Rightarrow> 'a \<Rightarrow> (exn + 'a) \<times> 's \<Rightarrow> (exn + 'a) \<times> 's" where
  "swallow p d r = (case r of (Inl e, s) \<Rightarrow> (if p e then Inr d else Inl e, s) | (Inr a, s) \<Rightarrow> (Inr a, s))"

fun is_broken :: "exn \<Rightarrow> bool" where
  "is_broken (Broken_connection _) = True"
| "is_broken _ = False"

fun is_sql :: "exn \<Rightarrow> bool" where
  "is_sql (Sql_error _) = True"
| "is_sql _ = False"

definition unit_stmt :: "(database \<Rightarrow> exn + database) \<Rightarrow> database \<Rightarrow> exn + (unit \<times> database)" where
  "unit_stmt f db = sbind (f db) (\<lambda>db'. Inr ((), db'))"

definition upsert_sensor_state ::
  "int \<Rightarrow> rat \<Rightarrow> 'h db_manager \<Rightarrow> database \<Rightarrow> (exn + unit) \<times> 'h db_manager \<times> database" where
  "upsert_sensor_state sid temp m db =
     (if \<not> queries_available m
      then (Inl (Runtime_error ''DML Connection not available for telemetry.''), m, db)
      else swallow (\<lambda>e. is_std_exception e \<and> \<not> is_sql e) ()
             (run_txn (unit_stmt (sql_upsert_state sid temp)) m db))"

text \<open>
  \<open>upsert_sensor_config\<close> does not check its connection. The check of the returned \<open>cert_id\<close> is
  inside the transaction, so its \<open>runtime_error\<close> rolls the row back, and is then swallowed.
\<close>

definition upsert_config_stmt ::
  "inet_input \<Rightarrow> int \<Rightarrow> string \<Rightarrow> string \<Rightarrow> bool \<Rightarrow> u64 \<Rightarrow> database \<Rightarrow> exn + (unit \<times> database)" where
  "upsert_config_stmt inet sid host ip active rid db =
     sbind (sql_upsert_config inet sid host ip active rid db) (\<lambda>(res, db').
       case res of
         Some c # _ \<Rightarrow> Inr ((), db')
       | _ \<Rightarrow> Inl (Runtime_error (''No certificate associated with sensor '' @ int_to_string sid
                @ ''. Create/associate sensor_certs first.'')))"

definition upsert_sensor_config ::
  "inet_input \<Rightarrow> int \<Rightarrow> string \<Rightarrow> string \<Rightarrow> bool \<Rightarrow> u64 \<Rightarrow> 'h db_manager \<Rightarrow> database
    \<Rightarrow> (exn + unit) \<times> 'h db_manager \<times> database" where
  "upsert_sensor_config inet sid host ip active rid m db =
     swallow (\<lambda>e. is_std_exception e \<and> \<not> is_sql e) ()
       (run_txn (upsert_config_stmt inet sid host ip active rid) m db)"

definition add_pending_config ::
  "inet_input \<Rightarrow> int \<Rightarrow> string \<Rightarrow> string \<Rightarrow> bool \<Rightarrow> u64 \<Rightarrow> 'h db_manager \<Rightarrow> database
    \<Rightarrow> (exn + unit) \<times> 'h db_manager \<times> database" where
  "add_pending_config inet sid host ip active rid m db =
     (if \<not> queries_available m then (Inl (Runtime_error ''Database connection lost.''), m, db)
      else swallow is_broken ()
             (run_txn (unit_stmt (sql_insert_pending inet rid sid host ip active)) m db))"

definition init_request_id_sequence ::
  "'h db_manager \<Rightarrow> database \<Rightarrow> (exn + unit) \<times> 'h db_manager \<times> database" where
  "init_request_id_sequence m db =
     (if \<not> queries_available m then (Inl (Runtime_error ''Database connection lost.''), m, db)
      else run_txn (unit_stmt (\<lambda>db. let db = sql_create_sequence db in sql_setval (max_request_id db) db)) m db)"

definition generate_request_id ::
  "'h db_manager \<Rightarrow> database \<Rightarrow> (exn + u64) \<times> 'h db_manager \<times> database" where
  "generate_request_id m db =
     (if \<not> queries_available m then (Inl (Runtime_error ''Database connection lost.''), m, db)
      else (case run_txn sql_nextval m db of
              (Inl e, s) \<Rightarrow> (Inl e, s)
            | (Inr n, s) \<Rightarrow> (Inr (to_u64 n), s)))"

text \<open>\<open>get_sanity_info\<close>: what the two queries and the library report are parameters.\<close>

definition get_sanity_info ::
  "string \<Rightarrow> string \<Rightarrow> int \<Rightarrow> string \<Rightarrow> 'h db_manager \<Rightarrow> (exn + json_object) \<times> 'h db_manager" where
  "get_sanity_info pg_version uptime pid pqxx_version m =
     (if \<not> queries_available m
      then (Inr [(''error'', JString ''Database connection not available'')], m)
      else if \<not> link_up m
      then (Inl (Broken_connection ''connection lost''), m\<lparr>connection_queries := Closed_conn\<rparr>)
      else (Inr (obj_set ''pqxx_version'' (JString pqxx_version)
                  (obj_set ''backend_pid'' (JInt64 pid)
                    (obj_set ''db_uptime'' (JString uptime)
                      (obj_set ''postgres_version'' (JString pg_version) [])))), m))"

section \<open>Notifications\<close>

text \<open>
  \<open>register_listen_async\<close> catches everything it throws itself: it returns normally whether or not
  the channel was registered.
\<close>

definition register_listen_async :: "string \<Rightarrow> 'h \<Rightarrow> 'h db_manager \<Rightarrow> 'h db_manager" where
  "register_listen_async channel callback m =
     (if connection_listener m \<noteq> Open_conn then m
      else if \<not> link_up m then m\<lparr>connection_listener := Closed_conn\<rparr>
      else m\<lparr>callbacks := AList.update channel callback (callbacks m)\<rparr>)"

definition run_listener_loop :: "'h db_manager \<Rightarrow> 'h db_manager" where
  "run_listener_loop m = (if listener_thread m then m else m\<lparr>listener_thread := True\<rparr>)"

definition parser_notify :: "json_parse \<Rightarrow> string \<Rightarrow> string \<Rightarrow> json_object" where
  "parser_notify prs channel payload =
     (let msg = obj_set ''channel'' (JString (c_str_copy channel)) []
      in case prs (c_str_copy payload) of
           Inr v \<Rightarrow> obj_set ''payload'' v msg
         | Inl _ \<Rightarrow> obj_set ''payload'' (JString (c_str_copy payload)) msg)"

text \<open>What the listener thread calls for one notification: the callback and its argument.\<close>

definition on_notification :: "json_parse \<Rightarrow> 'h db_manager \<Rightarrow> string \<times> string \<Rightarrow> ('h \<times> json_object) option" where
  "on_notification prs m n =
     (case map_of (callbacks m) (fst n) of
        Some handler \<Rightarrow> Some (handler, parser_notify prs (fst n) (snd n))
      | None \<Rightarrow> None)"

section \<open>Lemmas\<close>

lemma run_txn_open:
  "connection_queries m = Open_conn \<Longrightarrow> link_up m \<Longrightarrow>
    run_txn stmt m db = (case stmt db of Inl e \<Rightarrow> (Inl e, m, db) | Inr (a, db') \<Rightarrow> (Inr a, m, db'))"
  by (simp add: run_txn_def)

lemma run_txn_error: "run_txn stmt m db = (Inl e, m', db') \<Longrightarrow> db' = db"
  by (auto simp: run_txn_def split: if_splits sum.splits)

lemma run_txn_success:
  "run_txn stmt m db = (Inr a, m', db') \<Longrightarrow> stmt db = Inr (a, db') \<and> m' = m"
  by (auto simp: run_txn_def split: if_splits sum.splits)

lemma swallow_Inl: "swallow p d r = (Inl e, s) \<Longrightarrow> r = (Inl e, s)"
  by (auto simp: swallow_def split: prod.splits sum.splits if_splits)

lemma swallow_Inr: "swallow p d r = (Inr a, s) \<Longrightarrow> r = (Inr a, s) \<or> (\<exists>e. r = (Inl e, s) \<and> p e)"
  by (auto simp: swallow_def split: prod.splits sum.splits if_splits)

lemma unit_stmt_Inr [simp]: "unit_stmt f db = Inr (u, db') \<longleftrightarrow> f db = Inr db'"
  by (auto simp: unit_stmt_def)

text \<open>The calls as data, so that statements can range over all of them.\<close>

datatype db_call =
    Upsert_state int rat
  | Upsert_config int string string bool u64
  | Add_pending int string string bool u64
  | Init_sequence
  | Generate_id

fun db_call_run :: "inet_input \<Rightarrow> db_call \<Rightarrow> 'h db_manager \<Rightarrow> database
    \<Rightarrow> (exn + u64 option) \<times> 'h db_manager \<times> database" where
  "db_call_run inet (Upsert_state sid t) m db =
     (case upsert_sensor_state sid t m db of (r, s) \<Rightarrow> (sbind r (\<lambda>_. Inr None), s))"
| "db_call_run inet (Upsert_config sid h ip a rid) m db =
     (case upsert_sensor_config inet sid h ip a rid m db of (r, s) \<Rightarrow> (sbind r (\<lambda>_. Inr None), s))"
| "db_call_run inet (Add_pending sid h ip a rid) m db =
     (case add_pending_config inet sid h ip a rid m db of (r, s) \<Rightarrow> (sbind r (\<lambda>_. Inr None), s))"
| "db_call_run inet Init_sequence m db =
     (case init_request_id_sequence m db of (r, s) \<Rightarrow> (sbind r (\<lambda>_. Inr None), s))"
| "db_call_run inet Generate_id m db =
     (case generate_request_id m db of (r, s) \<Rightarrow> (sbind r (\<lambda>i. Inr (Some i)), s))"

text \<open>A transaction that left its mark on the database returned normally and committed.\<close>

lemma run_txn_effect:
  "run_txn stmt m db = (r, m', db') \<Longrightarrow> db' = db \<or> (\<exists>a. r = Inr a \<and> stmt db = Inr (a, db'))"
  by (auto simp: run_txn_def split: if_splits sum.splits)

lemma swallow_txn_effect:
  "swallow p d (run_txn stmt m db) = (r, m', db') \<Longrightarrow> db' = db \<or> (\<exists>a. r = Inr a \<and> stmt db = Inr (a, db'))"
  by (auto simp: swallow_def split: prod.splits sum.splits if_splits dest!: run_txn_effect)

lemma sql_upsert_config_returning:
  "sql_upsert_config inet sid host ip active rid db = Inr (res, db') \<Longrightarrow> \<exists>c. res = [Some c]"
  by (erule sql_upsert_config_cases) auto

lemma upsert_config_stmt_Inr:
  "upsert_config_stmt inet sid host ip active rid db = Inr (u, db') \<longleftrightarrow>
     (\<exists>res. sql_upsert_config inet sid host ip active rid db = Inr (res, db'))"
proof (cases "sql_upsert_config inet sid host ip active rid db")
  case (Inl e)
  then show ?thesis by (simp add: upsert_config_stmt_def)
next
  case (Inr p)
  then obtain c d where "p = ([Some c], d)"
    using sql_upsert_config_returning by (cases p) blast
  with Inr show ?thesis by (simp add: upsert_config_stmt_def)
qed

lemma db_call_effect:
  assumes "db_call_run inet c m db = (r, m', db')"
  shows "db' = db \<or> ((\<exists>a. r = Inr a) \<and>
    (case c of
       Upsert_state sid t \<Rightarrow> sql_upsert_state sid t db = Inr db'
     | Upsert_config sid h ip a rid \<Rightarrow> (\<exists>res. sql_upsert_config inet sid h ip a rid db = Inr (res, db'))
     | Add_pending sid h ip a rid \<Rightarrow> sql_insert_pending inet rid sid h ip a db = Inr db'
     | Init_sequence \<Rightarrow> sql_setval (max_request_id (sql_create_sequence db)) (sql_create_sequence db) = Inr db'
     | Generate_id \<Rightarrow> (\<exists>n. sql_nextval db = Inr (n, db'))))"
proof (cases c)
  case (Upsert_state sid t)
  with assms show ?thesis
    by (auto simp: upsert_sensor_state_def split: if_splits prod.splits dest!: swallow_txn_effect)
next
  case (Upsert_config sid h ip a rid)
  with assms show ?thesis
    by (auto simp: upsert_sensor_config_def upsert_config_stmt_Inr split: prod.splits
        dest!: swallow_txn_effect)
next
  case (Add_pending sid h ip a rid)
  with assms show ?thesis
    by (auto simp: add_pending_config_def split: if_splits prod.splits dest!: swallow_txn_effect)
next
  case Init_sequence
  with assms show ?thesis
    by (auto simp: init_request_id_sequence_def Let_def split: if_splits prod.splits dest!: run_txn_effect)
next
  case Generate_id
  with assms show ?thesis
    by (auto simp: generate_request_id_def split: if_splits prod.splits sum.splits dest!: run_txn_effect)
qed

text \<open>C7: every call of the manager keeps the schema's integrity (keys, foreign keys, one certificate
  per sensor, status values), and a call that throws leaves the database exactly as it was.
\<close>

theorem db_calls_safe:
  assumes "schema_ok db" and "db_call_run inet c m db = (r, m', db')"
  shows "schema_ok db' \<and> (\<forall>e. r = Inl e \<longrightarrow> db' = db)"
proof -
  have "schema_ok db'"
    using db_call_effect [OF assms(2)] assms(1)
    by (cases c) (auto dest: sql_upsert_state_ok sql_upsert_config_ok sql_insert_pending_ok
        sql_setval_ok sql_nextval_ok)
  moreover have "db' = db" if "r = Inl e" for e
    using db_call_effect [OF assms(2)] that by auto
  ultimately show ?thesis by blast
qed

text \<open>A small database, with three certified sensors of which the first two are configured.\<close>

definition sample_cert :: cert_row where
  "sample_cert = \<lparr>fingerprint = ''f'', common_name = None, is_revoked = Some False, pem_data = ''p''\<rparr>"

definition sample_config :: "string \<Rightarrow> int \<Rightarrow> config_row" where
  "sample_config ip c = \<lparr>hostname = ''node'', ip_address = ip, is_active = Some True, cert_id = c,
     request_id = None\<rparr>"

definition sample_db :: database where
  "sample_db = \<lparr>sensor_certs = [(1, sample_cert), (2, sample_cert), (3, sample_cert)],
     sensor_config = [(1, sample_config ''10.0.0.1'' 1), (2, sample_config ''10.0.0.2'' 2)],
     sensor_config_pending = [(41, \<lparr>p_sensor_id = 1, requested_hostname = None, requested_ip = ''10.0.0.9'',
        requested_is_active = None, p_status = ''SUCCESS'', requested_at = ''t''\<rparr>)],
     sensor_state = [], request_id_seq = Some \<lparr>last_value = 41, is_called = True\<rparr>,
     notifications = [], clock = ''t''\<rparr>"

definition sample_mgr :: "'h db_manager" where
  "sample_mgr = \<lparr>connection_queries = Open_conn, connection_listener = Open_conn,
     link_up = True, callbacks = [], listener_thread = True\<rparr>"

lemma sample_db_ok: "schema_ok sample_db"
  by (simp add: schema_ok_def sample_db_def sample_config_def certs_unique_def status_ok_def)

theorem db_calls_safe_witness:
  "schema_ok (snd (snd (db_call_run Some (Upsert_config 3 ''n3'' ''10.0.0.3'' True 42)
     (sample_mgr :: unit db_manager) sample_db)))"
proof -
  obtain r m' db' where run: "db_call_run Some (Upsert_config 3 ''n3'' ''10.0.0.3'' True 42)
     (sample_mgr :: unit db_manager) sample_db = (r, m', db')" by (metis prod_cases3)
  from db_calls_safe [OF sample_db_ok run] run show ?thesis by simp
qed

section \<open>Request ids\<close>

text \<open>
  A source of request ids as its users see it: some calls issue an id, the others do not, and an
  issued id lies above everything issued before. It holds for the calls that are \<open>quiet\<close> and while
  \<open>ok\<close> holds.
\<close>

fun issued_ids :: "('c \<Rightarrow> 's \<Rightarrow> u64 option \<times> 's) \<Rightarrow> 'c list \<Rightarrow> 's \<Rightarrow> u64 list" where
  "issued_ids step [] s = []"
| "issued_ids step (c # cs) s =
     (case step c s of
        (Some i, s') \<Rightarrow> i # issued_ids step cs s'
      | (None, s') \<Rightarrow> issued_ids step cs s')"

locale id_source =
  fixes step :: "'c \<Rightarrow> 's \<Rightarrow> u64 option \<times> 's"
    and ok :: "'s \<Rightarrow> bool"
    and high :: "'s \<Rightarrow> int"
    and quiet :: "'c \<Rightarrow> bool"
  assumes issue: "ok s \<Longrightarrow> quiet c \<Longrightarrow> step c s = (Some i, s')
      \<Longrightarrow> ok s' \<and> high s < uint i \<and> high s' = uint i"
    and no_issue: "ok s \<Longrightarrow> quiet c \<Longrightarrow> step c s = (None, s') \<Longrightarrow> ok s' \<and> high s' = high s"
begin

lemma issued_above:
  "ok s \<Longrightarrow> list_all quiet cs \<Longrightarrow>
    sorted_wrt (<) (issued_ids step cs s) \<and> (\<forall>i \<in> set (issued_ids step cs s). high s < uint i)"
proof (induction cs arbitrary: s)
  case Nil
  then show ?case by simp
next
  case (Cons c cs)
  obtain x s' where st: "step c s = (x, s')" by (cases "step c s")
  show ?case
  proof (cases x)
    case None
    with Cons.prems st no_issue [of s c s'] have "ok s'" "high s' = high s" by auto
    with Cons.IH [of s'] Cons.prems None st show ?thesis by simp
  next
    case (Some i)
    with Cons.prems st issue [of s c i s'] have "ok s'" "high s < uint i" "high s' = uint i"
      by auto
    with Cons.IH [of s'] Cons.prems have
      "sorted_wrt (<) (issued_ids step cs s')" "\<forall>j \<in> set (issued_ids step cs s'). uint i < uint j"
      by simp_all
    moreover from this(2) have "\<forall>j \<in> set (issued_ids step cs s'). i < j"
      by (simp add: word_less_def)
    ultimately show ?thesis
      using Some st \<open>high s < uint i\<close> by (auto intro: less_trans)
  qed
qed

lemma issued_distinct: "ok s \<Longrightarrow> list_all quiet cs \<Longrightarrow> distinct (issued_ids step cs s)"
  using issued_above [of s cs] by (simp add: strict_sorted_iff)

end

definition seq_high :: "sequence \<Rightarrow> int" where
  "seq_high s = (if is_called s then last_value s else last_value s - 1)"

definition seq_ok :: "database \<Rightarrow> bool" where
  "seq_ok db \<longleftrightarrow> (\<exists>s. request_id_seq db = Some s \<and> 1 \<le> last_value s \<and> last_value s \<le> int64_max)"

definition db_high :: "'h db_manager \<times> database \<Rightarrow> int" where
  "db_high st = (case request_id_seq (snd st) of None \<Rightarrow> 0 | Some s \<Rightarrow> seq_high s)"

definition id_step :: "inet_input \<Rightarrow> db_call \<Rightarrow> 'h db_manager \<times> database \<Rightarrow> u64 option \<times> 'h db_manager \<times> database" where
  "id_step inet c st =
     (case db_call_run inet c (fst st) (snd st) of
        (Inr x, st') \<Rightarrow> (x, st')
      | (Inl e, st') \<Rightarrow> (None, st'))"

lemma uint_to_u64: "0 \<le> n \<Longrightarrow> n \<le> int64_max \<Longrightarrow> uint (to_u64 n) = n"
  by (simp add: to_u64_def unsigned_of_int take_bit_int_eq_self)

lemma sql_nextval_high:
  assumes "seq_ok db" and "sql_nextval db = Inr (n, db')"
  shows "seq_ok db' \<and> db_high (m, db) < n \<and> db_high (m', db') = n \<and> 0 \<le> n \<and> n \<le> int64_max"
  using assms by (auto simp: seq_ok_def sql_nextval_def db_high_def seq_high_def Let_def split: if_splits)

lemma seq_unchanged:
  "sql_upsert_state sid t db = Inr db' \<Longrightarrow> request_id_seq db' = request_id_seq db"
  "sql_insert_pending inet rid sid h ip a db = Inr db' \<Longrightarrow> request_id_seq db' = request_id_seq db"
  "sql_upsert_config inet sid h ip a rid db = Inr (res, db') \<Longrightarrow> request_id_seq db' = request_id_seq db"
  by (auto simp: sql_upsert_state_def sql_insert_pending_def Let_def split: if_splits
      elim!: sql_upsert_config_cases)

lemma seq_same:
  assumes "request_id_seq db' = request_id_seq db"
  shows "seq_ok db' = seq_ok db" and "db_high (m', db') = db_high (m, db)"
  using assms by (simp_all add: seq_ok_def db_high_def)

lemma generate_run:
  assumes "db_call_run inet Generate_id m db = (Inr x, m', db')"
  obtains n where "sql_nextval db = Inr (n, db')" and "x = Some (to_u64 n)"
  using assms
  by (auto simp: generate_request_id_def split: if_splits prod.splits sum.splits dest!: run_txn_success)

lemma other_run_none:
  assumes "c \<noteq> Generate_id" and "db_call_run inet c m db = (Inr x, s)"
  shows "x = None"
  using assms by (cases c) (auto split: prod.splits)

lemma quiet_seq_same:
  assumes "c \<noteq> Init_sequence" and "c \<noteq> Generate_id" and "db_call_run inet c m db = (r, m', db')"
  shows "request_id_seq db' = request_id_seq db"
  using db_call_effect [OF assms(3)] assms(1,2) by (cases c) (auto dest: seq_unchanged)

interpretation ids: id_source "id_step inet" "\<lambda>st. seq_ok (snd st)" db_high "\<lambda>c. c \<noteq> Init_sequence" for inet
proof unfold_locales
  fix st :: "'h db_manager \<times> database" and c i st'
  assume ok: "seq_ok (snd st)" and q: "c \<noteq> Init_sequence" and step: "id_step inet c st = (Some i, st')"
  from step have run: "db_call_run inet c (fst st) (snd st) = (Inr (Some i), st')"
    by (auto simp: id_step_def split: prod.splits sum.splits)
  then have "c = Generate_id" using other_run_none by blast
  then obtain n where n: "sql_nextval (snd st) = Inr (n, snd st')" and "i = to_u64 n"
    using run generate_run [of inet "fst st" "snd st" _ "fst st'" "snd st'"] by auto
  then show "seq_ok (snd st') \<and> db_high st < uint i \<and> db_high st' = uint i"
    using sql_nextval_high [OF ok n, of "fst st" "fst st'"] by (simp add: uint_to_u64)
next
  fix st :: "'h db_manager \<times> database" and c st'
  assume ok: "seq_ok (snd st)" and q: "c \<noteq> Init_sequence" and step: "id_step inet c st = (None, st')"
  obtain r where run: "db_call_run inet c (fst st) (snd st) = (r, fst st', snd st')"
    using step by (auto simp: id_step_def split: prod.splits sum.splits)
  have "request_id_seq (snd st') = request_id_seq (snd st)"
  proof (cases "c = Generate_id")
    case True
    then have "\<exists>e. r = Inl e"
      using run step generate_run [of inet "fst st" "snd st" _ "fst st'" "snd st'"]
      by (cases r) (auto simp: id_step_def)
    with db_call_effect [OF run] show ?thesis by auto
  next
    case False
    from quiet_seq_same [OF q this run] show ?thesis .
  qed
  then show "seq_ok (snd st') \<and> db_high st' = db_high st"
    using ok seq_same by (metis prod.collapse)
qed

text \<open>C10: whatever calls run in between, and whether or not they fail, the ids one database issues
  are strictly increasing, so no two requests ever share one; this holds as long as nobody
  re-initialises the sequence.\<close>

theorem request_ids_increase:
  assumes "seq_ok db" and "Init_sequence \<notin> set cs"
  shows "sorted_wrt (<) (issued_ids (id_step inet) cs (m, db))
    \<and> distinct (issued_ids (id_step inet) cs (m, db))"
proof -
  have "list_all (\<lambda>c. c \<noteq> Init_sequence) cs"
    using assms(2) by (auto simp: list_all_iff)
  then show ?thesis
    using assms(1) ids.issued_above [of "(m, db)" cs inet] ids.issued_distinct [of "(m, db)" cs inet] by simp
qed

lemma sample_db_seq_ok: "seq_ok sample_db"
  by (simp add: seq_ok_def sample_db_def)

lemmas run_call_simps = id_step_def generate_request_id_def init_request_id_sequence_def
  add_pending_config_def upsert_sensor_config_def upsert_sensor_state_def queries_available_def
  run_txn_def unit_stmt_def swallow_def

theorem request_ids_increase_witness:
  "distinct (issued_ids (id_step Some) [Generate_id, Upsert_state 9 1, Generate_id]
     (sample_mgr :: unit db_manager, sample_db))
   \<and> length (issued_ids (id_step Some) [Generate_id, Upsert_state 9 1, Generate_id]
     (sample_mgr :: unit db_manager, sample_db)) = 2"
  using request_ids_increase [OF sample_db_seq_ok, of "[Generate_id, Upsert_state 9 1, Generate_id]"
      Some "sample_mgr :: unit db_manager"]
  by (simp add: run_call_simps sample_mgr_def sample_db_def sql_nextval_def sql_upsert_state_def
      sql_numeric_5_2_def sample_config_def Let_def)

lemma fold_max_ge: "(x :: int) \<le> fold max xs x"
  by (induction xs arbitrary: x) (auto intro: order_trans [OF max.cobounded2])

lemma fold_max_upper: "y \<in> set (x # xs) \<Longrightarrow> (y :: int) \<le> fold max xs x"
proof (induction xs arbitrary: x)
  case (Cons z zs)
  consider "y = x" | "y = z" | "y \<in> set zs" using Cons.prems by auto
  then show ?case
  proof cases
    case 3
    then show ?thesis using Cons.IH [of "max z x"] by simp
  qed (use fold_max_ge [of "max z x" zs] in \<open>simp_all add: max.coboundedI1 max.coboundedI2\<close>)
qed simp

lemma max_request_id_upper: "i \<in> set (stored_request_ids db) \<Longrightarrow> i \<le> max_request_id db"
  by (cases "stored_request_ids db") (auto simp: max_request_id_def intro: fold_max_upper fold_max_ge)

lemma max_request_id_create [simp]:
  "max_request_id (sql_create_sequence db) = max_request_id db"
  by (simp add: max_request_id_def stored_request_ids_def sql_create_sequence_def split: option.splits)

lemma max_request_id_seq [simp]: "max_request_id (db\<lparr>request_id_seq := s\<rparr>) = max_request_id db"
  by (simp add: max_request_id_def stored_request_ids_def)

definition manager_ready :: "'h db_manager \<Rightarrow> bool" where
  "manager_ready m \<longleftrightarrow> connection_queries m = Open_conn \<and> link_up m"

lemma init_sequence_ready:
  assumes "manager_ready m" and "1 \<le> max_request_id db" and "max_request_id db \<le> int64_max"
  shows "init_request_id_sequence m db
    = (Inr (), m, db\<lparr>request_id_seq := Some \<lparr>last_value = max_request_id db, is_called = True\<rparr>\<rparr>)"
  using assms
  by (auto simp: init_request_id_sequence_def manager_ready_def queries_available_def run_txn_def
      unit_stmt_def Let_def sql_setval_def sql_create_sequence_def split: option.splits)

lemma generate_ready:
  assumes "manager_ready m" and "request_id_seq db = Some \<lparr>last_value = n, is_called = True\<rparr>"
    and "n < int64_max"
  shows "generate_request_id m db
    = (Inr (to_u64 (n + 1)), m, db\<lparr>request_id_seq := Some \<lparr>last_value = n + 1, is_called = True\<rparr>\<rparr>)"
  using assms
  by (simp add: generate_request_id_def manager_ready_def queries_available_def run_txn_def sql_nextval_def Let_def)

text \<open>C11: once the tables hold a request, seeding the sequence and drawing the first id gives one
  above every id stored.\<close>

theorem init_then_generate_is_fresh:
  assumes "manager_ready m" and "1 \<le> max_request_id db" and "max_request_id db < int64_max"
  shows "\<exists>m' db' rid. init_request_id_sequence m db = (Inr (), m', db')
    \<and> fst (generate_request_id m' db') = Inr rid
    \<and> (\<forall>i \<in> set (stored_request_ids db). i < uint rid)"
proof -
  have "i < uint (to_u64 (max_request_id db + 1))" if "i \<in> set (stored_request_ids db)" for i
    using max_request_id_upper [OF that] assms(2,3) by (simp add: uint_to_u64)
  then show ?thesis
    using assms generate_ready [OF assms(1)] by (simp add: init_sequence_ready)
qed

lemma sample_mgr_ready: "manager_ready sample_mgr"
  by (simp add: manager_ready_def sample_mgr_def)

lemma sample_db_max: "max_request_id sample_db = 41"
  by (simp add: max_request_id_def stored_request_ids_def sample_db_def sample_config_def List.map_filter_def)

theorem init_then_generate_is_fresh_witness:
  "\<exists>m' db' rid. init_request_id_sequence (sample_mgr :: unit db_manager) sample_db = (Inr (), m', db')
    \<and> fst (generate_request_id m' db') = Inr rid
    \<and> (\<forall>i \<in> set (stored_request_ids sample_db). i < uint rid)"
  by (rule init_then_generate_is_fresh [OF sample_mgr_ready]) (simp_all add: sample_db_max)

text \<open>A second server that initialises the sequence while a first one has drawn an id it has not
  stored yet makes the sequence hand out the same id again.\<close>

lemma reinitialised_sequence_repeats:
  assumes "manager_ready m" and "1 \<le> max_request_id db" and "max_request_id db < int64_max"
  shows "issued_ids (id_step inet) [Init_sequence, Generate_id, Init_sequence, Generate_id] (m, db)
    = [to_u64 (max_request_id db + 1), to_u64 (max_request_id db + 1)]"
proof -
  let ?seq = "\<lambda>n. Some \<lparr>last_value = n, is_called = True\<rparr>"
  have init: "db_call_run inet Init_sequence m (db\<lparr>request_id_seq := s\<rparr>)
      = (Inr None, m, db\<lparr>request_id_seq := ?seq (max_request_id db)\<rparr>)" for s
    using init_sequence_ready [OF assms(1), of "db\<lparr>request_id_seq := s\<rparr>"] assms(2,3) by simp
  have gen: "db_call_run inet Generate_id m (db\<lparr>request_id_seq := ?seq (max_request_id db)\<rparr>)
      = (Inr (Some (to_u64 (max_request_id db + 1))), m,
         db\<lparr>request_id_seq := ?seq (max_request_id db + 1)\<rparr>)"
    using generate_ready [OF assms(1)] assms(3) by simp
  show ?thesis
    using init [of "request_id_seq db"] init [of "?seq (max_request_id db + 1)"] gen
    by (simp add: id_step_def)
qed

lemma reinitialised_sequence_repeats_example:
  "issued_ids (id_step Some) [Init_sequence, Generate_id, Init_sequence, Generate_id]
     (sample_mgr :: unit db_manager, sample_db) = [to_u64 42, to_u64 42]"
  using reinitialised_sequence_repeats [OF sample_mgr_ready, of sample_db Some] by (simp add: sample_db_max)

lemma init_sequence_empty:
  assumes "manager_ready m" and "stored_request_ids db = []"
  shows "init_request_id_sequence m db = (Inl (Sql_error ''setval: value out of bounds''), m, db)"
proof -
  have "max_request_id db = 0" using assms(2) by (simp add: max_request_id_def)
  then show ?thesis
    using assms(1)
    by (auto simp: init_request_id_sequence_def manager_ready_def queries_available_def run_txn_def
        unit_stmt_def Let_def sql_setval_def sql_create_sequence_def split: option.splits)
qed

text \<open>On a database that holds no request yet the initialisation throws: it asks for
  \<open>setval(\<dots>, 0)\<close>, which lies below a sequence's minimum, and nothing is left behind.\<close>

lemma init_sequence_fails_when_empty:
  assumes "manager_ready m" and "stored_request_ids db = []"
  shows "init_request_id_sequence m db = (Inl (Sql_error ''setval: value out of bounds''), m, db)"
  using assms by (rule init_sequence_empty)

lemma init_sequence_fails_when_empty_example:
  "fst (init_request_id_sequence (sample_mgr :: unit db_manager) (sample_db\<lparr>sensor_config_pending := []\<rparr>))
    = Inl (Sql_error ''setval: value out of bounds'')"
  by (subst init_sequence_fails_when_empty [OF sample_mgr_ready])
    (simp_all add: stored_request_ids_def sample_db_def sample_config_def List.map_filter_def)

section \<open>Behaviour of the configuration calls\<close>

text \<open>C30: a configuration upsert that takes effect writes exactly the row of its sensor, with the
  values given and the certificate it had (a new sensor: the certificate numbered like it), and
  announces it with one \<open>config_events\<close> notification that carries the request id.\<close>

theorem upsert_sensor_config_effect:
  assumes "upsert_sensor_config inet sid host ip active rid m db = (r, m', db')" and "db' \<noteq> db"
  shows "\<exists>row op. r = Inr ()
    \<and> sensor_config db' = AList.update sid row (sensor_config db)
    \<and> hostname row = host \<and> inet ip = Some (ip_address row) \<and> is_active row = Some active
    \<and> request_id row = Some (uint rid) \<and> resolve_cert sid db = Some (cert_id row)
    \<and> op = (if map_of (sensor_config db) sid = None then ''INSERT'' else ''UPDATE'')
    \<and> notifications db' = notifications db @ [notify_config_change op sid row]"
proof -
  have "r = Inr ()" and "\<exists>res. sql_upsert_config inet sid host ip active rid db = Inr (res, db')"
    using assms unfolding upsert_sensor_config_def
    by (auto dest!: swallow_txn_effect simp: upsert_config_stmt_Inr)
  then obtain res where up: "sql_upsert_config inet sid host ip active rid db = Inr (res, db')" by blast
  from up show ?thesis
  proof (cases rule: sql_upsert_config_cases)
    case (update old a)
    with \<open>r = Inr ()\<close> show ?thesis by (intro exI [of _ "old\<lparr>hostname := host, ip_address := a,
      is_active := Some active, request_id := Some (int (unat rid))\<rparr>"]) (simp add: resolve_cert_def)
  next
    case (insert a)
    with \<open>r = Inr ()\<close> show ?thesis by (intro exI [of _ "\<lparr>hostname = host, ip_address = a,
      is_active = Some active, cert_id = sid, request_id = Some (int (unat rid))\<rparr>"])
      (auto simp: resolve_cert_def)
  qed
qed

theorem upsert_sensor_config_effect_witness:
  "\<exists>row. sensor_config (snd (snd (upsert_sensor_config Some 1 ''n1'' ''10.1.1.1'' True 42
      (sample_mgr :: unit db_manager) sample_db))) = AList.update 1 row (sensor_config sample_db)
    \<and> ip_address row = ''10.1.1.1'' \<and> cert_id row = 1"
proof -
  obtain r m' db' where run: "upsert_sensor_config Some 1 ''n1'' ''10.1.1.1'' True 42
      (sample_mgr :: unit db_manager) sample_db = (r, m', db')" by (metis prod_cases3)
  have "sensor_config db' \<noteq> sensor_config sample_db"
    using run by (auto simp: run_call_simps upsert_config_stmt_def sql_upsert_config_def sample_mgr_def
        sample_db_def sample_config_def sql_varchar100_def sql_inet_def sql_bigint_def resolve_cert_def Let_def)
  then have "db' \<noteq> sample_db" by auto
  from upsert_sensor_config_effect [OF run this] run show ?thesis
    by (auto simp: resolve_cert_def sample_db_def sample_config_def)
qed

text \<open>The branch that reports a sensor without a certificate is never reached: such a sensor is
  refused by the statement itself, and that SQL error reaches the caller.\<close>

lemma missing_certificate_is_sql_error:
  assumes "manager_ready m" and "resolve_cert sid db = None" and "length host \<le> 100"
    and "inet ip = Some a" and "uint rid \<le> int64_max"
  shows "upsert_sensor_config inet sid host ip active rid m db
      = (Inl (Sql_error ''not null: sensor_config.cert_id''), m, db)
    \<and> (\<forall>s db0. upsert_config_stmt inet sid host ip active rid db0 \<noteq> Inl (Runtime_error s))"
proof
  show "upsert_sensor_config inet sid host ip active rid m db
      = (Inl (Sql_error ''not null: sensor_config.cert_id''), m, db)"
    using assms
    by (simp add: upsert_sensor_config_def manager_ready_def run_txn_def upsert_config_stmt_def
        sql_upsert_config_def sql_varchar100_def sql_inet_def sql_bigint_def swallow_def is_std_exception_def)
  show "\<forall>s db0. upsert_config_stmt inet sid host ip active rid db0 \<noteq> Inl (Runtime_error s)"
  proof (intro allI)
    fix s db0
    show "upsert_config_stmt inet sid host ip active rid db0 \<noteq> Inl (Runtime_error s)"
    proof (cases "sql_upsert_config inet sid host ip active rid db0")
      case (Inl e)
      then show ?thesis using assms(3-5)
        by (auto simp: upsert_config_stmt_def sql_upsert_config_def sql_varchar100_def sql_inet_def
            sql_bigint_def Let_def split: option.splits if_splits)
    next
      case (Inr p)
      then obtain c d where "p = ([Some c], d)"
        using sql_upsert_config_returning by (cases p) blast
      with Inr show ?thesis by (simp add: upsert_config_stmt_def)
    qed
  qed
qed

lemma missing_certificate_is_sql_error_example:
  "fst (upsert_sensor_config Some 9 ''n9'' ''10.1.1.1'' True 42 (sample_mgr :: unit db_manager) sample_db)
    = Inl (Sql_error ''not null: sensor_config.cert_id'')"
proof -
  have "resolve_cert 9 sample_db = None"
    by (simp add: resolve_cert_def sample_db_def sample_config_def)
  moreover have "manager_ready (sample_mgr :: unit db_manager)" by (rule sample_mgr_ready)
  ultimately show ?thesis using missing_certificate_is_sql_error [of "sample_mgr :: unit db_manager" 9 sample_db "''n9''" Some "''10.1.1.1''" "''10.1.1.1''" 42 True]
    by simp
qed

text \<open>When the connection breaks under \<open>add_pending_config\<close> the call returns normally although no
  row was stored, while a rejected statement is reported; the caller cannot tell the loss from
  success.\<close>

lemma pending_config_lost_silently:
  assumes "connection_queries m = Open_conn" and "\<not> link_up m"
  shows "\<exists>m'. add_pending_config inet sid host ip active rid m db = (Inr (), m', db)
    \<and> connection_queries m' = Closed_conn"
  using assms by (simp add: add_pending_config_def queries_available_def run_txn_def swallow_def)

lemma pending_config_lost_silently_example:
  "\<exists>m'. add_pending_config Some 1 ''n1'' ''10.1.1.1'' True 42
      ((sample_mgr :: unit db_manager)\<lparr>link_up := False\<rparr>) sample_db = (Inr (), m', sample_db)
    \<and> connection_queries m' = Closed_conn"
  by (rule pending_config_lost_silently) (simp_all add: sample_mgr_def)

end
