(* ===== verification/Server_Requests.thy ===== *)
theory Server_Requests
  imports Dispatcher Database_Manager
begin

text \<open>
  What the two request handlers of the server have in common. Both \<open>QuantumCommandCli\<close> (its
  \<open>CONFIG_IP\<close> command) and \<open>QuantumSafeHttp\<close> (\<open>config_ip\<close>) draw an id from the database's
  sequence, store a pending row under it, and then wait for the answer that a listener callback
  dispatches for that id. The first part gives the two halves as functions of the server's state;
  the second lets any number of handler threads, the listener and other processes interleave, and
  shows that no two requests share an id, as long as no process initialises the sequence while a request
  is under way; the halves are shown to be runs of its steps.
\<close>

section \<open>The halves of a request\<close>

record 'h server =
  srv_mgr :: "'h db_manager"
  srv_db :: database
  srv_disp :: dispatcher

text \<open>
  What the rest of the system does around one request: \<open>sch_db\<close> is what happens to the connection
  and the tables between drawing the id and storing the row, \<open>sch_early\<close> what happens at the
  dispatcher before the caller enters \<open>wait_for_response\<close>, \<open>sch_during\<close> what happens while it is
  blocked there.
\<close>

record 'h schedule =
  sch_thread :: nat
  sch_db :: "'h db_manager \<times> database \<Rightarrow> 'h db_manager \<times> database"
  sch_early :: "disp_event list"
  sch_during :: "disp_event list"

definition file_request ::
  "inet_input \<Rightarrow> 'h schedule \<Rightarrow> int \<Rightarrow> string \<Rightarrow> 'h server \<Rightarrow> u64 \<times> (exn + unit) \<times> 'h server" where
  "file_request inet sch sid ip s =
     (case generate_request_id (srv_mgr s) (srv_db s) of
        (Inl e, m, db) \<Rightarrow> (0, Inl e, s\<lparr>srv_mgr := m, srv_db := db\<rparr>)
      | (Inr rid, st) \<Rightarrow>
          (case sch_db sch st of (m, db) \<Rightarrow>
          (case add_pending_config inet sid (''sensor-'' @ int_to_string sid) ip True rid m db of
             (r, m', db') \<Rightarrow> (rid, r, s\<lparr>srv_mgr := m', srv_db := db'\<rparr>))))"

definition await_answer :: "'h schedule \<Rightarrow> int \<Rightarrow> u64 \<Rightarrow> 'h server \<Rightarrow> exn + (response_status \<times> 'h server)" where
  "await_answer sch timeout_ms rid s =
     sbind (env_events (sch_early sch) (srv_disp s)) (\<lambda>d.
     sbind (wait_for_response (sch_thread sch) (sch_during sch) rid timeout_ms d) (\<lambda>(st, d').
       Inr (st, s\<lparr>srv_disp := d'\<rparr>)))"

lemma insert_pending_error:
  "sql_insert_pending inet rid sid host ip active db = Inl e \<Longrightarrow> is_sql e \<and> \<not> is_broken e"
  by (auto simp: sql_insert_pending_def sql_bigint_def sql_varchar100_def sql_inet_def Let_def sbind_eq_Inl
      split: if_splits option.splits)

lemma unit_stmt_Inl [simp]: "unit_stmt f db = Inl e \<longleftrightarrow> f db = Inl e"
  by (cases "f db") (simp_all add: unit_stmt_def)

lemma add_pending_cases:
  assumes "add_pending_config inet sid host ip active rid m db = (r, m', db')"
  obtains (stored) "r = Inr ()" and "m' = m" and "sql_insert_pending inet rid sid host ip active db = Inr db'"
  | (lost) "r = Inr ()" and "db' = db" and "connection_queries m' = Closed_conn"
  | (failed) e where "r = Inl e" and "db' = db"
  using assms unfolding add_pending_config_def swallow_def run_txn_def queries_available_def
  by (auto split: if_splits sum.splits dest: insert_pending_error)

text \<open>Whether the caller may count on the rendezvous: its id is nobody else's, the table has room.\<close>

definition rendezvous_ok :: "'h schedule \<Rightarrow> u64 \<Rightarrow> 'h server \<Rightarrow> bool" where
  "rendezvous_ok sch rid s \<longleftrightarrow>
     (\<exists>d. env_events (sch_early sch) (srv_disp s) = Inr d
        \<and> channel_usable (sch_thread sch) rid (sch_during sch) d)"

lemma await_answer_status:
  assumes "rendezvous_ok sch rid s"
  shows "\<exists>s'. await_answer sch ms rid s
    = Inr (case last_answer rid (sch_during sch) of Some st \<Rightarrow> st | None \<Rightarrow> TIMEOUT, s')
    \<and> srv_db s' = srv_db s \<and> srv_mgr s' = srv_mgr s"
  using assms disp.wait_answer [of "sch_thread sch" rid "sch_during sch" _ ms]
  by (fastforce simp: rendezvous_ok_def await_answer_def)

text \<open>The same with a full table: the caller is turned away.\<close>

lemma await_answer_outcome:
  assumes "env_events (sch_early sch) (srv_disp s) = Inr d" and "disp_inv d" and "id_free rid d"
    and "map_of (contexts d) (sch_thread sch) = None" and "list_all (ev_ok (sch_thread sch) rid) (sch_during sch)"
  shows "\<exists>s'. await_answer sch ms rid s = Inr (
      if length (pending_requests d) = MAX_PENDING then SYSTEM_FULL
      else case last_answer rid (sch_during sch) of Some st \<Rightarrow> st | None \<Rightarrow> TIMEOUT, s')
    \<and> srv_db s' = srv_db s"
proof (cases "length (pending_requests d) = MAX_PENDING")
  case True
  then show ?thesis using assms(1) by (simp add: await_answer_def wait_for_response_full)
next
  case False
  then have "rendezvous_ok sch rid s"
    using assms by (auto simp: rendezvous_ok_def channel_usable_def disp_inv_def)
  with await_answer_status [OF this, of ms] False show ?thesis by auto
qed

lemma file_request_keeps_disp: "file_request inet sch sid ip s = (rid, r, s') \<Longrightarrow> srv_disp s' = srv_disp s"
  by (auto simp: file_request_def split: prod.splits sum.splits)

text \<open>A dispatcher whose events all go through: used on concrete schedules.\<close>

lemmas request_simps = file_request_def await_answer_def

section \<open>Many requests at once\<close>

text \<open>
  The phases of a handler thread. \<open>Drawn\<close>: it holds an id it has not stored; \<open>Filed\<close>: its row is
  stored (or was lost with the connection); \<open>Waiting\<close>: it is blocked in \<open>wait_for_response\<close>.
\<close>

datatype phase = Idle | Drawn u64 | Filed u64 | Waiting u64

fun held_id :: "phase \<Rightarrow> u64 option" where
  "held_id Idle = None"
| "held_id (Drawn i) = Some i"
| "held_id (Filed i) = Some i"
| "held_id (Waiting i) = Some i"

record 'h request_world =
  rw_server :: "'h server"
  rw_phase :: "nat \<Rightarrow> phase"

text \<open>
  One step of the server: a thread draws an id, stores its row, enters the wait or leaves it; the
  listener dispatches; any other database call runs, on the server's connection or on another
  process's (\<open>other_call\<close>), where the sequence is initialised only while no thread holds an id
  (\<open>init_allowed\<close>: a server does so when it starts); the connection changes state; time passes.
  What a second server does that initialises the sequence while an id is drawn and not yet stored is
  \<open>reinitialised_sequence_repeats\<close>.
\<close>

definition init_allowed :: "db_call \<Rightarrow> (nat \<Rightarrow> phase) \<Rightarrow> bool" where
  "init_allowed c ph \<longleftrightarrow> (c = Init_sequence \<longrightarrow> (\<forall>t. ph t = Idle))"

inductive request_step :: "inet_input \<Rightarrow> 'h request_world \<Rightarrow> 'h request_world \<Rightarrow> bool"
  for inet :: inet_input where
  draw: "rw_phase w t = Idle
    \<Longrightarrow> generate_request_id (srv_mgr (rw_server w)) (srv_db (rw_server w)) = (r, m, db)
    \<Longrightarrow> request_step inet w \<lparr>rw_server = (rw_server w)\<lparr>srv_mgr := m, srv_db := db\<rparr>,
          rw_phase = (rw_phase w)(t := case r of Inr i \<Rightarrow> Drawn i | Inl _ \<Rightarrow> Idle)\<rparr>"
| store: "rw_phase w t = Drawn i
    \<Longrightarrow> add_pending_config inet sid host ip active i (srv_mgr (rw_server w)) (srv_db (rw_server w)) = (r, m, db)
    \<Longrightarrow> request_step inet w \<lparr>rw_server = (rw_server w)\<lparr>srv_mgr := m, srv_db := db\<rparr>,
          rw_phase = (rw_phase w)(t := case r of Inr _ \<Rightarrow> Filed i | Inl _ \<Rightarrow> Idle)\<rparr>"
| enter: "rw_phase w t = Filed i
    \<Longrightarrow> wait_enter t i ms (srv_disp (rw_server w)) = (r, d)
    \<Longrightarrow> request_step inet w \<lparr>rw_server = (rw_server w)\<lparr>srv_disp := d\<rparr>,
          rw_phase = (rw_phase w)(t := case r of None \<Rightarrow> Waiting i | Some _ \<Rightarrow> Idle)\<rparr>"
| leave: "rw_phase w t = Waiting i
    \<Longrightarrow> wait_leave t (srv_disp (rw_server w)) = Some (st, d)
    \<Longrightarrow> request_step inet w \<lparr>rw_server = (rw_server w)\<lparr>srv_disp := d\<rparr>, rw_phase = (rw_phase w)(t := Idle)\<rparr>"
| answer: "dispatch i st (srv_disp (rw_server w)) = Inr d
    \<Longrightarrow> request_step inet w (w\<lparr>rw_server := (rw_server w)\<lparr>srv_disp := d\<rparr>\<rparr>)"
| own_call: "init_allowed c (rw_phase w)
    \<Longrightarrow> db_call_run inet c (srv_mgr (rw_server w)) (srv_db (rw_server w)) = (r, m, db)
    \<Longrightarrow> request_step inet w (w\<lparr>rw_server := (rw_server w)\<lparr>srv_mgr := m, srv_db := db\<rparr>\<rparr>)"
| other_call: "init_allowed c (rw_phase w)
    \<Longrightarrow> db_call_run inet c (m0 :: 'h db_manager) (srv_db (rw_server w)) = (r, m1, db)
    \<Longrightarrow> request_step inet w (w\<lparr>rw_server := (rw_server w)\<lparr>srv_db := db\<rparr>\<rparr>)"
| link: "request_step inet w (w\<lparr>rw_server := (rw_server w)\<lparr>srv_mgr := m\<rparr>\<rparr>)"
| tick: "request_step inet w
    (w\<lparr>rw_server := (rw_server w)\<lparr>srv_disp := (srv_disp (rw_server w))\<lparr>now := now (srv_disp (rw_server w)) + int n\<rparr>\<rparr>\<rparr>)"

inductive request_reachable :: "inet_input \<Rightarrow> 'h request_world \<Rightarrow> bool" for inet :: inet_input where
  start: "seq_ok db \<Longrightarrow> request_reachable inet
    \<lparr>rw_server = \<lparr>srv_mgr = m, srv_db = db, srv_disp = init_dispatcher\<rparr>, rw_phase = (\<lambda>_. Idle)\<rparr>"
| step: "request_reachable inet w \<Longrightarrow> request_step inet w w' \<Longrightarrow> request_reachable inet w'"

text \<open>
  The invariant: the ids held are at most the last one drawn and pairwise distinct, and the
  dispatcher's contexts are exactly those of the waiting threads, each published under its id.
\<close>

abbreviation seq_top :: "database \<Rightarrow> int" where
  "seq_top db \<equiv> (case request_id_seq db of None \<Rightarrow> 0 | Some s \<Rightarrow> seq_high s)"

definition held_fresh :: "(nat \<Rightarrow> phase) \<Rightarrow> database \<Rightarrow> bool" where
  "held_fresh ph db \<longleftrightarrow> seq_ok db \<and> (\<forall>t i. held_id (ph t) = Some i \<longrightarrow> uint i \<le> seq_top db)
     \<and> (\<forall>t1 t2 i. held_id (ph t1) = Some i \<longrightarrow> held_id (ph t2) = Some i \<longrightarrow> t1 = t2)"

definition waiters_match :: "(nat \<Rightarrow> phase) \<Rightarrow> dispatcher \<Rightarrow> bool" where
  "waiters_match ph d \<longleftrightarrow> disp_inv d
     \<and> (\<forall>t c. map_of (contexts d) t = Some c \<longrightarrow> ph t = Waiting (ctx_id c))
     \<and> (\<forall>t i. ph t = Waiting i \<longrightarrow> map_of (pending_requests d) i = Some t)"

definition request_inv :: "'h request_world \<Rightarrow> bool" where
  "request_inv w \<longleftrightarrow> held_fresh (rw_phase w) (srv_db (rw_server w))
     \<and> waiters_match (rw_phase w) (srv_disp (rw_server w))"

text \<open>A call other than the initialisation never lowers the sequence, and a draw goes above it.\<close>

lemma call_seq:
  fixes m :: "'h db_manager"
  assumes "seq_ok db" and "c \<noteq> Init_sequence" and "db_call_run inet c m db = (r, m', db')"
  shows "seq_ok db' \<and> seq_top db \<le> seq_top db'"
proof -
  obtain x where st: "id_step inet c (m, db) = (x, m', db')"
    using assms(3) by (cases r) (auto simp: id_step_def)
  show ?thesis
  proof (cases x)
    case None
    with ids.no_issue [of "(m, db)" c inet "(m', db')"] assms(1,2) st show ?thesis
      by (simp add: db_high_def)
  next
    case (Some i)
    with ids.issue [of "(m, db)" c inet i "(m', db')"] assms(1,2) st show ?thesis
      by (simp add: db_high_def)
  qed
qed

lemma generate_seq:
  fixes m :: "'h db_manager"
  assumes "seq_ok db" and "generate_request_id m db = (r, m', db')"
  shows "seq_ok db' \<and> (case r of Inl _ \<Rightarrow> seq_top db' = seq_top db
    | Inr i \<Rightarrow> seq_top db < uint i \<and> seq_top db' = uint i)"
proof (cases r)
  case (Inl e)
  with assms(2) have "id_step undefined Generate_id (m, db) = (None, m', db')" by (simp add: id_step_def)
  with ids.no_issue [of "(m, db)" Generate_id undefined "(m', db')"] assms(1) Inl show ?thesis
    by (simp add: db_high_def)
next
  case (Inr i)
  with assms(2) have "id_step undefined Generate_id (m, db) = (Some i, m', db')" by (simp add: id_step_def)
  with ids.issue [of "(m, db)" Generate_id undefined i "(m', db')"] assms(1) Inr show ?thesis
    by (simp add: db_high_def)
qed

lemma held_fresh_same:
  "held_fresh ph db \<Longrightarrow> seq_ok db' \<Longrightarrow> seq_top db \<le> seq_top db' \<Longrightarrow> held_fresh ph db'"
  unfolding held_fresh_def by (meson order_trans)

lemma init_sequence_seq_ok:
  assumes "seq_ok db" and "db_call_run inet Init_sequence m db = (r, m', db')"
  shows "seq_ok db'"
proof -
  have "db' = db \<or> sql_setval (max_request_id (sql_create_sequence db)) (sql_create_sequence db) = Inr db'"
    using db_call_effect [OF assms(2)] by auto
  with assms(1) show ?thesis by (auto simp: sql_setval_def seq_ok_def split: if_splits)
qed

lemma held_fresh_call:
  fixes m :: "'h db_manager"
  assumes held: "held_fresh ph db" and ok: "init_allowed c ph"
    and run: "db_call_run inet c m db = (r, m', db')"
  shows "held_fresh ph db'"
proof (cases "c = Init_sequence")
  case True
  with ok held init_sequence_seq_ok run show ?thesis
    by (fastforce simp: init_allowed_def held_fresh_def)
next
  case False
  from held have "seq_ok db" by (simp add: held_fresh_def)
  from call_seq [OF this False run] held_fresh_same [OF held] show ?thesis by simp
qed

lemma held_fresh_release:
  "held_fresh ph db \<Longrightarrow> held_id p = None \<or> held_id p = held_id (ph t) \<Longrightarrow> held_fresh (ph(t := p)) db"
  unfolding held_fresh_def by (simp split: if_splits) (metis option.distinct(1))

lemma held_fresh_draw:
  assumes "held_fresh ph db" and "seq_top db < uint i" and "seq_top db' = uint i" and "seq_ok db'"
    and "held_id p = Some i"
  shows "held_fresh (ph(t := p)) db'"
proof -
  have "\<not> uint i \<le> seq_top db" using assms(2) by simp
  then have "held_id (ph t') \<noteq> Some i" for t' using assms(1) unfolding held_fresh_def by blast
  moreover have "uint j \<le> seq_top db'" if "held_id (ph t') = Some j" for t' j
    using assms(1-3) that unfolding held_fresh_def by fastforce
  ultimately show ?thesis using assms unfolding held_fresh_def by (simp split: if_splits) metis
qed

lemma waiters_no_context:
  "waiters_match ph d \<Longrightarrow> \<forall>i. ph t \<noteq> Waiting i \<Longrightarrow> map_of (contexts d) t = None"
  unfolding waiters_match_def by (cases "map_of (contexts d) t") auto

lemma waiters_match_other:
  assumes "waiters_match ph d" and "\<forall>i. ph t \<noteq> Waiting i" and "\<forall>i. p \<noteq> Waiting i"
  shows "waiters_match (ph(t := p)) d"
  using assms waiters_no_context [OF assms(1,2)] unfolding waiters_match_def by auto

lemma waiters_match_enter:
  assumes wm: "waiters_match ph d" and "ph t = Filed i" and "wait_enter t i ms d = (None, d')"
    and alone: "\<forall>t'. held_id (ph t') = Some i \<longrightarrow> t' = t"
  shows "waiters_match (ph(t := Waiting i)) d'"
proof -
  have free: "map_of (contexts d) t = None" using waiters_no_context [OF wm] assms(2) by simp
  have "disp_inv d'" using wm free assms(3) wait_enter_inv unfolding waiters_match_def by blast
  moreover have "ph t' \<noteq> Waiting i" if "t' \<noteq> t" for t' using alone that by (metis held_id.simps(4))
  ultimately show ?thesis
    using assms free unfolding waiters_match_def wait_enter_def by (auto split: if_splits)
qed

lemma waiters_match_leave:
  assumes wm: "waiters_match ph d" and "ph t = Waiting i" and "wait_leave t d = Some (st, d')"
    and alone: "\<forall>t'. held_id (ph t') = Some i \<longrightarrow> t' = t"
  shows "waiters_match (ph(t := Idle)) d'"
proof -
  have "disp_inv d'" using wm assms(3) wait_leave_inv unfolding waiters_match_def by blast
  moreover have "ph t' \<noteq> Waiting i" if "t' \<noteq> t" for t' using alone that by (metis held_id.simps(4))
  moreover obtain c where "map_of (contexts d) t = Some c" and "ctx_id c = i"
    and "d' = d\<lparr>pending_requests := AList.delete i (pending_requests d), contexts := AList.delete t (contexts d)\<rparr>"
    using assms(2,3) wm unfolding waiters_match_def wait_leave_def by (fastforce split: option.splits if_splits)
  ultimately show ?thesis using assms(1,2) unfolding waiters_match_def by auto
qed

lemma waiters_match_answer:
  assumes "waiters_match ph d" and "dispatch i st d = Inr d'"
  shows "waiters_match ph d'"
proof -
  have "disp_inv d'" using assms dispatch_inv unfolding waiters_match_def by blast
  then show ?thesis
    using assms unfolding waiters_match_def dispatch_def by (auto split: option.splits if_splits)
qed

lemma held_alone: "held_fresh ph db \<Longrightarrow> held_id (ph t) = Some i \<Longrightarrow> \<forall>t'. held_id (ph t') = Some i \<longrightarrow> t' = t"
  unfolding held_fresh_def by blast

lemma add_pending_seq:
  assumes "add_pending_config inet sid host ip active i m db = (r, m', db')"
  shows "request_id_seq db' = request_id_seq db"
  using assms by (cases rule: add_pending_cases) (auto dest: seq_unchanged)

lemma request_step_inv: "request_step inet w w' \<Longrightarrow> request_inv w \<Longrightarrow> request_inv w'"
proof (induction rule: request_step.induct)
  case (draw w t r m db)
  then have held: "held_fresh (rw_phase w) (srv_db (rw_server w))"
    and wm: "waiters_match (rw_phase w) (srv_disp (rw_server w))" by (simp_all add: request_inv_def)
  have seq: "seq_ok db \<and> (case r of Inl _ \<Rightarrow> seq_top db = seq_top (srv_db (rw_server w))
    | Inr i \<Rightarrow> seq_top (srv_db (rw_server w)) < uint i \<and> seq_top db = uint i)"
    using held draw(2) generate_seq unfolding held_fresh_def by blast
  show ?case
  proof (cases r)
    case (Inl e)
    with held_fresh_same [OF held] seq draw(1) wm show ?thesis
      by (simp add: request_inv_def fun_upd_idem)
  next
    case (Inr i)
    with held_fresh_draw [OF held, of i db] seq draw(1) waiters_match_other [OF wm] show ?thesis
      by (simp add: request_inv_def)
  qed
next
  case (store w t i sid host ip active r m db)
  then have held: "held_fresh (rw_phase w) (srv_db (rw_server w))"
    and wm: "waiters_match (rw_phase w) (srv_disp (rw_server w))" by (simp_all add: request_inv_def)
  have "held_fresh (rw_phase w) db"
    using held add_pending_seq [OF store(2)] by (simp add: held_fresh_def seq_ok_def)
  with held_fresh_release waiters_match_other [OF wm] store(1) show ?case
    by (simp add: request_inv_def split: sum.split)
next
  case (enter w t i ms r d)
  then have held: "held_fresh (rw_phase w) (srv_db (rw_server w))"
    and wm: "waiters_match (rw_phase w) (srv_disp (rw_server w))" by (simp_all add: request_inv_def)
  have alone: "\<forall>t'. held_id (rw_phase w t') = Some i \<longrightarrow> t' = t" using held_alone [OF held] enter(1) by simp
  show ?case
  proof (cases r)
    case None
    with waiters_match_enter [OF wm enter(1) _ alone] enter(1,2) held_fresh_release [OF held] show ?thesis
      by (simp add: request_inv_def)
  next
    case (Some x)
    with enter(2) have "d = srv_disp (rw_server w)" by (auto simp: wait_enter_def split: if_splits)
    with Some waiters_match_other [OF wm] enter(1) held_fresh_release [OF held] show ?thesis
      by (simp add: request_inv_def)
  qed
next
  case (leave w t i st d)
  then have held: "held_fresh (rw_phase w) (srv_db (rw_server w))"
    and wm: "waiters_match (rw_phase w) (srv_disp (rw_server w))" by (simp_all add: request_inv_def)
  have "\<forall>t'. held_id (rw_phase w t') = Some i \<longrightarrow> t' = t" using held_alone [OF held] leave(1) by simp
  with waiters_match_leave [OF wm leave(1,2)] held_fresh_release [OF held] show ?case
    by (simp add: request_inv_def)
next
  case (answer i st w d)
  then show ?case using waiters_match_answer by (fastforce simp: request_inv_def)
next
  case (own_call c w r m db)
  then have held: "held_fresh (rw_phase w) (srv_db (rw_server w))"
    and wm: "waiters_match (rw_phase w) (srv_disp (rw_server w))" by (simp_all add: request_inv_def)
  from held_fresh_call [OF held own_call(1,2)] wm show ?case by (simp add: request_inv_def)
next
  case (other_call c w m0 r m1 db)
  then have held: "held_fresh (rw_phase w) (srv_db (rw_server w))"
    and wm: "waiters_match (rw_phase w) (srv_disp (rw_server w))" by (simp_all add: request_inv_def)
  from held_fresh_call [OF held other_call(1,2)] wm show ?case by (simp add: request_inv_def)
next
  case (link w m)
  then show ?case by (simp add: request_inv_def)
next
  case (tick w n)
  then show ?case by (simp add: request_inv_def waiters_match_def disp_inv_def)
qed

lemma request_reachable_inv: "request_reachable inet w \<Longrightarrow> request_inv w"
proof (induction rule: request_reachable.induct)
  case (start db m)
  then show ?case
    by (simp add: request_inv_def held_fresh_def waiters_match_def disp_inv_init)
      (simp add: init_dispatcher_def)
qed (rule request_step_inv)

text \<open>
  The two halves of a handler's request are runs of these steps. Whatever the others do in between
  (\<open>sch_db\<close>), \<open>file_request\<close> is a draw followed by a store of the same thread under the id drawn, and
  a call of \<open>wait_for_response\<close> that is not turned away is an entering, the others' events at the
  dispatcher, and a leaving, at the deadline if nothing woke it before.
\<close>

lemma file_request_steps:
  assumes "rw_phase w t = Idle" and "generate_request_id (srv_mgr (rw_server w)) (srv_db (rw_server w)) = (Inr i, m, db)"
    and "sch_db sch (m, db) = (m1, db1)" and "file_request inet sch sid ip (rw_server w) = (rid, r, s')"
    and "rw_phase w1 t = Drawn i" and "rw_server w1 = (rw_server w)\<lparr>srv_mgr := m1, srv_db := db1\<rparr>"
  shows "rid = i \<and> request_step inet w \<lparr>rw_server = (rw_server w)\<lparr>srv_mgr := m, srv_db := db\<rparr>, rw_phase = (rw_phase w)(t := Drawn i)\<rparr>
    \<and> request_step inet w1 \<lparr>rw_server = s', rw_phase = (rw_phase w1)(t := case r of Inr _ \<Rightarrow> Filed i | Inl _ \<Rightarrow> Idle)\<rparr>"
proof -
  obtain r' m2 db2 where add: "add_pending_config inet sid (''sensor-'' @ int_to_string sid) ip True i m1 db1 = (r', m2, db2)"
    by (metis prod_cases3)
  have filed: "rid = i" "r = r'" "s' = (rw_server w)\<lparr>srv_mgr := m2, srv_db := db2\<rparr>"
    using assms(2-4) add by (auto simp: file_request_def)
  have "request_step inet w1 \<lparr>rw_server = (rw_server w1)\<lparr>srv_mgr := m2, srv_db := db2\<rparr>,
      rw_phase = (rw_phase w1)(t := case r' of Inr _ \<Rightarrow> Filed i | Inl _ \<Rightarrow> Idle)\<rparr>"
    by (rule request_step.store [OF assms(5)]) (use add assms(6) in simp)
  with filed request_step.draw [OF assms(1,2), of inet] assms(6) show ?thesis by simp
qed

lemma wait_for_response_steps:
  assumes "rw_phase w t = Filed i" and "srv_disp (rw_server w) = d"
    and "wait_enter t i ms d = (None, d1)" and "env_events evs d1 = Inr d2"
    and "wait_leave t d2 = Some (st, d3)"
    and "rw_phase w1 t = Waiting i" and "srv_disp (rw_server w1) = d2"
  shows "wait_for_response t evs i ms d = Inr (st, d3)
    \<and> request_step inet w \<lparr>rw_server = (rw_server w)\<lparr>srv_disp := d1\<rparr>, rw_phase = (rw_phase w)(t := Waiting i)\<rparr>
    \<and> request_step inet w1 \<lparr>rw_server = (rw_server w1)\<lparr>srv_disp := d3\<rparr>, rw_phase = (rw_phase w1)(t := Idle)\<rparr>"
  using request_step.enter [of w t i ms None d1 inet] request_step.leave [of w1 t i st d3 inet] assms
  by (simp add: wait_for_response_def wait_finish_def)


text \<open>One thread's way to the wait, on the sample tables.\<close>

definition sample_server :: "unit server" where
  "sample_server = \<lparr>srv_mgr = sample_mgr, srv_db = sample_db, srv_disp = init_dispatcher\<rparr>"

definition sample_pending :: database where
  "sample_pending = snd (snd (add_pending_config Some 1 ''n1'' ''10.1.1.1'' True 42 (sample_mgr :: unit db_manager)
     (snd (snd (generate_request_id (sample_mgr :: unit db_manager) sample_db)))))"

definition waiting_world :: "unit request_world" where
  "waiting_world = \<lparr>rw_server = \<lparr>srv_mgr = sample_mgr, srv_db = sample_pending,
       srv_disp = snd (wait_enter 1 42 2000 init_dispatcher)\<rparr>, rw_phase = (\<lambda>_. Idle)(1 := Waiting 42)\<rparr>"

lemmas sample_request_simps = run_call_simps sample_mgr_def sample_db_def sample_config_def
  sql_nextval_def sql_insert_pending_def sql_bigint_def sql_varchar100_def sql_inet_def to_u64_def

lemma waiting_world_reachable: "request_reachable Some waiting_world"
proof -
  let ?db1 = "snd (snd (generate_request_id (sample_mgr :: unit db_manager) sample_db))"
  let ?w0 = "\<lparr>rw_server = sample_server, rw_phase = (\<lambda>_. Idle)\<rparr>"
  let ?w1 = "\<lparr>rw_server = sample_server\<lparr>srv_mgr := sample_mgr, srv_db := ?db1\<rparr>, rw_phase = (\<lambda>_. Idle)(1 := Drawn 42)\<rparr>"
  let ?w2 = "\<lparr>rw_server = sample_server\<lparr>srv_mgr := sample_mgr, srv_db := sample_pending\<rparr>,
    rw_phase = (\<lambda>_. Idle)(1 := Filed 42)\<rparr>"
  have w0: "request_reachable Some ?w0"
    unfolding sample_server_def by (rule request_reachable.start) (rule sample_db_seq_ok)
  have "generate_request_id (sample_mgr :: unit db_manager) sample_db = (Inr 42, sample_mgr, ?db1)"
    by (simp add: sample_request_simps Let_def)
  then have "request_step Some ?w0 ?w1"
    using request_step.draw [of ?w0 1 "Inr 42" sample_mgr ?db1 Some] by (simp add: sample_server_def)
  then have w1: "request_reachable Some ?w1" using request_reachable.step w0 by blast
  have "add_pending_config Some 1 ''n1'' ''10.1.1.1'' True 42 (sample_mgr :: unit db_manager) ?db1
      = (Inr (), sample_mgr, sample_pending)"
    unfolding sample_pending_def by (simp add: sample_request_simps Let_def)
  then have "request_step Some ?w1 ?w2"
    using request_step.store [of ?w1 1 42 Some 1 "''n1''" "''10.1.1.1''" True "Inr ()" sample_mgr sample_pending]
    by (simp add: sample_server_def)
  then have w2: "request_reachable Some ?w2" using request_reachable.step w1 by blast
  have "request_step Some ?w2 waiting_world"
    using request_step.enter [of ?w2 1 42 2000 None "snd (wait_enter 1 42 2000 init_dispatcher)" Some]
    by (simp add: sample_server_def waiting_world_def wait_enter_def init_dispatcher_def MAX_PENDING_def)
  then show ?thesis using request_reachable.step w2 by blast
qed


end
