(* ===== verification/Logger.thy ===== *)
theory Logger
  imports Prelude
begin

text \<open>
  \<open>common/log/Log.hpp\<close>: the process-wide logger that every component writes to. Its mutex makes a
  call one atomic step on the log file and the two console streams. The broken-down local time is
  an argument of the calls. The other theories do not thread this state through their operations:
  no code reads the log back.
\<close>

datatype level = Debug | Info | Warn | Error

fun level_rank :: "level \<Rightarrow> nat" where
  "level_rank Debug = 0"
| "level_rank Info = 1"
| "level_rank Warn = 2"
| "level_rank Error = 3"

lemma level_rank_eq [simp]: "level_rank a = level_rank b \<longleftrightarrow> a = b"
  by (cases a; cases b) simp_all

text \<open>The enumerators compare in the order of their declaration.\<close>

instantiation level :: linorder
begin

definition less_eq_level :: "level \<Rightarrow> level \<Rightarrow> bool" where
  "less_eq_level a b \<longleftrightarrow> level_rank a \<le> level_rank b"

definition less_level :: "level \<Rightarrow> level \<Rightarrow> bool" where
  "less_level a b \<longleftrightarrow> level_rank a < level_rank b"

instance
  by standard (auto simp: less_eq_level_def less_level_def)

end

fun level_to_cstr :: "level \<Rightarrow> string" where
  "level_to_cstr Debug = ''DEBUG''"
| "level_to_cstr Info = ''INFO''"
| "level_to_cstr Warn = ''WARN''"
| "level_to_cstr Error = ''ERROR''"

section \<open>Lines\<close>

record log_time =
  tm_year :: nat
  tm_mon :: nat
  tm_mday :: nat
  tm_hour :: nat
  tm_min :: nat
  tm_sec :: nat
  tm_ms :: nat

text \<open>A decimal number padded with zeros to a width, as \<open>put_time\<close> and \<open>setw\<close> write it.\<close>

definition padded :: "nat \<Rightarrow> nat \<Rightarrow> string" where
  "padded w n = replicate (w - length (nat_to_string n)) (CHR ''0'') @ nat_to_string n"

definition timestamp :: "log_time \<Rightarrow> string" where
  "timestamp t = padded 4 (tm_year t) @ ''-'' @ padded 2 (tm_mon t) @ ''-'' @ padded 2 (tm_mday t) @ '' ''
     @ padded 2 (tm_hour t) @ '':'' @ padded 2 (tm_min t) @ '':'' @ padded 2 (tm_sec t)
     @ ''.'' @ padded 3 (tm_ms t)"

definition log_line :: "log_time \<Rightarrow> level \<Rightarrow> string \<Rightarrow> string \<Rightarrow> string" where
  "log_line t lvl component msg =
     timestamp t @ '' ['' @ level_to_cstr lvl @ '']'' @ '' ['' @ component @ ''] '' @ msg"

section \<open>The logger\<close>

text \<open>\<open>log_file\<close> is the open stream: its path and what was written to it. \<^term>\<open>None\<close> before
  \<open>set_process_name\<close>, or when the file could not be opened.\<close>

record logger =
  process_name :: string
  log_file :: "(string \<times> string) option"
  cout :: string
  cerr :: string

text \<open>\<open>set_process_name\<close> opens \<open>logs/<name>.log\<close> afresh; \<open>ok\<close> is whether it can be opened.\<close>

definition set_process_name :: "bool \<Rightarrow> string \<Rightarrow> logger \<Rightarrow> logger" where
  "set_process_name ok name lg = lg\<lparr>process_name := name,
     log_file := (if ok then Some (''logs/'' @ name @ ''.log'', []) else None)\<rparr>"

definition log_msg :: "log_time \<Rightarrow> string \<Rightarrow> level \<Rightarrow> string \<Rightarrow> logger \<Rightarrow> logger" where
  "log_msg t component lvl msg lg =
     (let line = log_line t lvl component msg @ [nl];
          lg = lg\<lparr>log_file := map_option (\<lambda>(path, text). (path, text @ line)) (log_file lg)\<rparr>
      in if Error \<le> lvl then lg\<lparr>cerr := cerr lg @ line\<rparr> else lg\<lparr>cout := cout lg @ line\<rparr>)"

definition log_info :: "log_time \<Rightarrow> string \<Rightarrow> string \<Rightarrow> logger \<Rightarrow> logger" where
  "log_info t c m = log_msg t c Info m"

definition log_warn :: "log_time \<Rightarrow> string \<Rightarrow> string \<Rightarrow> logger \<Rightarrow> logger" where
  "log_warn t c m = log_msg t c Warn m"

definition log_error :: "log_time \<Rightarrow> string \<Rightarrow> string \<Rightarrow> logger \<Rightarrow> logger" where
  "log_error t c m = log_msg t c Error m"

definition log_debug :: "log_time \<Rightarrow> string \<Rightarrow> string \<Rightarrow> logger \<Rightarrow> logger" where
  "log_debug t c m = log_msg t c Debug m"

section \<open>Reading a log line back\<close>

lemma digits_val_zeros [simp]: "digits_val (replicate k (CHR ''0'') @ s) = digits_val s"
proof -
  have "foldl (\<lambda>n c. 10 * n + digit_val c) 0 (replicate k (CHR ''0'')) = 0"
    by (induction k) (simp_all add: digit_val_def)
  then show ?thesis by (simp add: digits_val_def)
qed

lemma digits_val_padded [simp]: "digits_val (padded w n) = n"
  by (simp add: padded_def)

lemma padded_digits: "c \<in> set (padded w n) \<Longrightarrow> is_digit c"
  using nat_to_string_digits [of n] by (auto simp: padded_def is_digit_def)

text \<open>A run of digits, then a character that is none, determine the digits.\<close>

lemma digit_run_unique:
  assumes "padded w m @ c # s = padded v n @ d # s'" and "\<not> is_digit c" and "\<not> is_digit d"
  shows "m = n \<and> c = d \<and> s = s'"
proof -
  have "takeWhile is_digit (padded w k @ e # u) = padded w k" if "\<not> is_digit e" for w k e u
    using that by (auto simp: takeWhile_append dest: padded_digits)
  then have "padded w m = padded v n" using assms by metis
  with assms(1) digits_val_padded show ?thesis by (metis append_same_eq same_append_eq list.inject)
qed

lemma not_digit [simp]:
  "\<not> is_digit (CHR ''-'')" "\<not> is_digit (CHR '' '')" "\<not> is_digit (CHR '':'')" "\<not> is_digit (CHR ''.'')"
  by (simp_all add: is_digit_def)

lemma timestamp_unique:
  assumes "timestamp t @ '' '' @ s = timestamp t' @ '' '' @ s'"
  shows "t = t' \<and> s = s'"
  using assms
  by (cases t; cases t') (auto simp: timestamp_def dest!: digit_run_unique)

lemma level_unique: "level_to_cstr a @ CHR '']'' # s = level_to_cstr b @ CHR '']'' # s' \<Longrightarrow> a = b \<and> s = s'"
  by (cases a; cases b) auto

lemma bracket_unique:
  assumes "CHR '']'' \<notin> set c" and "CHR '']'' \<notin> set c'" and "c @ CHR '']'' # s = c' @ CHR '']'' # s'"
  shows "c = c' \<and> s = s'"
proof -
  have "length c = length c'"
    using str_find_append [OF assms(1), of s] str_find_append [OF assms(2), of s'] assms(3) by simp
  with assms(3) show ?thesis by auto
qed

text \<open>A log line determines the time, the level, the component and the message it was written for,
  as long as the component's name has no closing bracket, and so for every component of the
  program.\<close>

lemma log_line_unique:
  assumes "log_line t lvl c m = log_line t' lvl' c' m'" and "CHR '']'' \<notin> set c" and "CHR '']'' \<notin> set c'"
  shows "t = t' \<and> lvl = lvl' \<and> c = c' \<and> m = m'"
proof -
  have t: "t = t'" and rest: "level_to_cstr lvl @ CHR '']'' # '' ['' @ c @ ''] '' @ m
      = level_to_cstr lvl' @ CHR '']'' # '' ['' @ c' @ ''] '' @ m'"
    using timestamp_unique [of t "''['' @ level_to_cstr lvl @ '']'' @ '' ['' @ c @ ''] '' @ m" t'
        "''['' @ level_to_cstr lvl' @ '']'' @ '' ['' @ c' @ ''] '' @ m'"] assms(1)
    by (simp_all add: log_line_def)
  from level_unique [OF rest] have "lvl = lvl'" and "c @ CHR '']'' # '' '' @ m = c' @ CHR '']'' # '' '' @ m'"
    by auto
  with bracket_unique [OF assms(2,3), of "'' '' @ m" "'' '' @ m'"] t show ?thesis by simp
qed

definition sample_time :: log_time where
  "sample_time = \<lparr>tm_year = 2026, tm_mon = 3, tm_mday = 9, tm_hour = 8, tm_min = 5, tm_sec = 4, tm_ms = 7\<rparr>"

lemma log_line_unique_example:
  "sample_time = sample_time\<lparr>tm_ms := 7\<rparr> \<and> ''db'' = (''d'' @ ''b'')"
  using log_line_unique [of sample_time Warn "''db''" "''x''" "sample_time\<lparr>tm_ms := 7\<rparr>" Warn "''d'' @ ''b''" "''x''"]
  by (simp add: sample_time_def)

end
