(* ===== verification/Cli.thy ===== *)
theory Cli
  imports Server_Requests
begin

text \<open>
  \<open>server/src/cli/QuantumCommandCli.cpp\<close>: the line parser, the command registry and the session loop
  of the raw TLS port. \<open>std::istringstream\<close> extraction is written out: \<open>>> std::string\<close> skips white
  space and takes a maximal run of other characters, \<open>>> int\<close> takes an optional sign and the longest
  run of digits, stores 0 when there are none and the nearest bound when the value does not fit, and
  fails in both cases; an extraction that finds nothing leaves its target unchanged.
\<close>

section \<open>Stream extraction\<close>

definition next_word :: "string \<Rightarrow> (string \<times> string) option" where
  "next_word s =
     (case dropWhile is_space s of
        [] \<Rightarrow> None
      | t \<Rightarrow> Some (takeWhile (\<lambda>c. \<not> is_space c) t, dropWhile (\<lambda>c. \<not> is_space c) t))"

text \<open>\<^term>\<open>Some (v, ok, rest)\<close>: \<open>v\<close> was stored and the stream is good iff \<open>ok\<close>.\<close>

definition read_int :: "bool \<Rightarrow> string \<Rightarrow> int \<times> bool \<times> string" where
  "read_int neg s =
     (let ds = takeWhile is_digit s; rest = dropWhile is_digit s;
          v = (if neg then - int (digits_val ds) else int (digits_val ds))
      in if ds = [] then (0, False, rest)
         else if v < int32_min then (int32_min, False, rest)
         else if int32_max < v then (int32_max, False, rest)
         else (v, True, rest))"

definition next_int :: "string \<Rightarrow> (int \<times> bool \<times> string) option" where
  "next_int s =
     (case dropWhile is_space s of
        [] \<Rightarrow> None
      | c # cs \<Rightarrow> Some (if c = CHR ''-'' then read_int True cs
                        else if c = CHR ''+'' then read_int False cs
                        else read_int False (c # cs)))"

section \<open>Commands\<close>

record quantum_command =
  cmd :: string
  cmd_id :: int
  attr :: string
  cmd_value :: string
  valid :: bool

definition empty_command :: quantum_command where
  "empty_command = \<lparr>cmd = [], cmd_id = -1, attr = [], cmd_value = [], valid = False\<rparr>"

text \<open>\<open>find_first_not_of\<close> and \<open>find_last_not_of\<close> of \<open>" \t\r\n"\<close>, and the substring between.\<close>

definition trim :: "string \<Rightarrow> string" where
  "trim line = rev (dropWhile is_trim (rev (dropWhile is_trim line)))"

definition parse_words :: "string \<Rightarrow> quantum_command" where
  "parse_words s =
     (let sc = empty_command in
      case next_word s of None \<Rightarrow> sc | Some (w, s) \<Rightarrow>
      let sc = sc\<lparr>cmd := w\<rparr> in
      case next_int s of None \<Rightarrow> sc | Some (i, ok, s) \<Rightarrow>
      let sc = sc\<lparr>cmd_id := i\<rparr> in
      if \<not> ok then sc else
      case next_word s of None \<Rightarrow> sc | Some (w, s) \<Rightarrow>
      let sc = sc\<lparr>attr := w\<rparr> in
      case next_word s of None \<Rightarrow> sc | Some (w, s) \<Rightarrow>
      let sc = sc\<lparr>cmd_value := w\<rparr> in
      case next_word s of None \<Rightarrow> sc\<lparr>valid := True\<rparr> | Some _ \<Rightarrow> sc)"

definition parse_sensor_command :: "string \<Rightarrow> quantum_command" where
  "parse_sensor_command line =
     (if dropWhile is_trim line = [] then empty_command else parse_words (trim line))"

definition show_command :: "quantum_command \<Rightarrow> string" where
  "show_command c =
     (let na = (\<lambda>s. if s = [] then ''N/A'' else s)
      in ''[QuantumCommand] '' @ [nl] @ (if valid c then ''VALID'' else ''INVALID'') @ [nl]
         @ ''  Command: '' @ na (cmd c) @ [nl] @ ''  ID:      '' @ int_to_string (cmd_id c) @ [nl]
         @ ''  Attr:    '' @ na (attr c) @ [nl] @ ''  Value:   '' @ na (cmd_value c))"

section \<open>The registry\<close>

definition REQUEST_TIMEOUT_MS :: int where
  "REQUEST_TIMEOUT_MS = 2000"

fun cli_status_to_string :: "response_status \<Rightarrow> string" where
  "cli_status_to_string SUCCESS = ''SUCCESS''"
| "cli_status_to_string TIMEOUT = ''ERROR: Request Timed Out''"
| "cli_status_to_string DB_ERROR = ''ERROR: Database Failure''"
| "cli_status_to_string SYSTEM_FULL = ''ERROR: Maximum Pending Requests Reached''"
| "cli_status_to_string PENDING = ''PENDING''"

definition cmd_config_ip ::
  "inet_input \<Rightarrow> 'h schedule \<Rightarrow> quantum_command \<Rightarrow> 'h server \<Rightarrow> (exn + string) \<times> 'h server" where
  "cmd_config_ip inet sch sc s =
     (case file_request inet sch (cmd_id sc) (cmd_value sc) s of
        (_, Inl e, s') \<Rightarrow> (Inl e, s')
      | (rid, Inr _, s') \<Rightarrow>
          (case await_answer sch REQUEST_TIMEOUT_MS rid s' of
             Inl e \<Rightarrow> (Inl e, s')
           | Inr (status, s'') \<Rightarrow>
               (Inr (if status = SUCCESS
                     then ''OK: Sensor '' @ int_to_string (cmd_id sc) @ '' updated successfully.''
                     else ''ERROR: '' @ cli_status_to_string status @ '' (ID: '' @ u64_to_string rid @ '')''),
                s'')))"

definition cmd_reboot :: "quantum_command \<Rightarrow> string" where
  "cmd_reboot sc = ''OK: Rebooting sensor '' @ int_to_string (cmd_id sc)"

definition cli_execute ::
  "inet_input \<Rightarrow> 'h schedule \<Rightarrow> quantum_command \<Rightarrow> 'h server \<Rightarrow> (exn + string) \<times> 'h server" where
  "cli_execute inet sch c s =
     (if cmd c = ''CONFIG_IP'' then cmd_config_ip inet sch c s
      else if cmd c = ''REBOOT'' then (Inr (cmd_reboot c), s)
      else (Inr (''Command '' @ [CHR 0x27] @ cmd c @ [CHR 0x27] @ '' not found in registry.''), s))"

section \<open>The session\<close>

text \<open>
  \<open>chunks\<close> is what the successive reads of at most 8192 bytes deliver, each with the schedule its
  command meets; when they are used up the next read throws, as it does on a closed connection. The
  result is how the coroutine ended, and what it wrote.
\<close>

fun cli_session ::
  "inet_input \<Rightarrow> (string \<times> 'h schedule) list \<Rightarrow> 'h server \<Rightarrow> (exn + unit) \<times> string list \<times> 'h server" where
  "cli_session inet [] s = (Inl (Stream_error ''stream truncated''), [], s)"
| "cli_session inet ((chunk, sch) # chunks) s =
     (let c = parse_sensor_command chunk in
      if \<not> valid c \<and> cmd c = ''quit'' then (Inr (), [], s)
      else case cli_execute inet sch c s of
             (Inl e, s') \<Rightarrow> (Inl e, [], s')
           | (Inr response, s') \<Rightarrow>
               (case cli_session inet chunks s' of
                  (r, outs, s'') \<Rightarrow>
                    (r, (if response = [] then outs else (response @ [nl]) # outs), s'')))"

section \<open>The parser\<close>

definition is_word :: "string \<Rightarrow> bool" where
  "is_word w \<longleftrightarrow> w \<noteq> [] \<and> (\<forall>c \<in> set w. \<not> is_space c)"

definition blank :: "string \<Rightarrow> bool" where
  "blank s \<longleftrightarrow> (\<forall>c \<in> set s. is_space c)"

lemma is_word_hd: "is_word w \<Longrightarrow> \<exists>c cs. w = c # cs \<and> \<not> is_space c"
  by (cases w) (auto simp: is_word_def)

lemma dropWhile_blank [simp]: "blank sp \<Longrightarrow> dropWhile is_space (sp @ t) = dropWhile is_space t"
  by (simp add: blank_def dropWhile_append2)

lemma dropWhile_blank_all [simp]: "blank sp \<Longrightarrow> dropWhile is_space sp = []"
  by (simp add: blank_def)

text \<open>A word followed by white space, or by nothing, is extracted whole.\<close>

lemma next_word_word:
  assumes "blank sp" and "is_word w" and "t = [] \<or> is_space (hd t)"
  shows "next_word (sp @ w @ t) = Some (w, t)"
proof -
  obtain c cs where w: "w = c # cs" "\<not> is_space c" using is_word_hd [OF assms(2)] by blast
  have "takeWhile (\<lambda>c. \<not> is_space c) (w @ t) = w" "dropWhile (\<lambda>c. \<not> is_space c) (w @ t) = t"
    using assms(2,3) by (cases t; auto simp: is_word_def takeWhile_append dropWhile_append)+
  then show ?thesis using assms(1) w by (simp add: next_word_def)
qed

lemma next_word_blank [simp]: "blank sp \<Longrightarrow> next_word sp = None"
  by (simp add: next_word_def)

lemma read_int_digits:
  assumes "i = (if neg then - int n else int n)" and "int32_min \<le> i" and "i \<le> int32_max"
    and "t = [] \<or> \<not> is_digit (hd t)"
  shows "read_int neg (nat_to_string n @ t) = (i, True, t)"
proof -
  have "takeWhile is_digit (nat_to_string n @ t) = nat_to_string n"
    "dropWhile is_digit (nat_to_string n @ t) = t"
    using nat_to_string_digits [of n] assms(4)
    by (cases t; auto simp: takeWhile_append dropWhile_append)+
  then show ?thesis using assms(1-3) by (cases neg) (simp_all add: read_int_def Let_def)
qed

lemma nat_string_Cons: "\<exists>c cs. nat_to_string n = c # cs \<and> is_digit c"
  using nat_to_string_digits [of n] by (cases "nat_to_string n") auto

lemma next_int_int:
  assumes "blank sp" and "int32_min \<le> i" and "i \<le> int32_max" and "t = [] \<or> \<not> is_digit (hd t)"
  shows "next_int (sp @ int_to_string i @ t) = Some (i, True, t)"
proof (cases "i < 0")
  case True
  have "read_int True (nat_to_string (nat (- i)) @ t) = (i, True, t)"
    by (rule read_int_digits) (use True assms in simp_all)
  then show ?thesis using True assms(1) by (simp add: next_int_def int_to_string_def is_space_def)
next
  case False
  have r: "read_int False (nat_to_string (nat i) @ t) = (i, True, t)"
    by (rule read_int_digits) (use False assms in simp_all)
  obtain c cs where c: "nat_to_string (nat i) = c # cs" "is_digit c" using nat_string_Cons by blast
  then have "c \<noteq> CHR ''-''" "c \<noteq> CHR ''+''" by (auto simp: is_digit_def)
  with r c False assms(1) is_digit_not_space show ?thesis
    by (simp add: next_int_def int_to_string_def)
qed

text \<open>Trimming only removes blanks, which the extractions skip anyway.\<close>

lemma is_trim_space: "is_trim c \<Longrightarrow> is_space c"
  by (auto simp: is_trim_def is_space_def)

lemma trim_frame:
  assumes "blank pre" and "blank post" and "m \<noteq> []" and "\<not> is_space (hd m)" and "\<not> is_space (last m)"
  obtains pre' post' where "blank pre'" and "blank post'" and "trim (pre @ m @ post) = pre' @ m @ post'"
    and "dropWhile is_trim (pre @ m @ post) \<noteq> []"
proof -
  have suf: "\<exists>b'. blank b' \<and> dropWhile is_trim (b @ x) = b' @ x"
    if "blank b" "x \<noteq> []" "\<not> is_space (hd x)" for b x
  proof -
    have "dropWhile is_trim x = x" using that(2,3) by (cases x) (auto dest: is_trim_space)
    then show ?thesis
      using that(1) by (intro exI [of _ "dropWhile is_trim b"])
        (auto simp: blank_def dropWhile_append dest: set_dropWhileD)
  qed
  obtain pre' where pre': "blank pre'" "dropWhile is_trim (pre @ m @ post) = pre' @ m @ post"
    using suf [of pre "m @ post"] assms by (auto simp: hd_append)
  obtain post' where post': "blank post'" "dropWhile is_trim (rev post @ rev (pre' @ m)) = post' @ rev (pre' @ m)"
    using suf [of "rev post" "rev (pre' @ m)"] assms by (auto simp: blank_def hd_rev hd_append)
  show thesis
    by (rule that [of pre' "rev post'"]) (use pre' post' assms(3) in \<open>simp_all add: trim_def blank_def\<close>)
qed

lemma is_word_ends: "is_word w \<Longrightarrow> w \<noteq> [] \<and> \<not> is_space (hd w) \<and> \<not> is_space (last w)"
  by (cases w) (auto simp: is_word_def)

text \<open>C31: a line of four fields is parsed into them, whatever blanks surround and separate them. The
  blank between the number and the attribute may be missing as long as the attribute does not start
  with a digit.\<close>

theorem parse_command_line:
  assumes "blank pre" and "blank post" and "is_word w" and "is_word a" and "is_word v"
    and "blank s1" and "s1 \<noteq> []" and "blank s2" and "blank s3" and "s3 \<noteq> []"
    and "int32_min \<le> i" and "i \<le> int32_max" and "s2 \<noteq> [] \<or> \<not> is_digit (hd a)"
  shows "parse_sensor_command (pre @ (w @ s1 @ int_to_string i @ s2 @ a @ s3 @ v) @ post)
    = \<lparr>cmd = w, cmd_id = i, attr = a, cmd_value = v, valid = True\<rparr>"
proof -
  let ?m = "w @ s1 @ int_to_string i @ s2 @ a @ s3 @ v"
  obtain pre' post' where tr: "blank pre'" "blank post'" "trim (pre @ ?m @ post) = pre' @ ?m @ post'"
    and ne: "dropWhile is_trim (pre @ ?m @ post) \<noteq> []"
    using trim_frame [OF assms(1,2), of ?m] is_word_ends [OF assms(3)] is_word_ends [OF assms(5)]
    by (auto simp: hd_append)
  have sp: "blank s \<Longrightarrow> s \<noteq> [] \<Longrightarrow> is_space (hd (s @ t))" for s t by (cases s) (auto simp: blank_def)
  have "\<not> is_digit (hd (s2 @ a @ s3 @ v @ post'))"
    using assms(13) sp [OF assms(8)] is_digit_not_space is_word_ends [OF assms(4)] by (cases s2) auto
  then have int: "next_int (s1 @ int_to_string i @ s2 @ a @ s3 @ v @ post') = Some (i, True, s2 @ a @ s3 @ v @ post')"
    using assms by (intro next_int_int) auto
  have "next_word (pre' @ w @ s1 @ int_to_string i @ s2 @ a @ s3 @ v @ post')
      = Some (w, s1 @ int_to_string i @ s2 @ a @ s3 @ v @ post')"
    using tr(1) assms(3) sp [OF assms(6,7)] by (intro next_word_word) auto
  moreover have "next_word (s2 @ a @ s3 @ v @ post') = Some (a, s3 @ v @ post')"
    using assms sp [OF assms(9,10)] by (intro next_word_word) auto
  moreover have "post' = [] \<or> is_space (hd post')" using tr(2) by (cases post') (auto simp: blank_def)
  then have "next_word (s3 @ v @ post') = Some (v, post')"
    using assms by (intro next_word_word)
  ultimately show ?thesis
    using tr ne int by (simp add: parse_sensor_command_def parse_words_def empty_command_def)
qed

theorem parse_command_line_witness:
  "parse_sensor_command ('' '' @ (''CONFIG_IP'' @ '' '' @ int_to_string 12 @ '''' @ ''ip'' @ ''  '' @ ''10.0.0.9'') @ [nl])
    = \<lparr>cmd = ''CONFIG_IP'', cmd_id = 12, attr = ''ip'', cmd_value = ''10.0.0.9'', valid = True\<rparr>"
  by (rule parse_command_line) (simp_all add: blank_def is_word_def is_space_def is_digit_def)

text \<open>Whatever the line, what the parser returns is well-formed.\<close>

lemma next_word_SomeE:
  assumes "next_word s = Some (w, t)"
  shows "is_word w"
  using assms
  by (auto simp: next_word_def is_word_def dropWhile_eq_Cons_conv split: list.splits dest: set_takeWhileD)

lemma next_int_range:
  assumes "next_int s = Some (i, ok, t)"
  shows "int32_min \<le> i \<and> i \<le> int32_max"
  using assms by (auto simp: next_int_def read_int_def Let_def split: list.splits if_splits)

definition command_ok :: "quantum_command \<Rightarrow> bool" where
  "command_ok c \<longleftrightarrow> int32_min \<le> cmd_id c \<and> cmd_id c \<le> int32_max
     \<and> (cmd c = [] \<or> is_word (cmd c)) \<and> (attr c = [] \<or> is_word (attr c))
     \<and> (cmd_value c = [] \<or> is_word (cmd_value c))
     \<and> (valid c \<longrightarrow> is_word (cmd c) \<and> is_word (attr c) \<and> is_word (cmd_value c))"

text \<open>For every line, the parsed id is a 32-bit integer, no field contains white space, and in a
  command marked valid no field is missing.\<close>

lemma parsed_command_ok: "command_ok (parse_sensor_command line)"
  by (auto simp: parse_sensor_command_def parse_words_def empty_command_def command_ok_def Let_def
      split: option.splits prod.splits dest!: next_word_SomeE next_int_range)

section \<open>Execution\<close>

text \<open>The outcome of \<open>CONFIG_IP\<close>: the reply is the success line exactly when the last answer
  dispatched for the id drawn for the request was \<open>SUCCESS\<close>, and carries the status and the id
  otherwise; the tables are as the request left them.\<close>

lemma cli_config_ip_reply:
  assumes "file_request inet sch (cmd_id c) (cmd_value c) s = (rid, Inr (), s1)"
    and "rendezvous_ok sch rid s1" and "cmd c = ''CONFIG_IP''"
  shows "\<exists>s2. cli_execute inet sch c s =
      (Inr (case last_answer rid (sch_during sch) of
              Some SUCCESS \<Rightarrow> ''OK: Sensor '' @ int_to_string (cmd_id c) @ '' updated successfully.''
            | Some st \<Rightarrow> ''ERROR: '' @ status_to_string st @ '' (ID: '' @ u64_to_string rid @ '')''
            | None \<Rightarrow> ''ERROR: ERROR: Request Timed Out (ID: '' @ u64_to_string rid @ '')''), s2)
    \<and> srv_db s2 = srv_db s1"
proof -
  have same: "cli_status_to_string st = status_to_string st" for st by (cases st) simp_all
  from await_answer_status [OF assms(2), of REQUEST_TIMEOUT_MS] assms(1,3) show ?thesis
    by (auto simp: cli_execute_def cmd_config_ip_def same split: option.splits response_status.splits)
qed

definition quiet_schedule :: "disp_event list \<Rightarrow> 'h schedule" where
  "quiet_schedule evs = \<lparr>sch_thread = 1, sch_db = (\<lambda>st. st), sch_early = [], sch_during = evs\<rparr>"

lemma quiet_rendezvous:
  assumes "disp_reachable (srv_disp s)" and "pending_requests (srv_disp s) = []" and "contexts (srv_disp s) = []"
    and "list_all (ev_ok 1 rid) evs"
  shows "rendezvous_ok (quiet_schedule evs) rid s"
  using assms disp_reachable_inv
  by (simp add: rendezvous_ok_def quiet_schedule_def channel_usable_def id_free_def MAX_PENDING_def)

lemma sample_rendezvous:
  "list_all (ev_ok 1 rid) evs \<Longrightarrow> srv_disp s = init_dispatcher \<Longrightarrow> rendezvous_ok (quiet_schedule evs) rid s"
  by (rule quiet_rendezvous) (use disp_reachable.init in \<open>simp_all add: init_dispatcher_def\<close>)

definition sample_command :: quantum_command where
  "sample_command = \<lparr>cmd = ''CONFIG_IP'', cmd_id = 1, attr = ''ip'', cmd_value = ''10.0.0.9'', valid = True\<rparr>"

lemma sample_file_request:
  "\<exists>s1. file_request Some (quiet_schedule evs) 1 ''10.0.0.9'' sample_server = (42, Inr (), s1)
    \<and> srv_disp s1 = init_dispatcher"
  by (simp add: file_request_def quiet_schedule_def sample_server_def sample_request_simps Let_def
      int_to_string_def nat_to_string.simps)

lemma cli_config_ip_reply_example:
  "\<exists>s2. cli_execute Some (quiet_schedule [Ev_dispatch 42 SUCCESS]) sample_command sample_server
    = (Inr (''OK: Sensor '' @ int_to_string 1 @ '' updated successfully.''), s2)"
proof -
  let ?sch = "quiet_schedule [Ev_dispatch 42 SUCCESS]"
  obtain s1 where s1: "file_request Some ?sch 1 ''10.0.0.9'' sample_server = (42, Inr (), s1)"
    "srv_disp s1 = init_dispatcher" using sample_file_request by blast
  have "rendezvous_ok ?sch 42 s1" using s1(2) by (intro sample_rendezvous) simp_all
  from cli_config_ip_reply [of Some ?sch sample_command sample_server 42 s1] this s1(1) show ?thesis
    by (auto simp: sample_command_def last_answer_def quiet_schedule_def)
qed

text \<open>Validity is not checked before execution. A line that is only a command name, with blanks
  around it, is marked invalid and runs all the same, on sensor -1; for \<open>CONFIG_IP\<close> this reaches the
  database with that number and an empty address.\<close>

lemma invalid_line_is_executed:
  assumes "blank pre" and "blank post" and "is_word w"
  shows "\<not> valid (parse_sensor_command (pre @ w @ post))
    \<and> (w = ''REBOOT'' \<longrightarrow> cli_execute inet sch (parse_sensor_command (pre @ w @ post)) s
         = (Inr ''OK: Rebooting sensor -1'', s))
    \<and> (w = ''CONFIG_IP'' \<longrightarrow> cli_execute inet sch (parse_sensor_command (pre @ w @ post)) s
         = cmd_config_ip inet sch \<lparr>cmd = w, cmd_id = -1, attr = [], cmd_value = [], valid = False\<rparr> s)"
proof -
  obtain pre' post' where tr: "blank pre'" "blank post'" "trim (pre @ w @ post) = pre' @ w @ post'"
    and ne: "dropWhile is_trim (pre @ w @ post) \<noteq> []"
    using trim_frame [OF assms(1,2), of w] is_word_ends [OF assms(3)] by auto
  have "post' = [] \<or> is_space (hd post')" using tr(2) by (cases post') (auto simp: blank_def)
  then have "next_word (pre' @ w @ post') = Some (w, post')"
    using tr(1) assms(3) by (intro next_word_word)
  moreover have "next_int post' = None" using tr(2) by (simp add: next_int_def)
  moreover have "parse_sensor_command (pre @ w @ post) = parse_words (trim (pre @ w @ post))"
    using ne unfolding parse_sensor_command_def by (rule if_not_P)
  ultimately have parse: "parse_sensor_command (pre @ w @ post)
      = \<lparr>cmd = w, cmd_id = -1, attr = [], cmd_value = [], valid = False\<rparr>"
    using tr by (simp add: parse_words_def empty_command_def)
  have "cmd_reboot \<lparr>cmd = n, cmd_id = -1, attr = [], cmd_value = [], valid = False\<rparr> = ''OK: Rebooting sensor -1''" for n
    by (simp add: cmd_reboot_def int_to_string_def nat_to_string.simps)
  then show ?thesis unfolding parse by (simp add: cli_execute_def)
qed

lemma invalid_line_is_executed_example:
  "cli_execute Some (quiet_schedule []) (parse_sensor_command ([] @ ''REBOOT'' @ [nl])) sample_server
    = (Inr ''OK: Rebooting sensor -1'', sample_server)"
  using invalid_line_is_executed [of "[]" "[nl]" "''REBOOT''" Some "quiet_schedule []" sample_server]
  by (simp add: blank_def is_word_def is_space_def)

definition is_quit :: "string \<Rightarrow> bool" where
  "is_quit chunk \<longleftrightarrow> \<not> valid (parse_sensor_command chunk) \<and> cmd (parse_sensor_command chunk) = ''quit''"

lemma cmd_config_ip_reply_not_empty: "cmd_config_ip inet sch c s = (Inr r, s') \<Longrightarrow> r \<noteq> []"
  by (auto simp: cmd_config_ip_def split: prod.splits sum.splits if_splits)

lemma cli_execute_reply_not_empty: "cli_execute inet sch c s = (Inr r, s') \<Longrightarrow> r \<noteq> []"
  by (auto simp: cli_execute_def cmd_reboot_def dest: cmd_config_ip_reply_not_empty split: if_splits)

lemma cli_session_shape:
  "cli_session inet chunks s = (r, outs, s') \<Longrightarrow>
    \<exists>served rest. chunks = served @ rest \<and> length outs = length served
      \<and> (\<forall>c \<in> fst ` set served. \<not> is_quit c) \<and> (\<forall>out \<in> set outs. \<exists>reply. reply \<noteq> [] \<and> out = reply @ [nl])
      \<and> (r = Inr () \<longrightarrow> rest \<noteq> [] \<and> is_quit (fst (hd rest)))"
proof (induction inet chunks s arbitrary: r outs s' rule: cli_session.induct)
  case (1 inet s)
  then show ?case by auto
next
  case (2 inet chunk sch chunks s)
  show ?case
  proof (cases "is_quit chunk")
    case True
    with "2.prems" show ?thesis
      by (intro exI [of _ "[]"] exI [of _ "(chunk, sch) # chunks"]) (simp add: is_quit_def Let_def)
  next
    case noquit: False
    obtain x s1 where ex: "cli_execute inet sch (parse_sensor_command chunk) s = (x, s1)" by fastforce
    show ?thesis
    proof (cases x)
      case (Inl e)
      with "2.prems" noquit ex show ?thesis
        by (intro exI [of _ "[]"] exI [of _ "(chunk, sch) # chunks"]) (auto simp: is_quit_def Let_def split: if_splits)
    next
      case (Inr reply)
      obtain outs1 where rec: "cli_session inet chunks s1 = (r, outs1, s')"
        and outs: "outs = (reply @ [nl]) # outs1"
        using "2.prems" noquit ex Inr cli_execute_reply_not_empty [of inet sch _ s reply s1]
        by (fastforce simp: is_quit_def Let_def split: prod.splits)
      have "\<exists>served rest. chunks = served @ rest \<and> length outs1 = length served
          \<and> (\<forall>c \<in> fst ` set served. \<not> is_quit c) \<and> (\<forall>out \<in> set outs1. \<exists>reply. reply \<noteq> [] \<and> out = reply @ [nl])
          \<and> (r = Inr () \<longrightarrow> rest \<noteq> [] \<and> is_quit (fst (hd rest)))"
        by (rule "2.IH" [OF refl _ _ _ rec]) (use noquit ex Inr in \<open>simp_all add: is_quit_def\<close>)
      then obtain served rest where ih: "chunks = served @ rest" "length outs1 = length served"
          "\<forall>c \<in> fst ` set served. \<not> is_quit c" "\<forall>out \<in> set outs1. \<exists>reply. reply \<noteq> [] \<and> out = reply @ [nl]"
          "r = Inr () \<longrightarrow> rest \<noteq> [] \<and> is_quit (fst (hd rest))"
        by blast
      with noquit outs ex Inr cli_execute_reply_not_empty [of inet sch _ s reply s1] show ?thesis
        by (intro exI [of _ "(chunk, sch) # served"] exI [of _ rest]) auto
    qed
  qed
qed

text \<open>One reply per command. When a session ends normally, its input was some commands, none of them
  \<open>quit\<close>, then an invalid line whose command is \<open>quit\<close>, and it wrote one non-empty line for each of
  those commands, and nothing for what follows.\<close>

lemma cli_session_replies:
  assumes "cli_session inet chunks s = (Inr (), outs, s')"
  shows "\<exists>served quit rest. chunks = served @ quit # rest \<and> is_quit (fst quit)
    \<and> (\<forall>c \<in> fst ` set served. \<not> is_quit c) \<and> length outs = length served
    \<and> (\<forall>out \<in> set outs. \<exists>reply. reply \<noteq> [] \<and> out = reply @ [nl])"
proof -
  obtain served rest where shape: "chunks = served @ rest" "length outs = length served"
      "\<forall>c \<in> fst ` set served. \<not> is_quit c" "\<forall>out \<in> set outs. \<exists>reply. reply \<noteq> [] \<and> out = reply @ [nl]"
      "rest \<noteq> []" "is_quit (fst (hd rest))"
    using cli_session_shape [OF assms] by auto
  then obtain q qs where "rest = q # qs" by (cases rest) auto
  with shape show ?thesis by (intro exI [of _ served] exI [of _ q] exI [of _ qs]) auto
qed

lemma cli_session_replies_example:
  "\<exists>outs. cli_session Some [(''REBOOT'', quiet_schedule []), (''quit'', quiet_schedule []), (''x'', quiet_schedule [])]
      sample_server = (Inr (), outs, sample_server) \<and> length outs = 1"
proof -
  let ?chunks = "[(''REBOOT'', quiet_schedule []), (''quit'', quiet_schedule []), (''x'', quiet_schedule [])]"
  let ?run = "cli_session Some ?chunks sample_server"
  have run: "?run = (Inr (), [''OK: Rebooting sensor -1'' @ [nl]], sample_server)"
    by (simp add: parse_sensor_command_def parse_words_def empty_command_def trim_def is_trim_def
        next_word_def next_int_def is_space_def cli_execute_def cmd_reboot_def int_to_string_def
        nat_to_string.simps)
  have "\<not> is_quit ''REBOOT''" "is_quit ''quit''"
    by (simp_all add: is_quit_def parse_sensor_command_def parse_words_def empty_command_def trim_def
        is_trim_def next_word_def next_int_def is_space_def)
  with run cli_session_replies [OF run] show ?thesis by simp
qed

end
