(* ===== verification/Http.thy ===== *)
theory Http
  imports Server_Requests Jwt
begin

text \<open>
  \<open>server/src/http/QuantumSafeHttp.cpp\<close>: static files, the JSON API and its bearer-token guard, and
  the keep-alive loop of a session. Beast's parsed request is a record; \<open>keep_alive\<close> is what Beast
  derives from the version and the \<open>Connection\<close> header, and setting it on a response that carries a
  length makes the response's own \<open>keep_alive()\<close> return it. The file system is a parameter.
\<close>

section \<open>Messages\<close>

datatype verb = Get | Head | Post | Other_verb string

record http_request =
  req_method :: verb
  req_target :: string
  req_version :: nat
  req_keep_alive :: bool
  req_authorization :: "string option"
  req_body :: string

datatype http_body = Text_body string | Length_only nat | File_body string

record http_response =
  res_status :: nat
  res_version :: nat
  res_server :: string
  res_content_type :: string
  res_www_authenticate :: "string option"
  res_keep_alive :: bool
  res_body :: http_body

datatype file_result = Opened string | No_such_file | Open_error string

type_synonym file_system = "string \<Rightarrow> file_result"

text \<open>The members of \<open>QuantumSafeHttp\<close>: null pointers are \<^term>\<open>None\<close> or \<^term>\<open>False\<close>.\<close>

record ('sk, 'pk) http_handler =
  connection_details_provider :: "string option"
  document_root :: string
  has_dispatcher :: bool
  has_db :: bool
  jwt :: "('sk, 'pk) jwt_manager option"
  server_name :: string

definition set_connection_details_provider ::
  "string option \<Rightarrow> ('sk, 'pk) http_handler \<Rightarrow> ('sk, 'pk) http_handler" where
  "set_connection_details_provider provider H = H\<lparr>connection_details_provider := provider\<rparr>"

definition set_document_root :: "string \<Rightarrow> ('sk, 'pk) http_handler \<Rightarrow> ('sk, 'pk) http_handler" where
  "set_document_root dir H = H\<lparr>document_root := dir\<rparr>"

section \<open>Responses\<close>

definition response ::
  "('sk, 'pk) http_handler \<Rightarrow> http_request \<Rightarrow> nat \<Rightarrow> string \<Rightarrow> http_body \<Rightarrow> http_response" where
  "response H req status content_type body =
     \<lparr>res_status = status, res_version = req_version req, res_server = server_name H,
      res_content_type = content_type, res_www_authenticate = None,
      res_keep_alive = req_keep_alive req, res_body = body\<rparr>"

definition unauthorized :: "('sk, 'pk) http_handler \<Rightarrow> http_request \<Rightarrow> string \<Rightarrow> http_response" where
  "unauthorized H req why =
     (response H req 401 ''application/json'' (Text_body why))\<lparr>res_www_authenticate := Some ''Bearer''\<rparr>"

definition bad_request :: "('sk, 'pk) http_handler \<Rightarrow> http_request \<Rightarrow> string \<Rightarrow> http_response" where
  "bad_request H req why = response H req 400 ''text/plain'' (Text_body why)"

definition not_found :: "('sk, 'pk) http_handler \<Rightarrow> http_request \<Rightarrow> http_response" where
  "not_found H req = response H req 404 ''text/plain'' (Text_body (req_target req))"

definition server_error :: "('sk, 'pk) http_handler \<Rightarrow> http_request \<Rightarrow> string \<Rightarrow> http_response" where
  "server_error H req why = response H req 500 ''text/plain'' (Text_body (''An error occurred: '' @ why))"

definition success_text :: "('sk, 'pk) http_handler \<Rightarrow> http_request \<Rightarrow> string \<Rightarrow> string \<Rightarrow> http_response" where
  "success_text H req body content_type = response H req 200 content_type (Text_body body)"

definition success_head :: "('sk, 'pk) http_handler \<Rightarrow> http_request \<Rightarrow> nat \<Rightarrow> string \<Rightarrow> http_response" where
  "success_head H req n content_type = response H req 200 content_type (Length_only n)"

definition success_file :: "('sk, 'pk) http_handler \<Rightarrow> http_request \<Rightarrow> string \<Rightarrow> string \<Rightarrow> http_response" where
  "success_file H req file content_type = response H req 200 content_type (File_body file)"

lemmas response_defs = unauthorized_def bad_request_def not_found_def server_error_def success_text_def
  success_head_def success_file_def response_def

section \<open>Static files\<close>

text \<open>\<open>boost::beast::iequals\<close> compares ASCII letters without case.\<close>

definition to_lower :: "char \<Rightarrow> char" where
  "to_lower c = (if (65::nat) \<le> of_char c \<and> of_char c \<le> (90::nat) then char_of (of_char c + (32::nat)) else c)"

definition iequals :: "string \<Rightarrow> string \<Rightarrow> bool" where
  "iequals a b \<longleftrightarrow> map to_lower a = map to_lower b"

definition mime_ext :: "string \<Rightarrow> string" where
  "mime_ext path = (case str_rfind (CHR ''.'') path of None \<Rightarrow> [] | Some pos \<Rightarrow> drop pos path)"

definition mime_type :: "string \<Rightarrow> string" where
  "mime_type path =
     (let ext = mime_ext path in
      if iequals ext ''.htm'' \<or> iequals ext ''.html'' then ''text/html''
      else if iequals ext ''.css'' then ''text/css''
      else if iequals ext ''.txt'' then ''text/plain''
      else if iequals ext ''.js'' then ''application/javascript''
      else if iequals ext ''.json'' then ''application/json''
      else if iequals ext ''.png'' then ''image/png''
      else if iequals ext ''.jpe'' \<or> iequals ext ''.jpeg'' \<or> iequals ext ''.jpg'' then ''image/jpeg''
      else if iequals ext ''.gif'' then ''image/gif''
      else if iequals ext ''.ico'' then ''image/vnd.microsoft.icon''
      else if iequals ext ''.svg'' \<or> iequals ext ''.svgz'' then ''image/svg+xml''
      else ''application/text'')"

definition path_cat :: "string \<Rightarrow> string \<Rightarrow> string" where
  "path_cat base path =
     (if base = [] then path
      else (if last base = CHR ''/'' then butlast base else base) @ path)"

definition legal_target :: "string \<Rightarrow> bool" where
  "legal_target target \<longleftrightarrow> \<not> (target = [] \<or> hd target \<noteq> CHR ''/'' \<or> contains_str ''..'' target)"

definition handle_request ::
  "('sk, 'pk) http_handler \<Rightarrow> file_system \<Rightarrow> http_request \<Rightarrow> http_response" where
  "handle_request H fs req =
     (if req_method req \<noteq> Get \<and> req_method req \<noteq> Head then bad_request H req ''Unknown HTTP-method''
      else if \<not> legal_target (req_target req) then bad_request H req ''Illegal request-target''
      else
        let path = path_cat (document_root H) (req_target req);
            path = (if last (req_target req) = CHR ''/'' then path @ ''index.html'' else path)
        in case fs (c_str_copy path) of
             No_such_file \<Rightarrow> not_found H req
           | Open_error msg \<Rightarrow> server_error H req msg
           | Opened file \<Rightarrow>
               if req_method req = Head then success_head H req (length file) (mime_type path)
               else success_file H req file (mime_type path))"

section \<open>The API\<close>

definition json_text_error :: "string \<Rightarrow> string" where
  "json_text_error message =
     ''{'' @ [dq] @ ''status'' @ [dq] @ '':'' @ [dq] @ ''error'' @ [dq] @ '','' @ [dq] @ ''message'' @ [dq]
       @ '':'' @ [dq] @ message @ [dq] @ ''}''"

text \<open>\<open>require_auth\<close>: \<^term>\<open>Inl why\<close> is \<open>false\<close> with \<open>out_error\<close>.\<close>

definition require_auth ::
  "('sk, 'pk) jwt_lib \<Rightarrow> ('sk, 'pk) http_handler \<Rightarrow> u64 \<Rightarrow> http_request \<Rightarrow> string + jwt_claims" where
  "require_auth L H nw req =
     (case jwt H of
        None \<Rightarrow> Inl ''JWT authentication not configured''
      | Some j \<Rightarrow>
          (case req_authorization req of
             None \<Rightarrow> Inl ''Missing Authorization header''
           | Some auth_value \<Rightarrow>
               if length auth_value \<le> length ''Bearer '' \<or> take (length ''Bearer '') auth_value \<noteq> ''Bearer ''
               then Inl ''Authorization header must use Bearer scheme''
               else (case jwt_verify L j nw (drop (length ''Bearer '') auth_value) of
                       None \<Rightarrow> Inl ''Invalid or expired token''
                     | Some claims \<Rightarrow> Inr claims)))"

text \<open>The \<open>try\<close> block of \<open>handle_login\<close>: \<^term>\<open>Inr None\<close> is the early return for a missing field.\<close>

definition login_fields :: "('sk, 'pk) jwt_lib \<Rightarrow> string \<Rightarrow> exn + (string \<times> string) option" where
  "login_fields L body =
     sbind (j_parse L body) (\<lambda>v.
     sbind (as_object v) (\<lambda>obj.
       if \<not> obj_contains obj ''username'' \<or> \<not> obj_contains obj ''password'' then Inr None
       else
         sbind (sbind (obj_at obj ''username'') as_string) (\<lambda>username.
         sbind (sbind (obj_at obj ''password'') as_string) (\<lambda>password.
           Inr (Some (username, password))))))"

definition handle_login ::
  "('sk, 'pk) jwt_lib \<Rightarrow> ('sk, 'pk) http_handler \<Rightarrow> u64 \<Rightarrow> http_request \<Rightarrow> http_response" where
  "handle_login L H nw req =
     (case jwt H of
        None \<Rightarrow> server_error H req ''JWT authentication not configured''
      | Some j \<Rightarrow>
          (case login_fields L (req_body req) of
             Inl e \<Rightarrow> bad_request H req (json_text_error ''Invalid JSON body'')
           | Inr None \<Rightarrow> bad_request H req (json_text_error ''Missing username or password'')
           | Inr (Some (username, password)) \<Rightarrow>
               if username \<noteq> ''admin'' \<or> password \<noteq> ''admin''
               then unauthorized H req (j_serialize L (JObject
                      (obj_set ''message'' (JString ''Invalid credentials'')
                        (obj_set ''status'' (JString ''error'') []))))
               else
                 let token = jwt_generate L j nw username ''admin'' 3600 in
                 success_text H req (j_serialize L (JObject
                   (obj_set ''expires_in'' (JInt64 3600)
                     (obj_set ''token'' (JString token)
                       (obj_set ''status'' (JString ''success'') []))))) ''application/json''))"

fun http_status_to_string :: "response_status \<Rightarrow> string" where
  "http_status_to_string SUCCESS = ''SUCCESS''"
| "http_status_to_string TIMEOUT = ''Request Timed Out''"
| "http_status_to_string DB_ERROR = ''Database Failure''"
| "http_status_to_string SYSTEM_FULL = ''Maximum Pending Requests Reached''"
| "http_status_to_string PENDING = ''PENDING''"

definition HTTP_TIMEOUT_MS :: int where
  "HTTP_TIMEOUT_MS = 2000"

text \<open>
  The first \<open>try\<close> block of \<open>config_ip\<close>: \<^term>\<open>Inr (Inl field)\<close> is the early return for a missing
  field. \<open>static_cast<int>\<close> keeps the low 32 bits of the sensor id, and \<open>.c_str()\<close> stops the address
  at its first NUL.
\<close>

definition config_ip_fields :: "('sk, 'pk) jwt_lib \<Rightarrow> string \<Rightarrow> exn + (string + (int \<times> string))" where
  "config_ip_fields L body =
     sbind (j_parse L body) (\<lambda>v.
     sbind (as_object v) (\<lambda>obj.
       if \<not> obj_contains obj ''sensor_id'' then Inr (Inl ''sensor_id'')
       else if \<not> obj_contains obj ''ip'' then Inr (Inl ''ip'')
       else
         sbind (sbind (obj_at obj ''sensor_id'') as_int64) (\<lambda>sensor_id.
         sbind (sbind (obj_at obj ''ip'') as_string) (\<lambda>ip.
           Inr (Inr (to_int32 sensor_id, c_str_copy ip))))))"

definition config_ip_ok_body :: "int \<Rightarrow> u64 \<Rightarrow> json" where
  "config_ip_ok_body sensor_id rid = JObject
     (obj_set ''message'' (JString (''Sensor '' @ int_to_string sensor_id @ '' updated successfully''))
       (obj_set ''request_id'' (JInt64 (to_int64 rid))
         (obj_set ''sensor_id'' (JInt64 sensor_id)
           (obj_set ''status'' (JString ''success'') []))))"

definition config_ip_fail_body :: "int \<Rightarrow> u64 \<Rightarrow> response_status \<Rightarrow> json" where
  "config_ip_fail_body sensor_id rid status = JObject
     (obj_set ''message'' (JString (http_status_to_string status))
       (obj_set ''request_id'' (JInt64 (to_int64 rid))
         (obj_set ''sensor_id'' (JInt64 sensor_id)
           (obj_set ''status'' (JString ''error'') []))))"

definition config_ip_db_error_body :: "u64 \<Rightarrow> exn \<Rightarrow> json" where
  "config_ip_db_error_body rid e = JObject
     (obj_set ''request_id'' (JInt64 (to_int64 rid))
       (obj_set ''message'' (JString (''Database error: '' @ what e))
         (obj_set ''status'' (JString ''error'') [])))"

definition config_ip ::
  "inet_input \<Rightarrow> ('sk, 'pk) jwt_lib \<Rightarrow> ('sk, 'pk) http_handler \<Rightarrow> 'h schedule \<Rightarrow> http_request \<Rightarrow> 'h server
    \<Rightarrow> (exn + http_response) \<times> 'h server" where
  "config_ip inet L H sch req s =
     (if \<not> has_dispatcher H \<or> \<not> has_db H
      then (Inr (server_error H req ''Dispatcher or database not configured''), s)
      else case config_ip_fields L (req_body req) of
        Inl e \<Rightarrow> (Inr (bad_request H req (''Invalid JSON body: '' @ what e)), s)
      | Inr (Inl field) \<Rightarrow>
          (Inr (bad_request H req (json_text_error (''Missing required field: '' @ field))), s)
      | Inr (Inr (sensor_id, ip)) \<Rightarrow>
          (case file_request inet sch sensor_id ip s of
             (rid, Inl e, s') \<Rightarrow>
               (if is_std_exception e
                then Inr (server_error H req (j_serialize L (config_ip_db_error_body rid e)))
                else Inl e, s')
           | (rid, Inr _, s') \<Rightarrow>
               (case await_answer sch HTTP_TIMEOUT_MS rid s' of
                  Inl e \<Rightarrow> (Inl e, s')
                | Inr (status, s'') \<Rightarrow>
                    (Inr (if status = SUCCESS
                          then success_text H req (j_serialize L (config_ip_ok_body sensor_id rid)) ''application/json''
                          else response H req 503 ''application/json''
                                 (Text_body (j_serialize L (config_ip_fail_body sensor_id rid status)))),
                     s''))))"

text \<open>What one request meets: the clock, the file system, and the rest of the system.\<close>

record 'h http_env =
  env_now :: u64
  env_fs :: file_system
  env_sched :: "'h schedule"

definition handle_api_request ::
  "inet_input \<Rightarrow> ('sk, 'pk) jwt_lib \<Rightarrow> ('sk, 'pk) http_handler \<Rightarrow> 'h http_env \<Rightarrow> http_request \<Rightarrow> 'h server
    \<Rightarrow> (exn + http_response) \<times> 'h server" where
  "handle_api_request inet L H env req s =
     (if req_target req = ''/api/auth/login'' \<and> req_method req = Post
      then (Inr (handle_login L H (env_now env) req), s)
      else case require_auth L H (env_now env) req of
        Inl why \<Rightarrow> (Inr (unauthorized H req why), s)
      | Inr claims \<Rightarrow>
          if req_target req = ''/api/connection_details'' \<and> req_method req = Get
          then (Inr (case connection_details_provider H of
                       None \<Rightarrow> server_error H req ''Connection details provider is not configured''
                     | Some details \<Rightarrow> success_text H req details ''application/json''), s)
          else if req_target req = ''/api/config_ip'' \<and> req_method req = Post
          then config_ip inet L H (env_sched env) req s
          else (Inr (not_found H req), s))"

section \<open>The session\<close>

definition handle_one ::
  "inet_input \<Rightarrow> ('sk, 'pk) jwt_lib \<Rightarrow> ('sk, 'pk) http_handler \<Rightarrow> 'h http_env \<Rightarrow> http_request \<Rightarrow> 'h server
    \<Rightarrow> (exn + http_response) \<times> 'h server" where
  "handle_one inet L H env req s =
     (if prefix ''/api'' (req_target req) then handle_api_request inet L H env req s
      else (Inr (handle_request H (env_fs env) req), s))"

text \<open>The requests the stream delivers, one by one; after the last one the next read throws.\<close>

fun http_session ::
  "inet_input \<Rightarrow> ('sk, 'pk) jwt_lib \<Rightarrow> ('sk, 'pk) http_handler \<Rightarrow> (http_request \<times> 'h http_env) list \<Rightarrow> 'h server
    \<Rightarrow> (exn + unit) \<times> http_response list \<times> 'h server" where
  "http_session inet L H [] s = (Inl (Stream_error ''end of stream''), [], s)"
| "http_session inet L H ((req, env) # reqs) s =
     (case handle_one inet L H env req s of
        (Inl e, s') \<Rightarrow> (Inl e, [], s')
      | (Inr res, s') \<Rightarrow>
          if \<not> res_keep_alive res then (Inr (), [res], s')
          else (case http_session inet L H reqs s' of (r, out, s'') \<Rightarrow> (r, res # out, s'')))"

section \<open>Authorisation\<close>

lemma response_fields [simp]:
  "res_status (response H req st ct b) = st" "res_version (response H req st ct b) = req_version req"
  "res_server (response H req st ct b) = server_name H"
  "res_content_type (response H req st ct b) = ct" "res_www_authenticate (response H req st ct b) = None"
  "res_keep_alive (response H req st ct b) = req_keep_alive req" "res_body (response H req st ct b) = b"
  by (simp_all add: response_def)

text \<open>What it takes to pass the guard.\<close>

definition authorised :: "('sk, 'pk) jwt_lib \<Rightarrow> ('sk, 'pk) http_handler \<Rightarrow> u64 \<Rightarrow> http_request \<Rightarrow> bool" where
  "authorised L H nw req \<longleftrightarrow>
     (\<exists>j token c. jwt H = Some j \<and> req_authorization req = Some (''Bearer '' @ token)
        \<and> jwt_verify L j nw token = Some c)"

lemma require_auth_Inr:
  "require_auth L H nw req = Inr c \<longleftrightarrow>
     (\<exists>j token. jwt H = Some j \<and> req_authorization req = Some (''Bearer '' @ token) \<and> token \<noteq> []
        \<and> jwt_verify L j nw token = Some c)"
proof (cases "jwt H")
  case (Some j)
  show ?thesis
  proof (cases "req_authorization req")
    case auth: (Some v)
    show ?thesis
    proof (cases "take (length ''Bearer '') v = ''Bearer '' \<and> \<not> length v \<le> length ''Bearer ''")
      case True
      then obtain tok where "v = ''Bearer '' @ tok" by (metis append_take_drop_id)
      moreover from this True have "tok \<noteq> []" by auto
      ultimately show ?thesis
        using Some auth by (auto simp: require_auth_def split: option.splits)
    next
      case False
      then have "v \<noteq> ''Bearer '' @ token \<or> token = []" for token by auto
      with False Some auth show ?thesis by (auto simp: require_auth_def)
    qed
  qed (use Some in \<open>simp add: require_auth_def\<close>)
qed (simp add: require_auth_def)

lemma jwt_verify_Nil [simp]: "jwt_verify L j nw [] = None"
  by (simp add: jwt_verify_def)

lemma authorised_iff: "authorised L H nw req \<longleftrightarrow> (\<exists>c. require_auth L H nw req = Inr c)"
  by (auto simp: authorised_def require_auth_Inr)

text \<open>C5: apart from logging in, the API does nothing for a request that does not carry a bearer token
  that verifies now: it answers 401 with a challenge, and neither the database nor the dispatcher
  nor the connection is touched.\<close>

theorem api_requires_token:
  assumes "\<not> authorised L H (env_now env) req"
    and "\<not> (req_target req = ''/api/auth/login'' \<and> req_method req = Post)"
  shows "\<exists>res. handle_api_request inet L H env req s = (Inr res, s) \<and> res_status res = 401
    \<and> res_www_authenticate res = Some ''Bearer''"
proof -
  obtain why where "require_auth L H (env_now env) req = Inl why"
    using assms(1) authorised_iff by (cases "require_auth L H (env_now env) req") blast+
  with assms(2) show ?thesis by (auto simp: handle_api_request_def unauthorized_def)
qed

definition sample_handler :: "(unit, unit) http_handler" where
  "sample_handler = \<lparr>connection_details_provider = None, document_root = ''webroot/'', has_dispatcher = True,
     has_db = True, jwt = Some sample_manager, server_name = ''Botan 3''\<rparr>"

definition sample_request :: http_request where
  "sample_request = \<lparr>req_method = Post, req_target = ''/api/config_ip'', req_version = 11, req_keep_alive = True,
     req_authorization = Some ''Basic YQ=='', req_body = ''{}''\<rparr>"

definition sample_env :: "disp_event list \<Rightarrow> unit http_env" where
  "sample_env evs = \<lparr>env_now = 1500, env_fs = (\<lambda>_. No_such_file),
     env_sched = \<lparr>sch_thread = 1, sch_db = (\<lambda>st. st), sch_early = [], sch_during = evs\<rparr>\<rparr>"

theorem api_requires_token_witness:
  "\<exists>res. handle_api_request Some (sample_lib JNull) sample_handler (sample_env []) sample_request sample_server
      = (Inr res, sample_server)
    \<and> res_status res = 401 \<and> res_www_authenticate res = Some ''Bearer''"
  by (rule api_requires_token) (simp_all add: authorised_def sample_request_def)

lemma login_response:
  assumes "jwt H = Some j" and "login_fields L (req_body req) = Inr (Some (''admin'', ''admin''))"
  shows "handle_login L H t0 req = success_text H req (j_serialize L (JObject
    [(''status'', JString ''success''), (''token'', JString (jwt_generate L j t0 ''admin'' ''admin'' 3600)),
     (''expires_in'', JInt64 3600)])) ''application/json''"
  using assms by (simp add: handle_login_def obj_set_def Let_def)

text \<open>C28: a token the login hands out opens the API for an hour and not a second longer: a request that
  carries it passes \<open>require_auth\<close> with the claims of \<open>admin\<close> while the hour lasts, so that
  \<open>POST /api/config_ip\<close> is carried out, and from then on it is refused with 401 and changes nothing.\<close>

theorem login_opens_api:
  assumes "jwt H = Some j" and "login_fields L (req_body req) = Inr (Some (''admin'', ''admin''))"
    and "jwt_lib_ok L j (JObject (jwt_payload t0 ''admin'' ''admin'' 3600))"
    and "int (unat t0) + 3600 \<le> int64_max"
  shows "\<exists>token. handle_login L H t0 req = success_text H req (j_serialize L (JObject
      [(''status'', JString ''success''), (''token'', JString token), (''expires_in'', JInt64 3600)])) ''application/json''
    \<and> (\<forall>t1 req'. req_authorization req' = Some (''Bearer '' @ token) \<longrightarrow>
        require_auth L H t1 req' =
          (if unat t1 < unat t0 + 3600 then Inr \<lparr>sub = ''admin'', role = ''admin'', iat = t0, exp = t0 + 3600\<rparr>
           else Inl ''Invalid or expired token''))
    \<and> (\<forall>inet env req' s. req_authorization req' = Some (''Bearer '' @ token)
          \<and> req_target req' = ''/api/config_ip'' \<and> req_method req' = Post \<longrightarrow>
        handle_api_request inet L H env req' (s :: 'h server) =
          (if unat (env_now env) < unat t0 + 3600 then config_ip inet L H (env_sched env) req' s
           else (Inr (unauthorized H req' ''Invalid or expired token''), s)))"
proof -
  let ?token = "jwt_generate L j t0 ''admin'' ''admin'' 3600"
  have "unat t0 + 3600 < 18446744073709551616" using assms(4) by linarith
  then have sum: "unat (t0 + 3600) = unat t0 + 3600" by (simp add: unat_word_ariths)
  have ver: "jwt_verify L j t1 ?token
      = (if unat t1 < unat t0 + 3600 then Some \<lparr>sub = ''admin'', role = ''admin'', iat = t0, exp = t0 + 3600\<rparr> else None)" for t1
    using assms(4) by (simp add: jwt_verify_generate_parts [OF assms(3)] word_less_nat_alt sum)
  have "?token \<noteq> []" by (simp add: jwt_generate_def Let_def)
  then have auth: "require_auth L H t1 req' =
      (if unat t1 < unat t0 + 3600 then Inr \<lparr>sub = ''admin'', role = ''admin'', iat = t0, exp = t0 + 3600\<rparr>
       else Inl ''Invalid or expired token'')" if "req_authorization req' = Some (''Bearer '' @ ?token)" for t1 req'
    using that assms(1) by (simp add: require_auth_def ver)
  then have "handle_api_request inet L H env req' (s :: 'h server) =
      (if unat (env_now env) < unat t0 + 3600 then config_ip inet L H (env_sched env) req' s
       else (Inr (unauthorized H req' ''Invalid or expired token''), s))"
    if "req_authorization req' = Some (''Bearer '' @ ?token) \<and> req_target req' = ''/api/config_ip'' \<and> req_method req' = Post"
    for inet env req' s
    using that by (simp add: handle_api_request_def)
  with login_response [OF assms(1,2)] auth show ?thesis by blast
qed

definition login_lib :: "(unit, unit) jwt_lib" where
  "login_lib = (sample_lib sample_payload)\<lparr>j_parse := (\<lambda>s. if s = JWT_HEADER then Inr jwt_header_json
     else if s = ''login'' then Inr (JObject [(''username'', JString ''admin''), (''password'', JString ''admin'')])
     else Inr (json_normal sample_payload))\<rparr>"

theorem login_opens_api_witness:
  "\<exists>token. res_status (handle_login login_lib sample_handler 1000 (sample_request\<lparr>req_body := ''login''\<rparr>)) = 200
    \<and> (\<exists>c. require_auth login_lib sample_handler 4599 (sample_request\<lparr>req_authorization := Some (''Bearer '' @ token)\<rparr>) = Inr c
         \<and> role c = ''admin'')
    \<and> require_auth login_lib sample_handler 4600 (sample_request\<lparr>req_authorization := Some (''Bearer '' @ token)\<rparr>)
        = Inl ''Invalid or expired token''"
proof -
  have ok: "jwt_lib_ok login_lib sample_manager (JObject (jwt_payload 1000 ''admin'' ''admin'' 3600))"
    using sample_lib_ok [of sample_payload]
    by (simp add: jwt_lib_ok_def login_lib_def sample_lib_def codec_ok_def sample_payload_def JWT_HEADER_def)
  have fields: "login_fields login_lib ''login'' = Inr (Some (''admin'', ''admin''))"
    by (simp add: login_fields_def login_lib_def JWT_HEADER_def obj_contains_def obj_at_def)
  let ?req = "sample_request\<lparr>req_body := ''login''\<rparr>"
  have j: "jwt sample_handler = Some sample_manager" by (simp add: sample_handler_def)
  have f: "login_fields login_lib (req_body ?req) = Inr (Some (''admin'', ''admin''))" using fields by simp
  have fit: "int (unat (1000 :: u64)) + 3600 \<le> int64_max" by simp
  obtain token where login: "handle_login login_lib sample_handler 1000 ?req
      = success_text sample_handler ?req (j_serialize login_lib (JObject
      [(''status'', JString ''success''), (''token'', JString token), (''expires_in'', JInt64 3600)])) ''application/json''"
    and tok: "\<forall>t1 req'. req_authorization req' = Some (''Bearer '' @ token) \<longrightarrow>
        require_auth login_lib sample_handler t1 req' =
          (if unat t1 < unat (1000 :: u64) + 3600 then Inr \<lparr>sub = ''admin'', role = ''admin'', iat = 1000, exp = 1000 + 3600\<rparr>
           else Inl ''Invalid or expired token'')"
    using login_opens_api [OF j f ok fit] by blast
  from login have "res_status (handle_login login_lib sample_handler 1000 ?req) = 200" by (simp add: success_text_def)
  moreover have "\<exists>c. require_auth login_lib sample_handler 4599 (sample_request\<lparr>req_authorization := Some (''Bearer '' @ token)\<rparr>) = Inr c
      \<and> role c = ''admin''"
    "require_auth login_lib sample_handler 4600 (sample_request\<lparr>req_authorization := Some (''Bearer '' @ token)\<rparr>)
      = Inl ''Invalid or expired token''"
    using tok by simp_all
  ultimately show ?thesis by blast
qed

section \<open>Static files stay below the document root\<close>

lemma dotdot_Cons: "contains_str ''..'' (x # xs) \<longleftrightarrow> (x = CHR ''.'' \<and> xs \<noteq> [] \<and> hd xs = CHR ''.'') \<or> contains_str ''..'' xs"
  by (cases xs) auto

lemma dotdot_append:
  "t \<noteq> [] \<Longrightarrow> last t \<noteq> CHR ''.'' \<Longrightarrow>
    contains_str ''..'' (t @ u) \<longleftrightarrow> contains_str ''..'' t \<or> contains_str ''..'' u"
proof (induction t)
  case (Cons x xs)
  show ?case
  proof (cases "xs = []")
    case True
    with Cons.prems show ?thesis by (simp only: append.simps dotdot_Cons) auto
  next
    case False
    with Cons show ?thesis by (simp only: append.simps dotdot_Cons hd_append2) auto
  qed
qed simp

text \<open>The paths a static request can name: below the root, without a parent step anywhere.\<close>

definition root_dir :: "string \<Rightarrow> string" where
  "root_dir base = (if base \<noteq> [] \<and> last base = CHR ''/'' then butlast base else base)"

definition served_path :: "string \<Rightarrow> string \<Rightarrow> bool" where
  "served_path base p \<longleftrightarrow>
     (\<exists>q. p = c_str_copy (root_dir base @ q) \<and> prefix ''/'' q \<and> \<not> contains_str ''..'' q)"

lemma path_cat_root: "path_cat base t = root_dir base @ t"
  by (simp add: path_cat_def root_dir_def)

lemma legal_target_served:
  assumes "legal_target t"
  shows "served_path base (c_str_copy (if last t = CHR ''/'' then path_cat base t @ ''index.html'' else path_cat base t))"
proof -
  have t: "prefix ''/'' t" "\<not> contains_str ''..'' t" "t \<noteq> []"
    using assms by (cases t; auto simp: legal_target_def)+
  have "\<not> contains_str ''..'' (t @ ''index.html'')" if "last t = CHR ''/''"
    using that t dotdot_append [of t "''index.html''"] by simp
  moreover have "prefix ''/'' (t @ ''index.html'')" using t(1) by (rule prefix_prefix)
  ultimately show ?thesis
    using t unfolding served_path_def path_cat_root by auto
qed

text \<open>C6: no request reaches outside the document root: what a static request is answered cannot
  depend on any file whose path is not the root followed by a slash and a rest without \<open>..\<close>.\<close>

theorem static_files_confined:
  assumes "\<And>p. served_path (document_root H) p \<Longrightarrow> fs1 p = fs2 p"
  shows "handle_request H fs1 req = handle_request H fs2 req"
proof (cases "legal_target (req_target req)")
  case True
  then show ?thesis
    using assms [OF legal_target_served [OF True, of "document_root H"]]
    by (simp add: handle_request_def Let_def split: if_splits)
qed (simp add: handle_request_def)

lemma served_path_hd: "served_path ''webroot/'' p \<Longrightarrow> prefix ''webroot/'' p"
  by (auto simp: served_path_def root_dir_def c_str_copy_def prefix_def)

theorem static_files_confined_witness:
  "handle_request sample_handler (\<lambda>p. if p = ''/etc/passwd'' then Opened ''secret'' else No_such_file)
      (sample_request\<lparr>req_method := Get, req_target := ''/../etc/passwd''\<rparr>)
    = handle_request sample_handler (\<lambda>_. No_such_file)
      (sample_request\<lparr>req_method := Get, req_target := ''/../etc/passwd''\<rparr>)"
  by (rule static_files_confined) (auto simp: sample_handler_def dest!: served_path_hd)

section \<open>The configuration endpoint\<close>


definition config_lib :: "int \<Rightarrow> (unit, unit) jwt_lib" where
  "config_lib i = (sample_lib JNull)\<lparr>j_parse := (\<lambda>s. Inr (JObject [(''sensor_id'', JInt64 (if s = ''big'' then i + 4294967296 else i)),
     (''ip'', JString ''10.0.0.9'')]))\<rparr>"

lemma config_lib_fields: "config_ip_fields (config_lib 1) b = Inr (Inr (1, ''10.0.0.9''))"
  by (simp add: config_ip_fields_def config_lib_def obj_contains_def obj_at_def to_int32_def c_str_copy_def)

lemma sample_file_request_http:
  "\<exists>s1. file_request Some (env_sched (sample_env evs)) 1 ''10.0.0.9'' sample_server = (42, Inr (), s1)
    \<and> srv_disp s1 = init_dispatcher"
  by (simp add: file_request_def sample_env_def sample_server_def sample_request_simps Let_def
      int_to_string_def nat_to_string.simps)


lemma responses_ignore_body:
  "response H (req\<lparr>req_body := b\<rparr>) st ct bd = response H req st ct bd"
  "server_error H (req\<lparr>req_body := b\<rparr>) why = server_error H req why"
  "bad_request H (req\<lparr>req_body := b\<rparr>) why = bad_request H req why"
  "success_text H (req\<lparr>req_body := b\<rparr>) t ct = success_text H req t ct"
  by (simp_all add: response_defs)

text \<open>A sensor id is cut to 32 bits without a check: ids that differ by a multiple of \<open>2^32\<close> are
  the same request.\<close>

lemma sensor_id_is_truncated:
  assumes "j_parse L b1 = Inr (JObject [(''sensor_id'', JInt64 i), (''ip'', JString a)])"
    and "j_parse L b2 = Inr (JObject [(''sensor_id'', JInt64 (i + 4294967296 * k)), (''ip'', JString a)])"
  shows "config_ip inet L H sch (req\<lparr>req_body := b1\<rparr>) s = config_ip inet L H sch (req\<lparr>req_body := b2\<rparr>) s"
proof -
  have cut: "to_int32 (i + 4294967296 * k) = to_int32 i"
  proof -
    have "(word_of_int (i + 4294967296 * k) :: 32 word) = word_of_int i"
      unfolding word_of_int_eq_iff by (simp add: take_bit_eq_mod)
    then show ?thesis by (simp add: to_int32_def)
  qed
  have "config_ip_fields L b2 = config_ip_fields L b1"
    using assms cut by (simp add: config_ip_fields_def obj_contains_def obj_at_def)
  then show ?thesis by (auto simp: config_ip_def responses_ignore_body split: sum.splits prod.splits)
qed

lemma sensor_id_is_truncated_example:
  "config_ip Some (config_lib 1) sample_handler (env_sched (sample_env [])) (sample_request\<lparr>req_body := ''x''\<rparr>) sample_server
    = config_ip Some (config_lib 1) sample_handler (env_sched (sample_env [])) (sample_request\<lparr>req_body := ''big''\<rparr>) sample_server"
  by (rule sensor_id_is_truncated [where i = 1 and k = 1 and a = "''10.0.0.9''"])
    (simp_all add: config_lib_def)

section \<open>Sessions\<close>

lemma handle_request_echo:
  "res_version (handle_request H fs req) = req_version req"
  "res_keep_alive (handle_request H fs req) = req_keep_alive req"
  by (simp_all add: handle_request_def bad_request_def not_found_def server_error_def success_head_def
      success_file_def Let_def split: file_result.split)

lemma handle_login_echo:
  "res_version (handle_login L H nw req) = req_version req"
  "res_keep_alive (handle_login L H nw req) = req_keep_alive req"
  by (simp_all add: handle_login_def bad_request_def server_error_def success_text_def unauthorized_def
      Let_def split: option.split sum.split)

lemma config_ip_echo:
  "config_ip inet L H sch req s = (Inr res, s') \<Longrightarrow>
    res_version res = req_version req \<and> res_keep_alive res = req_keep_alive req"
  by (auto simp: config_ip_def bad_request_def server_error_def success_text_def
      split: if_splits sum.splits prod.splits)

lemma handle_one_echo:
  assumes "handle_one inet L H env req s = (Inr res, s')"
  shows "res_version res = req_version req \<and> res_keep_alive res = req_keep_alive req"
proof (cases "config_ip inet L H (env_sched env) req s = (Inr res, s')")
  case True
  then show ?thesis by (rule config_ip_echo)
next
  case False
  with assms show ?thesis
    by (auto simp: handle_one_def handle_api_request_def handle_request_echo handle_login_echo
        unauthorized_def server_error_def success_text_def not_found_def
        split: if_splits sum.splits option.splits)
qed

definition echoes :: "http_request \<times> 'h http_env \<Rightarrow> http_response \<Rightarrow> bool" where
  "echoes x res \<longleftrightarrow> res_version res = req_version (fst x) \<and> res_keep_alive res = req_keep_alive (fst x)"

text \<open>A session answers its requests in order, one response each with the request's version and
  keep-alive, and ends normally exactly at the first request that does not ask to be kept alive.\<close>

lemma http_session_responses:
  assumes "http_session inet L H reqs s = (r, out, s')"
  shows "\<exists>served rest. reqs = served @ rest \<and> list_all2 echoes served out
    \<and> (r = Inr () \<longleftrightarrow> (\<exists>xs x. served = xs @ [x] \<and> \<not> req_keep_alive (fst x)))
    \<and> list_all (\<lambda>x. req_keep_alive (fst x)) (butlast served)"
  using assms
proof (induction inet L H reqs s arbitrary: r out s' rule: http_session.induct)
  case (1 inet L H s)
  then show ?case by auto
next
  case (2 inet L H req env reqs s)
  obtain x s1 where one: "handle_one inet L H env req s = (x, s1)" by fastforce
  show ?case
  proof (cases x)
    case (Inl e)
    with "2.prems" one show ?thesis
      by (intro exI [of _ "[]"] exI [of _ "(req, env) # reqs"]) auto
  next
    case (Inr res)
    have echo: "echoes (req, env) res" using handle_one_echo one Inr by (fastforce simp: echoes_def)
    show ?thesis
    proof (cases "res_keep_alive res")
      case False
      with "2.prems" one Inr echo show ?thesis
        by (intro exI [of _ "[(req, env)]"] exI [of _ reqs]) (auto simp: echoes_def)
    next
      case True
      obtain out1 where rec: "http_session inet L H reqs s1 = (r, out1, s')" and out: "out = res # out1"
        using "2.prems" one Inr True by (auto split: prod.splits)
      obtain served rest where ih: "reqs = served @ rest" "list_all2 echoes served out1"
          "r = Inr () \<longleftrightarrow> (\<exists>xs x. served = xs @ [x] \<and> \<not> req_keep_alive (fst x))"
          "list_all (\<lambda>x. req_keep_alive (fst x)) (butlast served)"
        using "2.IH" [OF one [symmetric] Inr _ rec] True by blast
      moreover have "req_keep_alive req" using echo True by (simp add: echoes_def)
      ultimately show ?thesis
        using out echo
        by (intro exI [of _ "(req, env) # served"] exI [of _ rest])
          (auto simp: Cons_eq_append_conv butlast_append)
    qed
  qed
qed

lemma http_session_responses_example:
  "\<exists>res. fst (snd (http_session Some (sample_lib JNull) sample_handler
      [(sample_request\<lparr>req_keep_alive := False\<rparr>, sample_env []), (sample_request, sample_env [])] sample_server)) = [res]"
proof -
  let ?reqs = "[(sample_request\<lparr>req_keep_alive := False\<rparr>, sample_env []), (sample_request, sample_env [])]"
  obtain r out s' where run: "http_session Some (sample_lib JNull) sample_handler ?reqs sample_server = (r, out, s')"
    by (metis prod_cases3)
  have "r = Inr ()"
    using run by (auto simp: handle_one_def handle_api_request_def require_auth_def sample_request_def
        sample_handler_def unauthorized_def)
  with http_session_responses [OF run] show ?thesis using run
    by (auto simp: sample_request_def append_eq_Cons_conv Cons_eq_append_conv list_all2_Cons1)
qed

lemma unauthorised_unchanged:
  assumes "\<not> authorised L H (env_now env) req"
  shows "\<exists>res. handle_one inet L H env req s = (Inr res, s)"
proof -
  obtain why where "require_auth L H (env_now env) req = Inl why"
    using assms authorised_iff by (cases "require_auth L H (env_now env) req") blast+
  then show ?thesis by (simp add: handle_one_def handle_api_request_def)
qed

text \<open>A session none of whose requests carries a valid token leaves the server exactly as it was,
  however many requests it makes, and no handler throws.\<close>

lemma session_without_token_is_inert:
  assumes "\<forall>(req, env) \<in> set reqs. \<not> authorised L H (env_now env) req"
  shows "\<exists>r out. http_session inet L H reqs s = (r, out, s) \<and> r \<in> {Inr (), Inl (Stream_error ''end of stream'')}"
  using assms
proof (induction reqs)
  case Nil
  then show ?case by simp
next
  case (Cons x reqs)
  obtain req env where x: "x = (req, env)" by fastforce
  with Cons.prems unauthorised_unchanged obtain res
    where "handle_one inet L H env req s = (Inr res, s)" by fastforce
  with x Cons show ?case by fastforce
qed

lemma session_without_token_is_inert_example:
  "\<exists>r out. http_session Some (sample_lib JNull) sample_handler [(sample_request, sample_env [])] sample_server
    = (r, out, sample_server)"
  using session_without_token_is_inert [of "[(sample_request, sample_env [])]" "sample_lib JNull" sample_handler
      Some sample_server]
  by (auto simp: authorised_def sample_request_def)

end
