(* ===== verification/Ocsp_Cache.thy ===== *)
theory Ocsp_Cache
  imports Prelude
begin

text \<open>
  \<open>server/src/oscp/ocsp_cache.cpp\<close>: the OCSP responses stapled to the server's certificate, fetched
  from the CA's responder and cached by the certificate's fingerprint. Botan's certificates and
  responses and the HTTP exchange are parameters (\<open>ocsp_lib\<close>); times are ticks of the system clock.
  A lookup and an insertion are atomic under \<open>m_mutex\<close>; the exchange in between runs without it, so
  the three readings of the clock in one call are separate arguments.
\<close>

section \<open>Responder addresses\<close>

record url =
  protocol :: string
  host :: string
  port :: "string option"
  url_target :: string

text \<open>\<open>find("://")\<close>: the first position where the pattern starts.\<close>

fun find_sub :: "string \<Rightarrow> string \<Rightarrow> nat option" where
  "find_sub p [] = (if p = [] then Some 0 else None)"
| "find_sub p (x # xs) = (if prefix p (x # xs) then Some 0 else map_option Suc (find_sub p xs))"

definition split_port :: "url \<Rightarrow> url" where
  "split_port u =
     (case str_find (CHR '':'') (host u) of
        None \<Rightarrow> u\<lparr>protocol := ''http''\<rparr>
      | Some sep \<Rightarrow> u\<lparr>port := Some (drop (sep + 1) (host u)), host := take sep (host u)\<rparr>)"

definition parse_url :: "string \<Rightarrow> url option" where
  "parse_url urlstr =
     (case find_sub ''://'' urlstr of
        None \<Rightarrow> None
      | Some sep \<Rightarrow>
          let u = \<lparr>protocol = [], host = [], port = None, url_target = []\<rparr>;
              u = (case str_find_from (CHR ''/'') urlstr (sep + 3) of
                     None \<Rightarrow> u\<lparr>host := drop (sep + 3) urlstr, url_target := ''/''\<rparr>
                   | Some target_sep \<Rightarrow> u\<lparr>host := substr urlstr (sep + 3) (target_sep - sep - 3),
                                         url_target := drop target_sep urlstr\<rparr>)
          in Some (split_port u))"

section \<open>The library\<close>

datatype cert_status = Ocsp_response_good | Ocsp_not_yet_valid | Ocsp_has_expired | Other_status

record http_post =
  post_host :: string
  post_port :: string
  post_target :: string
  post_fields :: "(string \<times> string) list"
  post_body :: bytes

record ('cert, 'resp) ocsp_lib =
  fingerprint :: "'cert \<Rightarrow> string"
  ocsp_responder :: "'cert \<Rightarrow> string"
  ocsp_request :: "'cert \<Rightarrow> 'cert \<Rightarrow> bytes"
  exchange :: "http_post \<Rightarrow> exn + (nat \<times> bytes)"
  decode_response :: "bytes \<Rightarrow> exn + 'resp"
  raw_bits :: "'resp \<Rightarrow> bytes"
  is_successful :: "'resp \<Rightarrow> bool"
  status_for :: "'resp \<Rightarrow> 'cert \<Rightarrow> 'cert \<Rightarrow> int \<Rightarrow> cert_status"

section \<open>The cache\<close>

record cache_entry =
  ocsp_response :: bytes
  valid_until :: int

record ocsp_cache =
  m_cache :: "(string \<times> cache_entry) list"
  m_cache_duration :: int

definition new_ocsp_cache :: "int \<Rightarrow> ocsp_cache" where
  "new_ocsp_cache cache_duration = \<lparr>m_cache = [], m_cache_duration = cache_duration\<rparr>"

text \<open>Ticks of the clock in a minute; the cache duration is in minutes.\<close>

definition MINUTE :: int where
  "MINUTE = 60000000000"

definition from_cache :: "string \<Rightarrow> int \<Rightarrow> ocsp_cache \<Rightarrow> bytes" where
  "from_cache fp t c =
     (case map_of (m_cache c) fp of
        None \<Rightarrow> []
      | Some entry \<Rightarrow> if valid_until entry < t then [] else ocsp_response entry)"

definition put_entry :: "string \<Rightarrow> bytes \<Rightarrow> int \<Rightarrow> ocsp_cache \<Rightarrow> ocsp_cache" where
  "put_entry fp resp until c =
     c\<lparr>m_cache := AList.update fp \<lparr>ocsp_response = resp, valid_until = until\<rparr> (m_cache c)\<rparr>"

text \<open>The loop that halves the duration; \<open>/= 2\<close> truncates towards zero. Durations and times are unbounded here;
  they have 64 bits in \<open>std::chrono\<close>, and \<open>examined_times_in_range\<close> says when that makes no difference.\<close>

definition half :: "int \<Rightarrow> int" where
  "half d = sgn d * (\<bar>d\<bar> div 2)"

function backoff :: "(int \<Rightarrow> cert_status) \<Rightarrow> int \<Rightarrow> int \<Rightarrow> int" where
  "backoff status ref_time d =
     (if d \<noteq> 0 \<and> status (ref_time + d * MINUTE) = Ocsp_not_yet_valid
      then backoff status ref_time (half d) else d)"
  by pat_completeness auto

lemma half_abs: "\<bar>half d\<bar> = \<bar>d\<bar> div 2"
  by (cases "d = 0") (auto simp: half_def abs_mult)

termination backoff
  by (relation "measure (\<lambda>(_, _, d). nat \<bar>d\<bar>)") (auto simp: half_abs)

declare backoff.simps [simp del]

definition into_cache ::
  "('cert, 'resp) ocsp_lib \<Rightarrow> string \<Rightarrow> 'cert \<Rightarrow> 'cert \<Rightarrow> 'resp \<Rightarrow> int \<Rightarrow> ocsp_cache \<Rightarrow> bytes \<times> ocsp_cache" where
  "into_cache lib fp issuer subject resp ref_time c =
     (let d = backoff (status_for lib resp issuer subject) ref_time (m_cache_duration c)
      in (raw_bits lib resp, put_entry fp (raw_bits lib resp) (ref_time + d * MINUTE) c))"

section \<open>Fetching\<close>

definition responder_port :: "url \<Rightarrow> string" where
  "responder_port u = (case port u of Some p \<Rightarrow> p | None \<Rightarrow> if protocol u = ''http'' then ''80'' else ''443'')"

definition fetch_ocsp_response ::
  "('cert, 'resp) ocsp_lib \<Rightarrow> 'cert \<Rightarrow> 'cert \<Rightarrow> exn + 'resp option" where
  "fetch_ocsp_response lib issuer subject =
     (let responder = ocsp_responder lib subject in
      if responder = [] then Inr None
      else case parse_url responder of
        None \<Rightarrow> Inr None
      | Some u \<Rightarrow>
          sbind (exchange lib
             \<lparr>post_host = host u, post_port = responder_port u, post_target = url_target u,
              post_fields = [(''Host'', host u), (''User-Agent'', ''Botan OCSP Client''),
                (''Content-Type'', ''application/ocsp-request''), (''Accept'', ''application/ocsp-response'')],
              post_body = ocsp_request lib issuer subject\<rparr>) (\<lambda>(status, body).
          if status \<noteq> 200 then Inr None
          else sbind (decode_response lib body) (\<lambda>resp. Inr (Some resp))))"

text \<open>\<open>t1\<close>, \<open>t2\<close>, \<open>t3\<close>: the clock at the lookup, at the status check and at the insertion.\<close>

definition get_ocsp_response ::
  "('cert, 'resp) ocsp_lib \<Rightarrow> 'cert \<Rightarrow> 'cert \<Rightarrow> int \<times> int \<times> int \<Rightarrow> ocsp_cache \<Rightarrow> (exn + bytes) \<times> ocsp_cache" where
  "get_ocsp_response lib issuer subject ts c =
     (case ts of (t1, t2, t3) \<Rightarrow>
      let fp = fingerprint lib subject; cached = from_cache fp t1 c in
      if cached \<noteq> [] then (Inr cached, c)
      else case fetch_ocsp_response lib issuer subject of
        Inl e \<Rightarrow> (Inl e, c)
      | Inr None \<Rightarrow> (Inr [], c)
      | Inr (Some resp) \<Rightarrow>
          if \<not> is_successful lib resp \<or> status_for lib resp issuer subject t2 \<noteq> Ocsp_response_good
          then (Inr [], c)
          else case into_cache lib fp issuer subject resp t3 c of (out, c') \<Rightarrow> (Inr out, c'))"

section \<open>The store as an interface\<close>

text \<open>
  A store whose entries expire: what a lookup returns after an insertion, and that other keys are
  left alone. The lemma is about any sequence of insertions: the last one for a key decides.
\<close>

locale expiring_store =
  fixes lookup :: "'k \<Rightarrow> int \<Rightarrow> 's \<Rightarrow> 'v list"
    and put :: "'k \<Rightarrow> 'v list \<Rightarrow> int \<Rightarrow> 's \<Rightarrow> 's"
  assumes lookup_put_same: "lookup k t (put k v until s) = (if until < t then [] else v)"
    and lookup_put_other: "k \<noteq> k' \<Longrightarrow> lookup k t (put k' v until s) = lookup k t s"
begin

definition puts :: "('k \<times> 'v list \<times> int) list \<Rightarrow> 's \<Rightarrow> 's" where
  "puts ps s = fold (\<lambda>(k, v, until). put k v until) ps s"

lemma lookup_puts:
  "lookup k t (puts ps s) =
    (case map_of (rev ps) k of None \<Rightarrow> lookup k t s | Some (v, until) \<Rightarrow> if until < t then [] else v)"
proof (induction ps rule: rev_induct)
  case Nil
  then show ?case by (simp add: puts_def)
next
  case (snoc p ps)
  obtain k' v until where p: "p = (k', v, until)" by (cases p)
  have "puts (ps @ [p]) s = put k' v until (puts ps s)" by (simp add: puts_def p)
  with snoc show ?case by (cases "k = k'") (simp_all add: p lookup_put_same lookup_put_other)
qed

lemma lookup_fresh: "t \<le> until \<Longrightarrow> lookup k t (put k v until s) = v"
  by (simp add: lookup_put_same)

end

interpretation cache: expiring_store from_cache put_entry
  by unfold_locales (simp_all add: from_cache_def put_entry_def)

section \<open>Properties\<close>

text \<open>Halving \<open>k\<close> times is dividing by \<open>2 ^ k\<close>, towards zero.\<close>

definition halved :: "nat \<Rightarrow> int \<Rightarrow> int" where
  "halved k d = sgn d * (\<bar>d\<bar> div 2 ^ k)"

lemma halved_0 [simp]: "halved 0 d = d"
  by (simp add: halved_def sgn_mult_abs)

lemma halved_half: "halved k (half d) = halved (Suc k) d"
proof -
  have split: "\<bar>d\<bar> div 2 ^ Suc k = \<bar>d\<bar> div 2 div 2 ^ k"
    by (simp add: zdiv_zmult2_eq)
  show ?thesis
  proof (cases "\<bar>d\<bar> div 2 = 0")
    case True
    then have "half d = 0" by (simp add: half_def)
    with True show ?thesis unfolding halved_def split by simp
  next
    case False
    then have "sgn (half d) = sgn d" by (auto simp: half_def sgn_mult sgn_if)
    then show ?thesis unfolding halved_def split by (simp add: half_abs)
  qed
qed

lemma halved_bounds: "0 \<le> d \<Longrightarrow> 0 \<le> halved k d \<and> halved k d \<le> d"
  using zdiv_mono2 [of d 1 "2 ^ k"] by (auto simp: halved_def sgn_if pos_imp_zdiv_nonneg_iff)

text \<open>Every time the loop asks about lies between the reference time and the end of the configured
  duration, so the clock's 64 bits are enough when both ends fit.\<close>

lemma examined_times_in_range:
  assumes "0 \<le> d"
  shows "t \<le> t + halved k d * MINUTE \<and> t + halved k d * MINUTE \<le> t + d * MINUTE"
  using halved_bounds [OF assms, of k] by (simp add: MINUTE_def)

text \<open>C39: the loop that guesses how long to cache a response always ends. It halves the configured
  duration exactly as often as needed: every longer duration it tried was not zero and the response
  \<open>NOT_YET_VALID\<close> at its end, and the result is zero or the response is not \<open>NOT_YET_VALID\<close> at its
  end; from a duration that is not negative the result lies between zero and that duration.\<close>

theorem backoff_spec:
  "\<exists>k. backoff status t d = halved k d
    \<and> (\<forall>j<k. halved j d \<noteq> 0 \<and> status (t + halved j d * MINUTE) = Ocsp_not_yet_valid)
    \<and> (halved k d = 0 \<or> status (t + halved k d * MINUTE) \<noteq> Ocsp_not_yet_valid)
    \<and> (0 \<le> d \<longrightarrow> 0 \<le> halved k d \<and> halved k d \<le> d)"
proof -
  have "\<exists>k. backoff status t d = halved k d
    \<and> (\<forall>j<k. halved j d \<noteq> 0 \<and> status (t + halved j d * MINUTE) = Ocsp_not_yet_valid)
    \<and> (halved k d = 0 \<or> status (t + halved k d * MINUTE) \<noteq> Ocsp_not_yet_valid)"
  proof (induction status t d rule: backoff.induct)
    case (1 status t d)
    show ?case
    proof (cases "d \<noteq> 0 \<and> status (t + d * MINUTE) = Ocsp_not_yet_valid")
      case True
      then have step: "backoff status t d = backoff status t (half d)" by (simp add: backoff.simps [of _ _ d])
      from "1.IH" [OF True] obtain k where "backoff status t d = halved (Suc k) d"
        and "\<forall>j<k. halved (Suc j) d \<noteq> 0 \<and> status (t + halved (Suc j) d * MINUTE) = Ocsp_not_yet_valid"
        and "halved (Suc k) d = 0 \<or> status (t + halved (Suc k) d * MINUTE) \<noteq> Ocsp_not_yet_valid"
        unfolding step halved_half by blast
      with True show ?thesis by (intro exI [of _ "Suc k"]) (simp add: All_less_Suc2)
    next
      case False
      then have "backoff status t d = d" unfolding backoff.simps [of status t d] by auto
      with False show ?thesis by (intro exI [of _ 0]) auto
    qed
  qed
  with halved_bounds show ?thesis by blast
qed

text \<open>The status Botan computes from the two times of a response.\<close>

definition window_status :: "int \<Rightarrow> int \<Rightarrow> int \<Rightarrow> cert_status" where
  "window_status this_update next_update t =
     (if t < this_update then Ocsp_not_yet_valid
      else if next_update < t then Ocsp_has_expired else Ocsp_response_good)"

text \<open>A response that is not yet valid after twenty minutes: sixty minutes become fifteen.\<close>

theorem backoff_spec_witness:
  "backoff (\<lambda>x. if 20 * MINUTE < x then Ocsp_not_yet_valid else Ocsp_response_good) 0 60 = 15"
proof -
  let ?st = "\<lambda>x. if 20 * MINUTE < x then Ocsp_not_yet_valid else Ocsp_response_good"
  obtain k where k: "backoff ?st 0 60 = halved k 60"
    "\<forall>j<k. halved j 60 \<noteq> 0 \<and> ?st (0 + halved j 60 * MINUTE) = Ocsp_not_yet_valid"
    "halved k 60 = 0 \<or> ?st (0 + halved k 60 * MINUTE) \<noteq> Ocsp_not_yet_valid"
    using backoff_spec [of ?st 0 60] by blast
  have "\<not> 2 < k" using k(2) [rule_format, of 2] by (auto simp: halved_def MINUTE_def split: if_splits)
  moreover have "k \<noteq> 0" using k(3) by (cases "k = 0") (simp_all add: MINUTE_def)
  moreover have "k \<noteq> 1" using k(3) by (cases "k = 1") (simp_all add: halved_def MINUTE_def)
  ultimately have "k = 2" by simp
  with k(1) show ?thesis by (simp add: halved_def)
qed

text \<open>One call: the certificates, what the network answers during it, and the three readings of the clock.\<close>

record 'cert ocsp_call =
  call_issuer :: 'cert
  call_subject :: 'cert
  call_exchange :: "http_post \<Rightarrow> exn + (nat \<times> bytes)"
  call_lookup :: int
  call_check :: int
  call_store :: int

definition run_call ::
  "('cert, 'resp) ocsp_lib \<Rightarrow> 'cert ocsp_call \<Rightarrow> ocsp_cache \<Rightarrow> (exn + bytes) \<times> ocsp_cache" where
  "run_call lib x c = get_ocsp_response (lib\<lparr>exchange := call_exchange x\<rparr>) (call_issuer x) (call_subject x)
     (call_lookup x, call_check x, call_store x) c"

fun ocsp_calls ::
  "('cert, 'resp) ocsp_lib \<Rightarrow> 'cert ocsp_call list \<Rightarrow> ocsp_cache \<Rightarrow> (exn + bytes) list \<times> ocsp_cache" where
  "ocsp_calls lib [] c = ([], c)"
| "ocsp_calls lib (x # xs) c =
     (case run_call lib x c of (r, c') \<Rightarrow>
      case ocsp_calls lib xs c' of (rs, c'') \<Rightarrow> (r # rs, c''))"

text \<open>
  That the call \<open>x\<close> fetched \<open>resp\<close>: it posted the request for its certificates to the responder named
  in the certificate, was answered with status 200, the body decodes to \<open>resp\<close>, and \<open>resp\<close> is a
  successful response that was good for the certificate when the call looked.
\<close>

definition fetched :: "('cert, 'resp) ocsp_lib \<Rightarrow> 'cert ocsp_call \<Rightarrow> 'resp \<Rightarrow> bool" where
  "fetched lib x resp \<longleftrightarrow>
     (\<exists>u post body. parse_url (ocsp_responder lib (call_subject x)) = Some u
        \<and> post_host post = host u \<and> post_port post = responder_port u \<and> post_target post = url_target u
        \<and> post_body post = ocsp_request lib (call_issuer x) (call_subject x)
        \<and> call_exchange x post = Inr (200, body) \<and> decode_response lib body = Inr resp
        \<and> is_successful lib resp
        \<and> status_for lib resp (call_issuer x) (call_subject x) (call_check x) = Ocsp_response_good)"

text \<open>Until when what the call stored is handed out, for a cache with duration \<open>d\<close>.\<close>

definition kept_until :: "('cert, 'resp) ocsp_lib \<Rightarrow> int \<Rightarrow> 'cert ocsp_call \<Rightarrow> 'resp \<Rightarrow> int" where
  "kept_until lib d x resp = call_store x
     + backoff (status_for lib resp (call_issuer x) (call_subject x)) (call_store x) d * MINUTE"

text \<open>What every entry stands for after the calls \<open>hist\<close>: a response one of them fetched for a
  certificate with this fingerprint.\<close>

definition entry_ok ::
  "('cert, 'resp) ocsp_lib \<Rightarrow> int \<Rightarrow> 'cert ocsp_call list \<Rightarrow> string \<Rightarrow> cache_entry \<Rightarrow> bool" where
  "entry_ok lib d hist fp entry \<longleftrightarrow>
     (\<exists>x \<in> set hist. \<exists>resp. fetched lib x resp \<and> fingerprint lib (call_subject x) = fp
        \<and> raw_bits lib resp = ocsp_response entry \<and> valid_until entry = kept_until lib d x resp)"

definition cache_ok ::
  "('cert, 'resp) ocsp_lib \<Rightarrow> int \<Rightarrow> 'cert ocsp_call list \<Rightarrow> ocsp_cache \<Rightarrow> bool" where
  "cache_ok lib d hist c \<longleftrightarrow> m_cache_duration c = d
     \<and> (\<forall>fp entry. map_of (m_cache c) fp = Some entry \<longrightarrow> entry_ok lib d hist fp entry)"

text \<open>What a call may hand out: something it fetched itself, or something an earlier call fetched
  for the same fingerprint and that is still to be kept.\<close>

definition stapled_ok ::
  "('cert, 'resp) ocsp_lib \<Rightarrow> int \<Rightarrow> 'cert ocsp_call list \<Rightarrow> 'cert ocsp_call \<Rightarrow> bytes \<Rightarrow> bool" where
  "stapled_ok lib d hist x bits \<longleftrightarrow>
     (\<exists>resp. fetched lib x resp \<and> raw_bits lib resp = bits)
     \<or> (\<exists>y \<in> set hist. \<exists>resp. fetched lib y resp \<and> raw_bits lib resp = bits
          \<and> fingerprint lib (call_subject y) = fingerprint lib (call_subject x)
          \<and> call_lookup x \<le> kept_until lib d y resp)"

lemma get_ocsp_cases:
  assumes "get_ocsp_response lib issuer subject (t1, t2, t3) c = (r, c')"
  obtains (hit) "r = Inr (from_cache (fingerprint lib subject) t1 c)"
      and "from_cache (fingerprint lib subject) t1 c \<noteq> []" and "c' = c"
  | (none) "c' = c" and "r = Inr [] \<or> (\<exists>e. r = Inl e)"
  | (stored) resp d where "r = Inr (raw_bits lib resp)" and "is_successful lib resp"
      and "status_for lib resp issuer subject t2 = Ocsp_response_good"
      and "d = backoff (status_for lib resp issuer subject) t3 (m_cache_duration c)"
      and "c' = put_entry (fingerprint lib subject) (raw_bits lib resp) (t3 + d * MINUTE) c"
      and "from_cache (fingerprint lib subject) t1 c = []"
      and "fetch_ocsp_response lib issuer subject = Inr (Some resp)"
proof (cases "from_cache (fingerprint lib subject) t1 c = []")
  case False
  with assms have "r = Inr (from_cache (fingerprint lib subject) t1 c)" "c' = c"
    by (auto simp: get_ocsp_response_def Let_def)
  with hit False show thesis by blast
next
  case miss: True
  show thesis
  proof (cases "fetch_ocsp_response lib issuer subject")
    case (Inl e)
    with assms miss none show thesis by (auto simp: get_ocsp_response_def)
  next
    case (Inr ro)
    show thesis
    proof (cases ro)
      case None
      with Inr assms miss none show thesis by (auto simp: get_ocsp_response_def)
    next
      case (Some resp)
      show thesis
      proof (cases "is_successful lib resp \<and> status_for lib resp issuer subject t2 = Ocsp_response_good")
        case True
        with Some Inr assms miss stored [OF _ _ _ refl _ miss] show thesis
          by (auto simp: get_ocsp_response_def into_cache_def Let_def)
      next
        case False
        with Some Inr assms miss none show thesis by (auto simp: get_ocsp_response_def)
      qed
    qed
  qed
qed

lemma fetch_fetched:
  assumes "fetch_ocsp_response (lib\<lparr>exchange := call_exchange x\<rparr>) (call_issuer x) (call_subject x) = Inr (Some resp)"
    and "is_successful lib resp"
    and "status_for lib resp (call_issuer x) (call_subject x) (call_check x) = Ocsp_response_good"
  shows "fetched lib x resp"
proof -
  let ?post = "\<lambda>u. \<lparr>post_host = host u, post_port = responder_port u, post_target = url_target u,
      post_fields = [(''Host'', host u), (''User-Agent'', ''Botan OCSP Client''),
        (''Content-Type'', ''application/ocsp-request''), (''Accept'', ''application/ocsp-response'')],
      post_body = ocsp_request lib (call_issuer x) (call_subject x)\<rparr>"
  from assms(1) obtain u body where "parse_url (ocsp_responder lib (call_subject x)) = Some u"
    and "call_exchange x (?post u) = Inr (200, body)" "decode_response lib body = Inr resp"
    by (auto simp: fetch_ocsp_response_def Let_def split: if_splits option.splits)
  with assms(2,3) show ?thesis
    unfolding fetched_def by (intro exI [of _ u] exI [of _ "?post u"] exI [of _ body]) simp
qed

lemma entry_ok_more: "entry_ok lib d hist fp entry \<Longrightarrow> entry_ok lib d (hist @ xs) fp entry"
  by (auto simp: entry_ok_def)

lemma run_call_ok:
  assumes ok: "cache_ok lib d hist c" and run: "run_call lib x c = (r, c')"
  shows "cache_ok lib d (hist @ [x]) c' \<and> (\<forall>bits. r = Inr bits \<longrightarrow> bits \<noteq> [] \<longrightarrow> stapled_ok lib d hist x bits)"
  using run [unfolded run_call_def]
proof (cases rule: get_ocsp_cases)
  case hit
  then obtain entry where "map_of (m_cache c) (fingerprint lib (call_subject x)) = Some entry"
    and "call_lookup x \<le> valid_until entry" and "r = Inr (ocsp_response entry)"
    by (auto simp: from_cache_def split: option.splits if_splits)
  with ok have "stapled_ok lib d hist x bits" if "r = Inr bits" for bits
    using that unfolding cache_ok_def entry_ok_def stapled_ok_def by fastforce
  with ok hit(3) entry_ok_more show ?thesis by (fastforce simp: cache_ok_def)
next
  case none
  with ok entry_ok_more show ?thesis by (fastforce simp: cache_ok_def)
next
  case (stored resp k)
  then have fetched: "fetched lib x resp" by (intro fetch_fetched) simp_all
  with stored ok have "entry_ok lib d (hist @ [x]) (fingerprint lib (call_subject x))
      \<lparr>ocsp_response = raw_bits lib resp, valid_until = call_store x + k * MINUTE\<rparr>"
    by (auto simp: entry_ok_def kept_until_def cache_ok_def)
  moreover have "entry_ok lib d (hist @ [x]) fp entry" if "map_of (m_cache c) fp = Some entry" for fp entry
    using ok that entry_ok_more unfolding cache_ok_def by blast
  ultimately have "cache_ok lib d (hist @ [x]) c'"
    using ok stored(5) by (simp add: cache_ok_def put_entry_def)
  with fetched stored(1) show ?thesis by (auto simp: stapled_ok_def)
qed

lemma ocsp_calls_ok:
  "ocsp_calls lib calls c0 = (rs, c) \<Longrightarrow> cache_ok lib d hist c0 \<Longrightarrow> i < length calls \<Longrightarrow> rs ! i = Inr bits
    \<Longrightarrow> bits \<noteq> [] \<Longrightarrow> stapled_ok lib d (hist @ take i calls) (calls ! i) bits"
proof (induction calls arbitrary: c0 rs i hist)
  case (Cons x calls)
  obtain r c1 rs1 where run: "run_call lib x c0 = (r, c1)" "ocsp_calls lib calls c1 = (rs1, c)" "rs = r # rs1"
    using Cons.prems(1) by (auto split: prod.splits)
  from run_call_ok [OF Cons.prems(2) run(1)] have ok: "cache_ok lib d (hist @ [x]) c1"
    and r: "\<forall>bits. r = Inr bits \<longrightarrow> bits \<noteq> [] \<longrightarrow> stapled_ok lib d hist x bits" by blast+
  show ?case
  proof (cases i)
    case 0
    with r run Cons.prems show ?thesis by simp
  next
    case (Suc j)
    with Cons.IH [OF run(2) ok, of j] run(3) Cons.prems show ?thesis by simp
  qed
qed simp

text \<open>C12: whatever calls a cache that started empty has served, and whatever the network answered
  during each, a response it hands out was fetched by this call or by an earlier one for a
  certificate with the same fingerprint: that call posted its request to the certificate's responder,
  was answered with status 200, and the body decoded to a successful response that was good when the
  call looked. An earlier call's response is handed out only until the time it is kept for.\<close>

theorem stapled_responses_are_good:
  assumes "ocsp_calls lib calls (new_ocsp_cache d) = (rs, c)"
    and "i < length calls" and "rs ! i = Inr bits" and "bits \<noteq> []"
  shows "\<exists>y resp. fetched lib y resp \<and> raw_bits lib resp = bits
    \<and> fingerprint lib (call_subject y) = fingerprint lib (call_subject (calls ! i))
    \<and> (y = calls ! i \<or> y \<in> set (take i calls) \<and> call_lookup (calls ! i) \<le> kept_until lib d y resp)"
proof -
  have "cache_ok lib d [] (new_ocsp_cache d)" by (simp add: cache_ok_def new_ocsp_cache_def)
  from ocsp_calls_ok [OF assms(1) this assms(2-4)] show ?thesis unfolding stapled_ok_def by auto
qed

text \<open>A responder with one certificate and one response, good from 0 to 100 ticks.\<close>

definition sample_ocsp :: "(unit, unit) ocsp_lib" where
  "sample_ocsp = \<lparr>fingerprint = (\<lambda>_. ''FP''), ocsp_responder = (\<lambda>_. ''https://ca.example/ocsp''),
     ocsp_request = (\<lambda>_ _. [1]), exchange = (\<lambda>_. Inr (200, [2])), decode_response = (\<lambda>_. Inr ()),
     raw_bits = (\<lambda>_. [7, 7]), is_successful = (\<lambda>_. True), status_for = (\<lambda>_ _ _. window_status 0 100)\<rparr>"

lemma sample_fetch: "fetch_ocsp_response sample_ocsp () () = Inr (Some ())"
  by (simp add: fetch_ocsp_response_def sample_ocsp_def parse_url_def str_find_from_def)

lemma sample_get:
  "get_ocsp_response sample_ocsp () () (1, 2, 3) (new_ocsp_cache 60)
    = (Inr [7, 7], put_entry ''FP'' [7, 7] (3 + 60 * MINUTE) (new_ocsp_cache 60))"
  using sample_fetch
  by (simp add: get_ocsp_response_def into_cache_def sample_ocsp_def from_cache_def new_ocsp_cache_def
      window_status_def backoff.simps MINUTE_def Let_def)

text \<open>Two calls: the first fetches and stores the response, the second finds it, and no network.\<close>

definition sample_calls :: "unit ocsp_call list" where
  "sample_calls =
     [\<lparr>call_issuer = (), call_subject = (), call_exchange = (\<lambda>_. Inr (200, [2])),
       call_lookup = 1, call_check = 2, call_store = 3\<rparr>,
      \<lparr>call_issuer = (), call_subject = (), call_exchange = (\<lambda>_. Inl (Stream_error ''refused'')),
       call_lookup = 50, call_check = 50, call_store = 50\<rparr>]"

lemma sample_calls_run:
  "ocsp_calls sample_ocsp sample_calls (new_ocsp_cache 60)
    = ([Inr [7, 7], Inr [7, 7]], put_entry ''FP'' [7, 7] (3 + 60 * MINUTE) (new_ocsp_cache 60))"
proof -
  have "sample_ocsp\<lparr>exchange := \<lambda>_. Inr (200, [2])\<rparr> = sample_ocsp" by (simp add: sample_ocsp_def)
  moreover have "get_ocsp_response (sample_ocsp\<lparr>exchange := x\<rparr>) () () (50, 50, 50)
      (put_entry ''FP'' [7, 7] (3 + 60 * MINUTE) (new_ocsp_cache 60))
    = (Inr [7, 7], put_entry ''FP'' [7, 7] (3 + 60 * MINUTE) (new_ocsp_cache 60))" for x
    by (simp add: get_ocsp_response_def sample_ocsp_def from_cache_def put_entry_def MINUTE_def Let_def)
  ultimately show ?thesis by (simp add: sample_calls_def run_call_def sample_get)
qed

theorem stapled_responses_are_good_witness:
  "\<exists>y \<in> set sample_calls. call_exchange y \<lparr>post_host = ''ca.example'', post_port = ''80'', post_target = ''/ocsp'',
      post_fields = [], post_body = [1]\<rparr> = Inr (200, [2]) \<and> fetched sample_ocsp y ()"
proof -
  obtain y where y: "fetched sample_ocsp y ()" "y \<in> set (take 2 sample_calls)"
    using stapled_responses_are_good [OF sample_calls_run, of 1 "[7, 7]"] by (auto simp: sample_calls_def)
  then have "call_exchange y = (\<lambda>_. Inr (200, [2]))" by (auto simp: sample_calls_def fetched_def)
  moreover have "y \<in> set sample_calls" using y(2) by (rule in_set_takeD)
  ultimately show ?thesis using y(1) by (intro bexI [of _ y]) simp_all
qed

text \<open>A response that was stored answers every call for its certificate until its entry expires,
  whatever the responder does meanwhile: not even a failing exchange is noticed.\<close>

lemma cached_answer_needs_no_network:
  assumes "get_ocsp_response lib issuer subject (t1, t2, t3) c = (Inr bits, c')"
    and "from_cache (fingerprint lib subject) t1 c = []" and "bits \<noteq> []" and "fetch_ocsp_response lib issuer subject = Inr (Some resp)"
    and "t \<le> t3 + backoff (status_for lib resp issuer subject) t3 (m_cache_duration c) * MINUTE"
  shows "get_ocsp_response (lib\<lparr>exchange := e\<rparr>) issuer2 subject (t, u, v) c' = (Inr bits, c')"
  using assms(1)
proof (cases rule: get_ocsp_cases)
  case (stored resp' d)
  then have "resp' = resp" using assms(4) by simp
  with stored assms(3,5) cache.lookup_fresh [of t _ "fingerprint lib subject" bits c]
  show ?thesis by (simp add: get_ocsp_response_def Let_def)
qed (use assms in auto)

lemma cached_answer_needs_no_network_example:
  "\<exists>c'. get_ocsp_response sample_ocsp () () (1, 2, 3) (new_ocsp_cache 60) = (Inr [7, 7], c')
    \<and> get_ocsp_response (sample_ocsp\<lparr>exchange := (\<lambda>_. Inl (Stream_error ''refused''))\<rparr>) () () (50, 50, 50) c'
      = (Inr [7, 7], c')"
proof -
  have "get_ocsp_response (sample_ocsp\<lparr>exchange := (\<lambda>_. Inl (Stream_error ''refused''))\<rparr>) () () (50, 50, 50)
      (put_entry ''FP'' [7, 7] (3 + 60 * MINUTE) (new_ocsp_cache 60))
    = (Inr [7, 7], put_entry ''FP'' [7, 7] (3 + 60 * MINUTE) (new_ocsp_cache 60))"
    by (rule cached_answer_needs_no_network [OF sample_get _ _ sample_fetch])
      (simp_all add: sample_ocsp_def from_cache_def new_ocsp_cache_def backoff.simps window_status_def MINUTE_def)
  with sample_get show ?thesis by blast
qed

lemma window_backoff:
  assumes "window_status this_update next_update t0 = Ocsp_response_good" and "t0 \<le> t" and "0 \<le> d"
  shows "backoff (window_status this_update next_update) t d = d"
proof -
  have "0 \<le> d * MINUTE" using assms(3) by (simp add: MINUTE_def)
  then have "window_status this_update next_update (t + d * MINUTE) \<noteq> Ocsp_not_yet_valid"
    using assms by (auto simp: window_status_def split: if_splits)
  then show ?thesis unfolding backoff.simps [of _ t d] by auto
qed

text \<open>The loop tests for the wrong status. A response that is good now is never \<open>NOT_YET_VALID\<close>
  later, so the full duration is used however soon the response expires, and an expired response is
  stapled until then.\<close>

lemma expired_response_is_stapled:
  assumes "get_ocsp_response lib issuer subject (t1, t2, t3) c = (Inr (raw_bits lib resp), c')"
    and "from_cache (fingerprint lib subject) t1 c = []" and "raw_bits lib resp \<noteq> []"
    and "fetch_ocsp_response lib issuer subject = Inr (Some resp)"
    and "status_for lib resp issuer subject = window_status this_update next_update"
    and "0 \<le> m_cache_duration c" and "t2 \<le> t3"
    and "next_update < t" and "t \<le> t3 + m_cache_duration c * MINUTE" and "this_update \<le> t"
  shows "get_ocsp_response lib issuer subject (t, u, v) c' = (Inr (raw_bits lib resp), c')
    \<and> status_for lib resp issuer subject t = Ocsp_has_expired"
  using assms(1)
proof (cases rule: get_ocsp_cases)
  case (stored resp' d)
  then have resp: "resp' = resp" using assms(4) by simp
  with stored assms have "d = m_cache_duration c" by (simp add: window_backoff [of _ _ t2])
  with resp stored assms cache.lookup_fresh [of t _ "fingerprint lib subject" "raw_bits lib resp" c]
  show ?thesis by (simp add: get_ocsp_response_def window_status_def Let_def)
qed (use assms in auto)

lemma expired_response_is_stapled_example:
  "\<exists>c'. get_ocsp_response sample_ocsp () () (1, 2, 3) (new_ocsp_cache 60) = (Inr [7, 7], c')
    \<and> get_ocsp_response sample_ocsp () () (5000, 5000, 5000) c' = (Inr [7, 7], c')
    \<and> status_for sample_ocsp () () () 5000 = Ocsp_has_expired"
proof -
  have get: "get_ocsp_response sample_ocsp () () (1, 2, 3) (new_ocsp_cache 60)
      = (Inr (raw_bits sample_ocsp ()), put_entry ''FP'' [7, 7] (3 + 60 * MINUTE) (new_ocsp_cache 60))"
    using sample_get by (simp add: sample_ocsp_def)
  have "get_ocsp_response sample_ocsp () () (5000, 5000, 5000) (put_entry ''FP'' [7, 7] (3 + 60 * MINUTE) (new_ocsp_cache 60))
      = (Inr (raw_bits sample_ocsp ()), put_entry ''FP'' [7, 7] (3 + 60 * MINUTE) (new_ocsp_cache 60))
    \<and> status_for sample_ocsp () () () 5000 = Ocsp_has_expired"
    by (rule expired_response_is_stapled [OF get _ _ sample_fetch, of 0 100])
      (simp_all add: sample_ocsp_def from_cache_def new_ocsp_cache_def MINUTE_def)
  with sample_get show ?thesis by (auto simp: sample_ocsp_def)
qed

lemma find_sub_scheme: "CHR '':'' \<notin> set scheme \<Longrightarrow> find_sub ''://'' (scheme @ ''://'' @ rest) = Some (length scheme)"
  by (induction scheme) auto

lemma parse_url_parts:
  assumes "CHR '':'' \<notin> set scheme" and "CHR ''/'' \<notin> set authority" and "path = [] \<or> hd path = CHR ''/''"
  shows "parse_url (scheme @ ''://'' @ authority @ path) =
    Some (split_port \<lparr>protocol = [], host = authority, port = None, url_target = (if path = [] then ''/'' else path)\<rparr>)"
proof (cases path)
  case Nil
  with assms find_sub_scheme [OF assms(1), of "authority @ path"] show ?thesis
    by (simp add: parse_url_def str_find_from_def)
next
  case (Cons c cs)
  with assms have path: "path = CHR ''/'' # cs" by simp
  from find_sub_scheme [OF assms(1), of "authority @ path"] path assms(2) show ?thesis
    by (simp add: parse_url_def str_find_from_def substr_def numeral_3_eq_3)
qed

text \<open>A responder address without a port is contacted on port 80 whatever its scheme, \<open>https\<close>
  included; with a port, on that port.\<close>

lemma responder_port_ignores_scheme:
  assumes "CHR '':'' \<notin> set scheme" and "CHR ''/'' \<notin> set hst" and "CHR '':'' \<notin> set hst"
    and "CHR ''/'' \<notin> set prt" and "path = [] \<or> hd path = CHR ''/''"
  shows "(\<exists>u. parse_url (scheme @ ''://'' @ hst @ path) = Some u \<and> host u = hst \<and> responder_port u = ''80'')
    \<and> (\<exists>u. parse_url (scheme @ ''://'' @ (hst @ '':'' @ prt) @ path) = Some u \<and> host u = hst \<and> responder_port u = prt
        \<and> url_target u = (if path = [] then ''/'' else path))"
  using assms parse_url_parts [OF assms(1), of hst path] parse_url_parts [OF assms(1), of "hst @ '':'' @ prt" path]
  by (simp add: split_port_def responder_port_def)

lemma responder_port_ignores_scheme_example:
  "\<exists>u. parse_url (''https'' @ ''://'' @ ''ca.example'' @ ''/ocsp'') = Some u \<and> host u = ''ca.example'' \<and> responder_port u = ''80''"
  using responder_port_ignores_scheme [of "''https''" "''ca.example''" "''8080''" "''/ocsp''"] by simp

end
