(* ===== verification/Tls_Engine.thy ===== *)
theory Tls_Engine
  imports Ocsp_Cache Cli Http
begin

text \<open>
  \<open>server/src/net/QuantumSafeTlsEngine\<close>: the credentials handed to Botan, the handshake callbacks,
  and the session coroutine that runs a protocol handler on an established stream. The handshake
  itself, the sockets and the thread pool are the library's; sessions on different threads share
  only what is modelled as engine state (the latest connection details, under their mutex) and the
  server state of the handlers. \<open>do_listen\<close> spawns one \<open>do_session\<close> per accepted connection.
\<close>

section \<open>Credentials\<close>

record ('cert, 'key) certificate_info =
  certs :: "'cert list"
  cert_key :: 'key

text \<open>
  The constructor: \<open>attempts\<close> is what the successive certificate parses of the chain file yield until
  its end; a parse that throws is skipped.
\<close>

definition load_credentials :: "'key \<Rightarrow> 'cert option list \<Rightarrow> ('cert, 'key) certificate_info list" where
  "load_credentials k attempts = [\<lparr>certs = List.map_filter (\<lambda>a. a) attempts, cert_key = k\<rparr>]"

text \<open>\<open>certs.front()\<close> of an empty chain is undefined behaviour.\<close>

fun cred_matches ::
  "('key \<Rightarrow> string) \<Rightarrow> ('cert \<Rightarrow> string \<Rightarrow> bool) \<Rightarrow> string list \<Rightarrow> string \<Rightarrow> ('cert, 'key) certificate_info \<Rightarrow> exn + bool" where
  "cred_matches algo_name matches_dns algos dns_name cred =
     (if algo_name (cert_key cred) \<notin> set algos then Inr False
      else if dns_name = [] then Inr True
      else case certs cred of [] \<Rightarrow> Inl Undefined_behaviour | c # _ \<Rightarrow> Inr (matches_dns c dns_name))"

fun find_cert_chain ::
  "('key \<Rightarrow> string) \<Rightarrow> ('cert \<Rightarrow> string \<Rightarrow> bool) \<Rightarrow> string list \<Rightarrow> string \<Rightarrow> ('cert, 'key) certificate_info list
    \<Rightarrow> exn + 'cert list" where
  "find_cert_chain algo_name matches_dns algos dns_name [] = Inr []"
| "find_cert_chain algo_name matches_dns algos dns_name (cred # creds) =
     sbind (cred_matches algo_name matches_dns algos dns_name cred) (\<lambda>ok.
       if ok then Inr (certs cred) else find_cert_chain algo_name matches_dns algos dns_name creds)"

fun private_key_for :: "'cert \<Rightarrow> ('cert, 'key) certificate_info list \<Rightarrow> exn + 'key option" where
  "private_key_for cert [] = Inr None"
| "private_key_for cert (cred # creds) =
     (case certs cred of
        [] \<Rightarrow> Inl Undefined_behaviour
      | c # _ \<Rightarrow> if c = cert then Inr (Some (cert_key cred)) else private_key_for cert creds)"

section \<open>Handshake callbacks\<close>

record kex_group =
  group_name :: "string option"
  is_post_quantum :: bool
  wire_code :: "16 word"

definition tls_provide_cert_status ::
  "('cert, 'resp) ocsp_lib \<Rightarrow> 'cert list \<Rightarrow> int \<times> int \<times> int \<Rightarrow> ocsp_cache \<Rightarrow> (exn + bytes) \<times> ocsp_cache" where
  "tls_provide_cert_status lib chain ts c =
     (if length chain < 2 then (Inr [], c) else get_ocsp_response lib (chain ! 1) (chain ! 0) ts c)"

definition hex_digit :: "nat \<Rightarrow> char" where
  "hex_digit d = ''0123456789abcdef'' ! d"

text \<open>\<open>std::hex << std::setw(4) << std::setfill('0')\<close> of a 16-bit value is always four digits.\<close>

definition hex4 :: "16 word \<Rightarrow> string" where
  "hex4 w = (let n = unat w in [hex_digit (n div 4096), hex_digit (n div 256 mod 16),
     hex_digit (n div 16 mod 16), hex_digit (n mod 16)])"

definition collect_connection_details :: "kex_group \<Rightarrow> string" where
  "collect_connection_details g =
     ''{'' @ [dq] @ ''kex_algo'' @ [dq] @ '': '' @ [dq]
       @ (case group_name g of Some n \<Rightarrow> n | None \<Rightarrow> ''unknown'') @ [dq] @ '',''
       @ [dq] @ ''is_quantum_safe'' @ [dq] @ '': '' @ (if is_post_quantum g then ''true'' else ''false'') @ '',''
       @ [dq] @ ''wire_code'' @ [dq] @ '': '' @ [dq] @ ''0x'' @ hex4 (wire_code g) @ [dq] @ ''}''"

section \<open>The engine\<close>

datatype tls_policy = Default_policy | Text_policy string

text \<open>\<open>load_tls_policy\<close>: \<open>file\<close> is what the path's file holds.\<close>

definition load_tls_policy :: "(string \<Rightarrow> string) \<Rightarrow> string \<Rightarrow> tls_policy" where
  "load_tls_policy file policy_type =
     (if policy_type = ''default'' \<or> policy_type = [] then Default_policy
      else Text_policy (file (c_str_copy policy_type)))"

record tls_engine =
  latest_connection_details :: string

definition new_tls_engine :: tls_engine where
  "new_tls_engine = \<lparr>latest_connection_details = ''{}''\<rparr>"

definition get_latest_connection_details :: "tls_engine \<Rightarrow> string" where
  "get_latest_connection_details e = latest_connection_details e"

text \<open>
  One session. \<open>handshake\<close> is how it ends: an exception, or the negotiated group. \<open>handler\<close> is
  \<^term>\<open>None\<close> when no session handler is set. Every \<open>std::exception\<close> ends the session quietly.
\<close>

definition record_handshake :: "kex_group \<Rightarrow> tls_engine \<Rightarrow> tls_engine" where
  "record_handshake g e = e\<lparr>latest_connection_details := collect_connection_details g\<rparr>"

definition do_session ::
  "exn + kex_group \<Rightarrow> ('s \<Rightarrow> (exn + unit) \<times> 'o list \<times> 's) option \<Rightarrow> tls_engine \<times> 's
    \<Rightarrow> (exn + unit) \<times> 'o list \<times> tls_engine \<times> 's" where
  "do_session handshake handler es =
     (case es of (e, s) \<Rightarrow>
      let (r, out, e', s') =
        (case handshake of
           Inl ex \<Rightarrow> (Inl ex, [], e, s)
         | Inr g \<Rightarrow>
             let e' = record_handshake g e in
             (case handler of
                None \<Rightarrow> (Inr (), [], e', s)
              | Some h \<Rightarrow> (case h s of (r, out, s') \<Rightarrow> (r, out, e', s'))))
      in (catch_std r (\<lambda>_. Inr ()), out, e', s'))"

text \<open>\<open>make_final_completion_handler\<close>: what it logs for an exception that left a coroutine.\<close>

definition final_completion :: "string \<Rightarrow> exn + unit \<Rightarrow> string option" where
  "final_completion ctx r =
     (case r of Inl e \<Rightarrow> if is_std_exception e then Some (''Error in '' @ ctx @ '': '' @ what e) else None
      | Inr _ \<Rightarrow> None)"

text \<open>The sessions of one engine, each with its handshake and what its client sends.\<close>

definition run_sessions ::
  "('i list \<Rightarrow> 's \<Rightarrow> (exn + unit) \<times> 'o list \<times> 's) \<Rightarrow> ((exn + kex_group) \<times> 'i list) list
    \<Rightarrow> tls_engine \<times> 's \<Rightarrow> tls_engine \<times> 's" where
  "run_sessions handle sessions es =
     fold (\<lambda>(hs, ins) es. snd (snd (do_session hs (Some (handle ins)) es))) sessions es"

section \<open>The session-handler interface\<close>

text \<open>
  \<open>ISessionHandler\<close> as the engine uses it. \<open>fair\<close> are inputs during which the rest of the system
  behaves, \<open>good\<close> what every handler keeps of the shared state.
\<close>

locale session_handler =
  fixes handle :: "'i list \<Rightarrow> 's \<Rightarrow> (exn + unit) \<times> 'o list \<times> 's"
    and good :: "'s \<Rightarrow> bool"
    and fair :: "'i \<Rightarrow> bool"
  assumes keeps_good: "good s \<Longrightarrow> list_all fair ins \<Longrightarrow> handle ins s = (r, out, s') \<Longrightarrow> good s'"
    and no_more_replies: "handle ins s = (r, out, s') \<Longrightarrow> length out \<le> length ins"
begin

lemma session_keeps_good:
  assumes "good s" and "list_all fair ins"
    and "do_session hs (Some (handle ins)) (e, s) = (r, out, e', s')"
  shows "good s' \<and> length out \<le> length ins"
proof (cases hs)
  case (Inl ex)
  with assms show ?thesis by (auto simp: do_session_def)
next
  case (Inr g)
  obtain r1 out1 s1 where "handle ins s = (r1, out1, s1)" by (metis prod_cases3)
  with Inr assms keeps_good no_more_replies show ?thesis by (auto simp: do_session_def Let_def)
qed

lemma sessions_keep_good:
  "good (snd es) \<Longrightarrow> \<forall>(hs, ins) \<in> set sessions. list_all fair ins \<Longrightarrow> good (snd (run_sessions handle sessions es))"
proof (induction sessions arbitrary: es)
  case Nil
  then show ?case by (simp add: run_sessions_def)
next
  case (Cons x sessions)
  obtain hs ins where x: "x = (hs, ins)" by (cases x)
  obtain r out e' s' where one: "do_session hs (Some (handle ins)) es = (r, out, e', s')" by (metis prod_cases4)
  with session_keeps_good [of "snd es" ins hs "fst es"] Cons.prems x have "good s'" by simp
  with Cons.IH [of "(e', s')"] Cons.prems one x show ?case by (simp add: run_sessions_def)
qed

end

section \<open>Both handlers keep the database and the rendezvous sound\<close>

text \<open>
  \<open>T\<close> are the threads that run sessions. What is kept: the tables' integrity, the dispatcher's
  invariant, and that no thread of \<open>T\<close> leaves a context behind. The rest of the system plays its part
  when its database work keeps the tables and the other events at the dispatcher are other threads'.
\<close>

definition server_good :: "nat set \<Rightarrow> 'h server \<Rightarrow> bool" where
  "server_good T s \<longleftrightarrow> schema_ok (srv_db s) \<and> own_free T (srv_disp s)"

definition fair_schedule :: "nat set \<Rightarrow> 'h schedule \<Rightarrow> bool" where
  "fair_schedule T sch \<longleftrightarrow> (\<forall>st. schema_ok (snd st) \<longrightarrow> schema_ok (snd (sch_db sch st)))
     \<and> sch_thread sch \<in> T \<and> list_all (outsider T) (sch_early sch) \<and> list_all (outsider T) (sch_during sch)"

lemma generate_keeps_schema:
  assumes "generate_request_id m db = (r, m', db')"
  shows "schema_ok db' = schema_ok db"
  using assms
  by (auto simp: generate_request_id_def split: if_splits prod.splits sum.splits
      dest!: run_txn_effect sql_nextval_ok)

lemma add_pending_keeps_schema:
  assumes "schema_ok db" and "add_pending_config inet sid hst ip active rid m db = (r, m', db')"
  shows "schema_ok db'"
  using assms(2,1) by (cases rule: add_pending_cases) (auto dest: sql_insert_pending_ok)

lemma file_request_keeps_schema:
  assumes "schema_ok (srv_db s)" and "fair_schedule T sch" and "file_request inet sch sid ip s = (rid, r, s')"
  shows "schema_ok (srv_db s')"
proof -
  obtain x m db where gen: "generate_request_id (srv_mgr s) (srv_db s) = (x, m, db)" by (metis prod_cases3)
  with assms(1) have db: "schema_ok db" using generate_keeps_schema by blast
  show ?thesis
  proof (cases x)
    case (Inl e)
    with assms(3) gen db show ?thesis by (auto simp: file_request_def)
  next
    case (Inr i)
    obtain m1 db1 where env: "sch_db sch (m, db) = (m1, db1)" by fastforce
    with assms(2) db have "schema_ok db1" unfolding fair_schedule_def by (metis snd_conv)
    with assms(3) gen Inr env add_pending_keeps_schema show ?thesis
      by (fastforce simp: file_request_def split: prod.splits)
  qed
qed

lemma file_request_keeps_good:
  "server_good T s \<Longrightarrow> fair_schedule T sch \<Longrightarrow> file_request inet sch sid ip s = (rid, r, s') \<Longrightarrow> server_good T s'"
  using file_request_keeps_schema file_request_keeps_disp unfolding server_good_def by metis

lemma await_answer_keeps_good:
  assumes good: "server_good T s" and fair: "fair_schedule T sch"
    and run: "await_answer sch ms rid s = Inr (st, s')"
  shows "server_good T s'"
proof -
  from run obtain d1 d2 where d1: "env_events (sch_early sch) (srv_disp s) = Inr d1"
    and d2: "wait_for_response (sch_thread sch) (sch_during sch) rid ms d1 = Inr (st, d2)"
    and s': "s' = s\<lparr>srv_disp := d2\<rparr>"
    by (auto simp: await_answer_def)
  from good have "own_free T (srv_disp s)" by (simp add: server_good_def)
  then have "own_free T d1"
    using fair d1 env_events_free [of T _ T] unfolding fair_schedule_def by blast
  then have "own_free T d2"
    using fair d2 wait_for_response_free unfolding fair_schedule_def by blast
  with good s' show ?thesis by (simp add: server_good_def)
qed

lemma cli_execute_keeps_good:
  assumes "server_good T s" and "fair_schedule T sch" and "cli_execute inet sch c s = (r, s')"
  shows "server_good T s'"
  using assms file_request_keeps_good [OF assms(1,2)] await_answer_keeps_good [OF _ assms(2)]
  by (fastforce simp: cli_execute_def cmd_config_ip_def split: if_splits prod.splits sum.splits)

lemma cli_session_keeps_good:
  "server_good T s \<Longrightarrow> list_all (\<lambda>x. fair_schedule T (snd x)) chunks
    \<Longrightarrow> cli_session inet chunks s = (r, out, s') \<Longrightarrow> server_good T s'"
proof (induction inet chunks s arbitrary: r out s' rule: cli_session.induct)
  case (2 inet chunk sch chunks s)
  obtain x s1 where ex: "cli_execute inet sch (parse_sensor_command chunk) s = (x, s1)" by fastforce
  have s1: "server_good T s1" using cli_execute_keeps_good [OF "2.prems"(1) _ ex] "2.prems"(2) by simp
  show ?case
  proof (cases "\<not> valid (parse_sensor_command chunk) \<and> cmd (parse_sensor_command chunk) = ''quit''")
    case True
    with "2.prems" show ?thesis by (auto simp: Let_def)
  next
    case go: False
    show ?thesis
    proof (cases x)
      case (Inl e)
      with go ex s1 "2.prems" show ?thesis by (auto simp: Let_def split: if_splits)
    next
      case (Inr reply)
      obtain r1 out1 s2 where rec: "cli_session inet chunks s1 = (r1, out1, s2)" by (metis prod_cases3)
      with go ex Inr "2.prems"(3) have "s' = s2" by (auto simp: Let_def split: if_splits)
      with "2.IH" [OF refl go ex [symmetric] Inr s1 _ rec] "2.prems"(2) show ?thesis by simp
    qed
  qed
qed auto

lemma cli_session_replies_le: "cli_session inet chunks s = (r, out, s') \<Longrightarrow> length out \<le> length chunks"
  using cli_session_shape [of inet chunks s r out s'] by auto

interpretation cli: session_handler "cli_session inet" "server_good T" "\<lambda>x. fair_schedule T (snd x)"
  for inet T
  by unfold_locales (auto intro: cli_session_keeps_good dest: cli_session_replies_le)

definition fair_env :: "nat set \<Rightarrow> 'h http_env \<Rightarrow> bool" where
  "fair_env T env \<longleftrightarrow> fair_schedule T (env_sched env)"

lemma config_ip_keeps_good:
  assumes "server_good T s" and "fair_schedule T sch" and "config_ip inet L H sch req s = (r, s')"
  shows "server_good T s'"
  using assms file_request_keeps_good [OF assms(1,2)] await_answer_keeps_good [OF _ assms(2)]
  by (fastforce simp: config_ip_def split: if_splits prod.splits sum.splits)

lemma handle_one_keeps_good:
  assumes "server_good T s" and "fair_env T env" and "handle_one inet L H env req s = (r, s')"
  shows "server_good T s'"
  using assms config_ip_keeps_good
  by (auto simp: handle_one_def handle_api_request_def fair_env_def split: if_splits sum.splits)

lemma http_session_keeps_good:
  "server_good T s \<Longrightarrow> list_all (\<lambda>x. fair_env T (snd x)) reqs
    \<Longrightarrow> http_session inet L H reqs s = (r, out, s') \<Longrightarrow> server_good T s'"
proof (induction inet L H reqs s arbitrary: r out s' rule: http_session.induct)
  case (2 inet L H req env reqs s)
  obtain x s1 where one: "handle_one inet L H env req s = (x, s1)" by fastforce
  have s1: "server_good T s1" using handle_one_keeps_good [OF "2.prems"(1) _ one] "2.prems"(2) by simp
  show ?case
  proof (cases x)
    case (Inl e)
    with one s1 "2.prems" show ?thesis by auto
  next
    case (Inr res)
    show ?thesis
    proof (cases "res_keep_alive res")
      case False
      with one Inr s1 "2.prems" show ?thesis by auto
    next
      case True
      obtain out1 where rec: "http_session inet L H reqs s1 = (r, out1, s')" and "out = res # out1"
        using "2.prems"(3) one Inr True by (auto split: prod.splits)
      with "2.IH" [OF one [symmetric] Inr _ s1 _ rec] True "2.prems"(2) show ?thesis by simp
    qed
  qed
qed auto

lemma http_session_replies_le: "http_session inet L H reqs s = (r, out, s') \<Longrightarrow> length out \<le> length reqs"
proof (induction inet L H reqs s arbitrary: r out s' rule: http_session.induct)
  case (2 inet L H req env reqs s)
  obtain x s1 where one: "handle_one inet L H env req s = (x, s1)" by fastforce
  show ?case
  proof (cases x)
    case (Inl e)
    with one "2.prems" show ?thesis by auto
  next
    case (Inr res)
    show ?thesis
    proof (cases "res_keep_alive res")
      case False
      with one Inr "2.prems" show ?thesis by auto
    next
      case True
      obtain out1 where rec: "http_session inet L H reqs s1 = (r, out1, s')" and "out = res # out1"
        using "2.prems" one Inr True by (auto split: prod.splits)
      with "2.IH" [OF one [symmetric] Inr _ rec] True show ?thesis by simp
    qed
  qed
qed auto

interpretation http: session_handler "http_session inet L H" "server_good T" "\<lambda>x. fair_env T (snd x)"
  for inet L H T
  by unfold_locales (auto intro: http_session_keeps_good dest: http_session_replies_le)

section \<open>Properties\<close>

text \<open>C8: no client can break the server's state: whatever TLS sessions of the HTTP server and of the
  command line run on the threads \<open>T\<close>, with whatever handshakes and inputs, keys, foreign keys,
  certificate bindings and status values stay consistent, the dispatcher keeps its invariant, so
  every later dispatch is safe, and no session thread leaves a context behind. This holds provided the
  rest of the system keeps the tables and its own events at the dispatcher are of other threads.\<close>

theorem sessions_keep_schema:
  assumes "server_good T s"
    and "\<forall>(hs, ins) \<in> set web. list_all (\<lambda>x. fair_env T (snd x)) ins"
    and "\<forall>(hs, ins) \<in> set raw. list_all (\<lambda>x. fair_schedule T (snd x)) ins"
    and "s' = snd (run_sessions (cli_session inet) raw (e', snd (run_sessions (http_session inet L H) web (e, s))))"
  shows "schema_ok (srv_db s') \<and> disp_inv (srv_disp s')
    \<and> (\<forall>t \<in> T. map_of (contexts (srv_disp s')) t = None)
    \<and> (\<exists>d. dispatch rid st (srv_disp s') = Inr d)"
proof -
  have "server_good T s'"
    using http.sessions_keep_good [of T "(e, s)" web inet L H] cli.sessions_keep_good [of T "(e', _)" raw inet] assms
    by simp
  then have "schema_ok (srv_db s')" and free: "own_free T (srv_disp s')" by (simp_all add: server_good_def)
  moreover have "\<exists>d. dispatch rid st (srv_disp s') = Inr d"
    using disp_inv_ptr [OF own_free_inv [OF free]] by (fastforce simp: dispatch_def split: option.split)
  ultimately show ?thesis by (simp add: own_free_def)
qed

definition sample_group :: kex_group where
  "sample_group = \<lparr>group_name = Some ''x25519/ML-KEM-768'', is_post_quantum = True, wire_code = 0x11EC\<rparr>"

lemma fair_quiet: "list_all (outsider {1}) evs \<Longrightarrow> fair_schedule {1} (quiet_schedule evs)"
  by (simp add: fair_schedule_def quiet_schedule_def)

lemma fair_sample_env: "list_all (outsider {1}) evs \<Longrightarrow> fair_env {1} (sample_env evs)"
  by (simp add: fair_env_def fair_schedule_def sample_env_def)

lemma sample_server_good: "server_good {1} sample_server"
  by (simp add: server_good_def own_free_def sample_server_def sample_db_ok disp_inv_init)
    (simp add: init_dispatcher_def)

theorem sessions_keep_schema_witness:
  "\<exists>s'. s' = snd (run_sessions (cli_session Some)
      [(Inr sample_group, [(''CONFIG_IP 1 ip 10.0.0.9'', quiet_schedule [Ev_enter 2 7 50, Ev_dispatch 42 SUCCESS])])]
      (new_tls_engine, snd (run_sessions (http_session Some login_lib sample_handler)
         [(Inr sample_group, [(sample_request, sample_env [Ev_tick 3])])] (new_tls_engine, sample_server))))
    \<and> schema_ok (srv_db s') \<and> (\<exists>d. dispatch 7 SUCCESS (srv_disp s') = Inr d)"
proof -
  have web: "\<forall>(hs, ins) \<in> set [(Inr sample_group :: exn + kex_group, [(sample_request, sample_env [Ev_tick 3])])].
      list_all (\<lambda>x. fair_env {1} (snd x)) ins"
    using fair_sample_env [of "[Ev_tick 3]"] by simp
  have raw: "\<forall>(hs, ins) \<in> set [(Inr sample_group :: exn + kex_group,
        [(''CONFIG_IP 1 ip 10.0.0.9'', quiet_schedule [Ev_enter 2 7 50, Ev_dispatch 42 SUCCESS])])].
      list_all (\<lambda>x. fair_schedule {1} (snd x)) ins"
    using fair_quiet [of "[Ev_enter 2 7 50, Ev_dispatch 42 SUCCESS]"] by simp
  have "s' = s' \<and> schema_ok (srv_db s') \<and> (\<exists>d. dispatch 7 SUCCESS (srv_disp s') = Inr d)"
    if "s' = snd (run_sessions (cli_session Some)
      [(Inr sample_group, [(''CONFIG_IP 1 ip 10.0.0.9'', quiet_schedule [Ev_enter 2 7 50, Ev_dispatch 42 SUCCESS])])]
      (new_tls_engine, snd (run_sessions (http_session Some login_lib sample_handler)
         [(Inr sample_group, [(sample_request, sample_env [Ev_tick 3])])] (new_tls_engine, sample_server))))" for s'
    using sessions_keep_schema [OF sample_server_good web raw that, of 7 SUCCESS] by (elim conjE, intro conjI) (rule refl)
  then show ?thesis by blast
qed

lemma hex_digit_inj: "a < 16 \<Longrightarrow> b < 16 \<Longrightarrow> hex_digit a = hex_digit b \<Longrightarrow> a = b"
proof -
  have "distinct ''0123456789abcdef''" by simp
  then show "a < 16 \<Longrightarrow> b < 16 \<Longrightarrow> hex_digit a = hex_digit b \<Longrightarrow> a = b"
    unfolding hex_digit_def by (subst (asm) nth_eq_iff_index_eq) simp_all
qed

lemma digits_16:
  fixes n :: nat
  shows "n = 4096 * (n div 4096) + 256 * (n div 256 mod 16) + 16 * (n div 16 mod 16) + n mod 16"
proof -
  have eqs: "n div 256 = n div 16 div 16" "n div 4096 = n div 16 div 16 div 16"
    by (simp_all flip: div_mult2_eq)
  have dm: "16 * (a div 16) + a mod 16 = a" for a :: nat by simp
  from dm [of n] dm [of "n div 16"] dm [of "n div 16 div 16"] show ?thesis unfolding eqs by linarith
qed

lemma hex4_inj: "hex4 v = hex4 w \<Longrightarrow> v = w"
proof -
  assume eq: "hex4 v = hex4 w"
  have bound: "unat x div 4096 < 16" "unat x < 65536" for x :: "16 word"
    using unsigned_less [of x, where 'a = nat] by (simp_all add: div_less_iff_less_mult)
  have "unat v div 4096 = unat w div 4096" "unat v div 256 mod 16 = unat w div 256 mod 16"
      "unat v div 16 mod 16 = unat w div 16 mod 16" "unat v mod 16 = unat w mod 16"
    using eq bound by (auto simp: hex4_def Let_def intro: hex_digit_inj)
  with digits_16 [of "unat v"] digits_16 [of "unat w"] have "unat v = unat w" by linarith
  then show "v = w" by (simp add: unsigned_word_eqI)
qed

lemma length_hex4 [simp]: "length (hex4 w) = 4"
  by (simp add: hex4_def Let_def)

text \<open>The text reported for a connection determines the group's code: it always carries exactly
  four hexadecimal digits.\<close>

lemma details_identify_group:
  assumes "collect_connection_details g = collect_connection_details g'"
  shows "wire_code g = wire_code g'"
proof -
  have tail: "take 6 (rev (collect_connection_details x)) = CHR ''}'' # dq # rev (hex4 (wire_code x))" for x
    by (simp add: collect_connection_details_def)
  from tail [of g] tail [of g'] assms have "hex4 (wire_code g) = hex4 (wire_code g')" by simp
  then show ?thesis by (rule hex4_inj)
qed

lemma details_identify_group_example: "wire_code sample_group = 4588"
  using details_identify_group [of sample_group "sample_group\<lparr>wire_code := 4588\<rparr>"]
  by (simp add: sample_group_def)

definition successes :: "((exn + kex_group) \<times> 'i) list \<Rightarrow> kex_group list" where
  "successes sessions = List.map_filter (\<lambda>(hs, _). case hs of Inr g \<Rightarrow> Some g | Inl _ \<Rightarrow> None) sessions"

lemma do_session_details:
  assumes "do_session hs h (e, s) = (r, out, e', s')"
  shows "e' = (case hs of Inl _ \<Rightarrow> e | Inr g \<Rightarrow> record_handshake g e)"
  using assms by (auto simp: do_session_def Let_def split: sum.splits option.splits prod.splits)

text \<open>The details an engine reports are those of the last handshake that succeeded on any of its
  sessions, so a client that asks over its own connection can be told about another client's.\<close>

lemma latest_handshake_is_reported:
  "get_latest_connection_details (fst (run_sessions (http_session inet L H) sessions es))
    = (case successes sessions of [] \<Rightarrow> get_latest_connection_details (fst es)
       | g # gs \<Rightarrow> collect_connection_details (last (g # gs)))"
proof (induction sessions rule: rev_induct)
  case Nil
  then show ?case by (simp add: run_sessions_def successes_def List.map_filter_simps)
next
  case (snoc x sessions)
  obtain hs ins where x: "x = (hs, ins)" by (cases x)
  let ?es = "run_sessions (http_session inet L H) sessions es"
  obtain r out e' s' where one: "do_session hs (Some (http_session inet L H ins)) ?es = (r, out, e', s')"
    by (metis prod_cases4)
  then have e': "e' = (case hs of Inl _ \<Rightarrow> fst ?es | Inr g \<Rightarrow> record_handshake g (fst ?es))"
    using do_session_details by (metis prod.collapse)
  have "run_sessions (http_session inet L H) (sessions @ [x]) es = (e', s')"
    using one by (simp add: run_sessions_def x)
  moreover have "successes (sessions @ [x]) = successes sessions @ (case hs of Inr g \<Rightarrow> [g] | Inl _ \<Rightarrow> [])"
    by (simp add: successes_def x List.map_filter_def split: sum.split)
  ultimately show ?case
    using snoc e'
    by (cases hs; cases "successes sessions")
      (auto simp: get_latest_connection_details_def record_handshake_def)
qed

text \<open>The chain offered for a handshake and the key used for it belong together: the key found
  for the leaf of an offered chain is the one stored with it, and of an algorithm the peer accepts.\<close>

lemma chain_and_key_agree:
  assumes "find_cert_chain algo dns algos dnsname (load_credentials k attempts) = Inr (leaf # rest)"
  shows "private_key_for leaf (load_credentials k attempts) = Inr (Some k) \<and> algo k \<in> set algos
    \<and> (dnsname \<noteq> [] \<longrightarrow> dns leaf dnsname) \<and> Some leaf \<in> set attempts"
proof -
  let ?certs = "List.map_filter (\<lambda>a. a) attempts"
  from assms have certs: "?certs = leaf # rest" and "algo k \<in> set algos" "dnsname \<noteq> [] \<longrightarrow> dns leaf dnsname"
    by (auto simp: load_credentials_def split: if_splits list.splits)
  moreover from certs have "leaf \<in> set ?certs" by simp
  then have "Some leaf \<in> set attempts" by (auto simp: List.map_filter_def)
  ultimately show ?thesis by (simp add: load_credentials_def)
qed

lemma chain_and_key_agree_example:
  "private_key_for (5 :: nat) (load_credentials ''key'' [None, Some 5, Some 6]) = Inr (Some ''key'')"
  using chain_and_key_agree [of "\<lambda>_. ''ECDSA''" "\<lambda>c h. c = 5" "[''RSA'', ''ECDSA'']" "''localhost''" "''key''"
      "[None, Some (5 :: nat), Some 6]" 5 "[6]"]
  by (simp add: load_credentials_def List.map_filter_def)

end
