(* ===== verification/Server_Main.thy ===== *)
theory Server_Main
  imports Http
begin

text \<open>
  \<open>server/src/main.cpp\<close>: the three callbacks the server registers with the database listener, and
  \<open>main\<close>: the order in which it brings the parts up, and which session handler it installs. The
  callbacks also log, which is left out. What an engine or a JWT manager needs to be constructed is
  a parameter (\<^term>\<open>Some e\<close> when the constructor throws \<open>e\<close>), and so is the parsed command line.
\<close>

section \<open>Listener callbacks\<close>

text \<open>The \<open>try\<close> block of the config callback: the id to dispatch, when all fields are there.\<close>

definition config_event_fields :: "json_object \<Rightarrow> exn + u64" where
  "config_event_fields msg =
     sbind (sbind (obj_at msg ''payload'') as_object) (\<lambda>payload.
     sbind (sbind (obj_at payload ''sensor_id'') as_int64) (\<lambda>sensor_id.
     sbind (sbind (obj_at payload ''request_id'') as_int64) (\<lambda>rid.
     sbind (sbind (obj_at payload ''action'') as_string) (\<lambda>action.
     sbind (sbind (obj_at payload ''hostname'') as_string) (\<lambda>hst.
     sbind (sbind (obj_at payload ''new_ip'') as_string) (\<lambda>new_ip.
       Inr (to_u64 rid)))))))"

definition on_db_config_event_received :: "json_object \<Rightarrow> dispatcher \<Rightarrow> exn + dispatcher" where
  "on_db_config_event_received msg d =
     (if msg = [] then Inr d
      else sbind (sbind (obj_at msg ''channel'') as_string) (\<lambda>channel.
        if obj_contains msg ''payload''
        then catch_std (sbind (config_event_fields msg) (\<lambda>rid. dispatch rid SUCCESS d)) (\<lambda>_. Inr d)
        else Inr d))"

definition on_db_state_event_received :: "json_object \<Rightarrow> exn + unit" where
  "on_db_state_event_received msg =
     (if msg = [] then Inr () else sbind (sbind (obj_at msg ''channel'') as_string) (\<lambda>_. Inr ()))"

text \<open>The result says whether the alarm line was logged.\<close>

definition on_db_error_event_received :: "json_object \<Rightarrow> exn + bool" where
  "on_db_error_event_received msg =
     (if msg = [] then Inr False
      else sbind (sbind (obj_at msg ''channel'') as_string) (\<lambda>_.
        if obj_contains msg ''type''
        then sbind (sbind (obj_at msg ''type'') as_string) (\<lambda>t. Inr (t = ''alarm''))
        else Inr False))"

datatype server_callback = Config_callback | State_callback | Error_callback

definition run_callback :: "server_callback \<Rightarrow> json_object \<Rightarrow> dispatcher \<Rightarrow> exn + dispatcher" where
  "run_callback cb msg d =
     (case cb of
        Config_callback \<Rightarrow> on_db_config_event_received msg d
      | State_callback \<Rightarrow> sbind (on_db_state_event_received msg) (\<lambda>_. Inr d)
      | Error_callback \<Rightarrow> sbind (on_db_error_event_received msg) (\<lambda>_. Inr d))"

text \<open>One notification as the listener thread delivers it.\<close>

definition server_notified ::
  "json_parse \<Rightarrow> server_callback db_manager \<Rightarrow> string \<times> string \<Rightarrow> dispatcher \<Rightarrow> exn + dispatcher" where
  "server_notified prs m n d =
     (case on_notification prs m n of None \<Rightarrow> Inr d | Some (cb, msg) \<Rightarrow> run_callback cb msg d)"

section \<open>Start-up\<close>

record server_options =
  opt_port :: nat
  opt_policy :: string
  opt_cert :: string
  opt_key :: string
  opt_mode :: string
  opt_ocsp_request_timeout :: u64
  opt_ocsp_cache_time :: u64
  opt_document_root :: string
  opt_jwt_key :: string
  opt_jwt_cert :: string

text \<open>The defaults \<open>main\<close> declares, around the three required options.\<close>

definition default_options :: "nat \<Rightarrow> string \<Rightarrow> string \<Rightarrow> server_options" where
  "default_options p cert k =
     \<lparr>opt_port = p, opt_policy = ''default'', opt_cert = cert, opt_key = k, opt_mode = ''raw'',
      opt_ocsp_request_timeout = 10, opt_ocsp_cache_time = 6 * 60, opt_document_root = ''webroot'',
      opt_jwt_key = [], opt_jwt_cert = []\<rparr>"

datatype command_line = Help | Bad_options | Options server_options

text \<open>What the constructors and the database answer while the server starts.\<close>

record ('sk, 'pk) startup_env =
  engine_ctor :: "exn option"
  jwt_ctor :: "exn + ('sk, 'pk) jwt_manager"
  accepts_listener :: bool
  accepts_queries :: bool
  connection_details :: string
  botan_version :: string
  pg_version :: string
  pg_uptime :: string
  backend_pid :: int
  pqxx_version :: string

datatype ('sk, 'pk) installed = Http_server "('sk, 'pk) http_handler" | Raw_server

definition throw_if :: "exn option \<Rightarrow> exn + unit" where
  "throw_if e = (case e of Some e \<Rightarrow> Inl e | None \<Rightarrow> Inr ())"

definition install_handler ::
  "('sk, 'pk) startup_env \<Rightarrow> server_options \<Rightarrow> exn + ('sk, 'pk) installed" where
  "install_handler env opts =
     (if opt_mode opts = ''http'' then
        sbind (if opt_jwt_key opts \<noteq> [] \<and> opt_jwt_cert opts \<noteq> []
               then sbind (jwt_ctor env) (\<lambda>j. Inr (Some j)) else Inr None) (\<lambda>j.
          Inr (Http_server \<lparr>connection_details_provider = Some (connection_details env),
            document_root = opt_document_root opts, has_dispatcher = True, has_db = True, jwt = j,
            server_name = ''Botan '' @ botan_version env\<rparr>))
      else if opt_mode opts = ''raw'' then Inr Raw_server
      else Inl (Runtime_error (''Invalid mode: '' @ opt_mode opts @ ''. Use '' @ [CHR 0x27] @ ''raw'' @ [CHR 0x27]
             @ '' or '' @ [CHR 0x27] @ ''http'' @ [CHR 0x27] @ ''.'')))"

text \<open>The \<open>try\<close> block of \<open>main\<close>, up to the point where the engine runs.\<close>

definition server_setup ::
  "('sk, 'pk) startup_env \<Rightarrow> server_options \<Rightarrow> database
    \<Rightarrow> (exn + ('sk, 'pk) installed) \<times> server_callback db_manager \<times> database" where
  "server_setup env opts db =
     (case throw_if (engine_ctor env) of
        Inl e \<Rightarrow> (Inl e, new_db_manager, db)
      | Inr _ \<Rightarrow>
     (case db_connect (accepts_listener env) (accepts_queries env) new_db_manager of
        (Inl e, m) \<Rightarrow> (Inl e, m, db)
      | (Inr _, m) \<Rightarrow>
     (case init_request_id_sequence m db of
        (Inl e, m, db) \<Rightarrow> (Inl e, m, db)
      | (Inr _, m, db) \<Rightarrow>
          let m = register_listen_async ''config_events'' Config_callback m;
              m = register_listen_async ''state_events'' State_callback m;
              m = register_listen_async ''error_events'' Error_callback m;
              m = run_listener_loop m
          in case get_sanity_info (pg_version env) (pg_uptime env) (backend_pid env) (pqxx_version env) m of
               (Inl e, m) \<Rightarrow> (Inl e, m, db)
             | (Inr _, m) \<Rightarrow> (install_handler env opts, m, db))))"

text \<open>How \<open>main\<close> ends: at once with an exit code, or with the engine running.\<close>

datatype ('sk, 'pk) main_result = Exit nat | Serving "('sk, 'pk) installed" "server_callback db_manager" database

definition server_main ::
  "('sk, 'pk) startup_env \<Rightarrow> command_line \<Rightarrow> database \<Rightarrow> ('sk, 'pk) main_result" where
  "server_main env cl db =
     (case cl of
        Help \<Rightarrow> Exit 0
      | Bad_options \<Rightarrow> Exit 1
      | Options opts \<Rightarrow>
          (case server_setup env opts db of
             (Inl _, _, _) \<Rightarrow> Exit 1
           | (Inr h, m, db') \<Rightarrow> Serving h m db'))"

section \<open>Properties of the callbacks\<close>

lemma parser_notify_channel [simp]: "obj_at (parser_notify prs ch p) ''channel'' = Inr (JString (c_str_copy ch))"
  by (auto simp: parser_notify_def obj_set_def obj_at_def Let_def split: sum.split)

lemma parser_notify_contains:
  "obj_contains (parser_notify prs ch p) k \<longleftrightarrow> k = ''channel'' \<or> k = ''payload''"
  by (auto simp: parser_notify_def obj_set_def obj_contains_def Let_def split: sum.split)

lemma parser_notify_not_Nil [simp]: "parser_notify prs ch p \<noteq> []"
  by (auto simp: parser_notify_def obj_set_def Let_def split: sum.split)

lemma dispatch_total: "disp_inv d \<Longrightarrow> \<exists>d'. dispatch rid st d = Inr d' \<and> disp_inv d'"
proof -
  assume inv: "disp_inv d"
  have "\<exists>d'. dispatch rid st d = Inr d'"
    using disp_inv_ptr [OF inv] by (fastforce simp: dispatch_def split: option.split)
  then show ?thesis using dispatch_inv [OF inv] by blast
qed

lemma config_event_std: "config_event_fields msg = Inl e \<Longrightarrow> is_std_exception e"
  by (auto simp: config_event_fields_def sbind_eq_Inl as_std obj_at_std dest: as_std)

text \<open>Whatever is notified, on whatever channel, the server's listener survives it: no callback
  lets an exception out or corrupts the dispatcher, and the only effect a notification can have is
  one \<open>SUCCESS\<close> for the request id of a complete configuration event.\<close>

lemma notifications_are_harmless:
  assumes "disp_inv d"
  shows "\<exists>d'. server_notified prs m n d = Inr d' \<and> disp_inv d'
    \<and> (d' = d \<or> (\<exists>rid. map_of (callbacks m) (fst n) = Some Config_callback
        \<and> config_event_fields (parser_notify prs (fst n) (snd n)) = Inr rid \<and> dispatch rid SUCCESS d = Inr d'))"
proof (cases "map_of (callbacks m) (fst n)")
  case None
  with assms show ?thesis by (simp add: server_notified_def on_notification_def)
next
  case (Some cb)
  let ?msg = "parser_notify prs (fst n) (snd n)"
  have run: "server_notified prs m n d = run_callback cb ?msg d"
    using Some by (simp add: server_notified_def on_notification_def)
  show ?thesis
  proof (cases cb)
    case Config_callback
    show ?thesis
    proof (cases "config_event_fields ?msg")
      case (Inl e)
      with config_event_std [OF Inl] Config_callback run assms show ?thesis
        by (simp add: run_callback_def on_db_config_event_received_def parser_notify_contains)
    next
      case (Inr rid)
      with dispatch_total [OF assms, of rid SUCCESS] Config_callback run Some show ?thesis
        by (auto simp: run_callback_def on_db_config_event_received_def parser_notify_contains)
    qed
  next
    case State_callback
    with run assms show ?thesis by (simp add: run_callback_def on_db_state_event_received_def)
  next
    case Error_callback
    with run assms show ?thesis
      by (simp add: run_callback_def on_db_error_event_received_def parser_notify_contains)
  qed
qed

definition listening_mgr :: "server_callback db_manager" where
  "listening_mgr = sample_mgr\<lparr>callbacks := [(''config_events'', Config_callback), (''error_events'', Error_callback)]\<rparr>"

lemma notifications_are_harmless_example:
  "\<exists>d'. server_notified (\<lambda>_. Inl (Json_error ''bad'')) listening_mgr (''config_events'', ''{'') init_dispatcher = Inr d'
    \<and> disp_inv d'"
  using notifications_are_harmless [OF disp_inv_init, of "\<lambda>_. Inl (Json_error ''bad'')" listening_mgr
      "(''config_events'', ''{'')"] by blast

text \<open>The alarm is never raised: the listener builds its messages with two keys, and the key the
  callback looks for is neither of them.\<close>

lemma alarm_is_unreachable:
  "on_db_error_event_received (parser_notify prs ch p) = Inr False"
  by (simp add: on_db_error_event_received_def parser_notify_contains)

section \<open>Properties of the start-up\<close>

text \<open>The manager right after \<open>connect\<close>, and with the three callbacks and the listener.\<close>

definition fresh_link :: "'h db_manager" where
  "fresh_link = new_db_manager\<lparr>connection_listener := Open_conn, connection_queries := Open_conn, link_up := True\<rparr>"

definition served_mgr :: "server_callback db_manager" where
  "served_mgr = fresh_link\<lparr>listener_thread := True, callbacks := [(''config_events'', Config_callback),
     (''state_events'', State_callback), (''error_events'', Error_callback)]\<rparr>"

lemma connected_manager: "db_connect True True new_db_manager = (Inr (), fresh_link)"
  by (simp add: db_connect_def new_db_manager_def fresh_link_def)

lemma fresh_link_ready: "manager_ready fresh_link"
  by (simp add: manager_ready_def fresh_link_def)

lemma listeners_registered:
  "run_listener_loop (register_listen_async ''error_events'' Error_callback
     (register_listen_async ''state_events'' State_callback
       (register_listen_async ''config_events'' Config_callback fresh_link))) = served_mgr"
  by (simp add: register_listen_async_def run_listener_loop_def served_mgr_def fresh_link_def new_db_manager_def)

lemma server_setup_ok:
  assumes "engine_ctor env = None" and "accepts_listener env" and "accepts_queries env"
    and "1 \<le> max_request_id db" and "max_request_id db \<le> int64_max"
  shows "server_setup env opts db = (install_handler env opts, served_mgr,
    db\<lparr>request_id_seq := Some \<lparr>last_value = max_request_id db, is_called = True\<rparr>\<rparr>)"
  using assms init_sequence_ready [OF fresh_link_ready assms(4,5), where 'a = server_callback]
  by (simp add: server_setup_def throw_if_def connected_manager listeners_registered get_sanity_info_def
      queries_available_def) (simp add: served_mgr_def fresh_link_def)

text \<open>A database that holds no request yet cannot be served: the server exits with code 1 before it
  listens, whatever its options, because seeding the id sequence fails.\<close>

lemma fresh_database_cannot_be_served:
  assumes "stored_request_ids db = []"
  shows "server_main env (Options opts) db = Exit 1"
proof -
  have "fst (server_setup env opts db) = Inl e \<Longrightarrow> ?thesis" for e
    by (auto simp: server_main_def split: prod.split sum.split)
  moreover have "\<exists>e. fst (server_setup env opts db) = Inl e"
  proof (cases "engine_ctor env = None \<and> accepts_listener env \<and> accepts_queries env")
    case True
    with init_sequence_empty [OF fresh_link_ready assms, where 'a = server_callback] show ?thesis
      by (simp add: server_setup_def throw_if_def connected_manager)
  next
    case False
    then show ?thesis
      by (cases "engine_ctor env") (auto simp: server_setup_def throw_if_def db_connect_def Let_def)
  qed
  ultimately show ?thesis by blast
qed

definition sample_startup :: "(unit, unit) startup_env" where
  "sample_startup = \<lparr>engine_ctor = None, jwt_ctor = Inr sample_manager, accepts_listener = True, accepts_queries = True,
     connection_details = ''{}'', botan_version = ''3.6.0'', pg_version = ''16'', pg_uptime = ''1h'', backend_pid = 7,
     pqxx_version = ''7.10''\<rparr>"

lemma fresh_database_cannot_be_served_example:
  "server_main sample_startup (Options (default_options 50443 ''c.pem'' ''k.pem''))
      (sample_db\<lparr>sensor_config_pending := []\<rparr>) = Exit 1"
  by (rule fresh_database_cannot_be_served)
    (simp add: stored_request_ids_def sample_db_def sample_config_def List.map_filter_def)

text \<open>A server that comes up has its three channels registered and its listener running, and has
  seeded the sequence to the largest stored id, so that the next request gets an id above it.\<close>

lemma started_server_is_ready:
  assumes "server_main env (Options opts) db = Serving h m db'"
    and "1 \<le> max_request_id db" and "max_request_id db \<le> int64_max"
  shows "manager_ready m \<and> listener_thread m
    \<and> map_of (callbacks m) ''config_events'' = Some Config_callback
    \<and> map_of (callbacks m) ''state_events'' = Some State_callback
    \<and> map_of (callbacks m) ''error_events'' = Some Error_callback
    \<and> db' = db\<lparr>request_id_seq := Some \<lparr>last_value = max_request_id db, is_called = True\<rparr>\<rparr>"
proof -
  obtain x where started: "server_setup env opts db = (Inr x, m, db')"
    using assms(1) by (auto simp: server_main_def split: prod.splits sum.splits)
  then have up: "engine_ctor env = None" "accepts_listener env" "accepts_queries env"
    by (auto simp: server_setup_def throw_if_def db_connect_def Let_def split: option.splits if_splits)
  from server_setup_ok [OF up assms(2,3), of opts] started show ?thesis
    by (simp add: served_mgr_def manager_ready_def fresh_link_def)
qed

lemma started_server_is_ready_example:
  "\<exists>h m db'. server_main sample_startup (Options (default_options 50443 ''c.pem'' ''k.pem'')) sample_db = Serving h m db'
    \<and> manager_ready m \<and> map_of (callbacks m) ''config_events'' = Some Config_callback"
proof -
  let ?opts = "default_options 50443 ''c.pem'' ''k.pem''"
  have max: "1 \<le> max_request_id sample_db" "max_request_id sample_db \<le> int64_max"
    by (simp_all add: sample_db_max)
  obtain h m db' where run: "server_main sample_startup (Options ?opts) sample_db = Serving h m db'"
    using server_setup_ok [OF _ _ _ max, of sample_startup ?opts]
    by (simp add: server_main_def sample_startup_def install_handler_def default_options_def)
  with started_server_is_ready [OF run max] show ?thesis by blast
qed

text \<open>The API is closed by default: a server started in HTTP mode without both JWT files rejects
  every API request and changes nothing.\<close>

lemma api_closed_without_jwt:
  assumes "install_handler env opts = Inr (Http_server H)" and "opt_jwt_key opts = [] \<or> opt_jwt_cert opts = []"
  shows "\<exists>res. handle_api_request inet L H henv req s = (Inr res, s) \<and> res_status res \<in> {401, 500}"
proof -
  have "jwt H = None" using assms by (auto simp: install_handler_def split: if_splits)
  then show ?thesis
    by (simp add: handle_api_request_def handle_login_def require_auth_def unauthorized_def server_error_def)
qed

lemma api_closed_without_jwt_example:
  "\<exists>H res. install_handler sample_startup ((default_options 50443 ''c.pem'' ''k.pem'')\<lparr>opt_mode := ''http''\<rparr>)
      = Inr (Http_server H)
    \<and> handle_api_request Some (sample_lib JNull) H (sample_env []) sample_request sample_server = (Inr res, sample_server)
    \<and> res_status res \<in> {401, 500}"
proof -
  let ?opts = "(default_options 50443 ''c.pem'' ''k.pem'')\<lparr>opt_mode := ''http''\<rparr>"
  obtain H where H: "install_handler sample_startup ?opts = Inr (Http_server H)"
    by (simp add: install_handler_def default_options_def)
  from api_closed_without_jwt [OF H, of Some "sample_lib JNull" "sample_env []" sample_request sample_server] H
  show ?thesis by (auto simp: default_options_def)
qed

end
