(* ===== verification/Tls_Start.thy ===== *)
theory Tls_Start
  imports Server_Main Tls_Engine
begin

text \<open>
  The constructor of the TLS engine (\<open>server/src/net/QuantumSafeTlsEngine\<close>) as \<open>server/src/main.cpp\<close> calls it, and the
  callback that records the key exchange of a handshake. The lemmas say when the constructor fails, what the
  engine offers that was built from files without what they should hold, and which key exchange is reported.
\<close>

section \<open>Construction\<close>

text \<open>
  What the constructor reads: \<open>key_of\<close> is what Botan makes of the file of the private key, \<open>parses\<close> what its
  successive attempts at a certificate yield up to the end of the chain's file, \<open>file\<close> what a file holds, the
  empty text for one that cannot be opened, and \<open>bad_policy\<close> the exception for a text that is not a policy.
\<close>

record ('cert, 'key) engine_files =
  key_of :: "string \<Rightarrow> exn + 'key"
  parses :: "string \<Rightarrow> 'cert option list"
  policy_file :: "string \<Rightarrow> string"
  bad_policy :: "string \<Rightarrow> exn option"

record ('cert, 'key) engine_parts =
  ep_port :: nat
  ep_creds :: "('cert, 'key) certificate_info list"
  ep_policy :: tls_policy
  ep_ocsp :: ocsp_cache
  ep_ocsp_timeout :: int

definition policy_error :: "('cert, 'key) engine_files \<Rightarrow> tls_policy \<Rightarrow> exn option" where
  "policy_error fs p = (case p of Default_policy \<Rightarrow> None | Text_policy t \<Rightarrow> bad_policy fs t)"

definition engine_construct ::
  "('cert, 'key) engine_files \<Rightarrow> nat \<Rightarrow> string \<Rightarrow> string \<Rightarrow> string \<Rightarrow> u64 \<Rightarrow> u64 \<Rightarrow> exn + ('cert, 'key) engine_parts" where
  "engine_construct fs pn cert_path key_path policy_path cache_time timeout =
     sbind (key_of fs key_path) (\<lambda>k.
       let creds = load_credentials k (parses fs cert_path); policy = load_tls_policy (policy_file fs) policy_path
       in sbind (throw_if (policy_error fs policy)) (\<lambda>_.
            Inr \<lparr>ep_port = pn, ep_creds = creds, ep_policy = policy, ep_ocsp = new_ocsp_cache (to_int64 cache_time),
                 ep_ocsp_timeout = to_int64 timeout\<rparr>))"

text \<open>The call in \<open>main\<close>, and what \<open>server_setup\<close> is told of it.\<close>

definition main_engine :: "('cert, 'key) engine_files \<Rightarrow> server_options \<Rightarrow> exn + ('cert, 'key) engine_parts" where
  "main_engine fs opts =
     engine_construct fs (opt_port opts) (opt_cert opts) (opt_key opts) (opt_policy opts) (opt_ocsp_cache_time opts)
       (opt_ocsp_request_timeout opts)"

definition with_engine :: "('cert, 'key) engine_files \<Rightarrow> server_options \<Rightarrow> ('sk, 'pk) startup_env \<Rightarrow> ('sk, 'pk) startup_env" where
  "with_engine fs opts env = env\<lparr>engine_ctor := (case main_engine fs opts of Inl e \<Rightarrow> Some e | Inr _ \<Rightarrow> None)\<rparr>"

lemma throw_if_simps [simp]: "throw_if None = Inr ()" "throw_if (Some e) = Inl e"
  by (simp_all add: throw_if_def)

lemma engine_construct_Inr:
  "engine_construct fs pn cert k policy ct to = Inr p \<longleftrightarrow>
    (\<exists>sk. key_of fs k = Inr sk \<and> policy_error fs (load_tls_policy (policy_file fs) policy) = None
      \<and> p = \<lparr>ep_port = pn, ep_creds = load_credentials sk (parses fs cert), ep_policy = load_tls_policy (policy_file fs) policy,
              ep_ocsp = new_ocsp_cache (to_int64 ct), ep_ocsp_timeout = to_int64 to\<rparr>)"
  by (cases "policy_error fs (load_tls_policy (policy_file fs) policy)") (auto simp: engine_construct_def Let_def)

text \<open>A key or a policy that cannot be read ends the server with code 1.\<close>

lemma unreadable_files_end_server:
  assumes "key_of fs (opt_key opts) = Inl e \<or> policy_error fs (load_tls_policy (policy_file fs) (opt_policy opts)) = Some e"
  shows "server_main (with_engine fs opts env) (Options opts) db = Exit 1"
proof -
  obtain e' where "main_engine fs opts = Inl e'"
    using assms by (cases "key_of fs (opt_key opts)") (auto simp: main_engine_def engine_construct_def Let_def)
  then show ?thesis by (simp add: server_main_def server_setup_def with_engine_def)
qed

text \<open>A policy file that cannot be opened does not: the engine runs under the empty policy, which is the library's
  default.\<close>

lemma missing_policy_is_ignored:
  assumes "policy_file fs (c_str_copy path) = []" "bad_policy fs [] = None" "path \<noteq> []" "path \<noteq> ''default''" "key_of fs k = Inr sk"
  shows "\<exists>p. engine_construct fs pn cert k path ct to = Inr p \<and> ep_policy p = Text_policy []"
  using assms by (auto simp: engine_construct_Inr load_tls_policy_def policy_error_def)

lemma map_filter_none: "set ps \<subseteq> {None} \<Longrightarrow> List.map_filter (\<lambda>a. a) ps = []"
  by (induction ps) (auto simp: List.map_filter_def)

text \<open>Nor does a chain's file without a certificate: the first handshake that names a host is undefined behaviour, and
  one that names none gets an empty chain.\<close>

lemma engine_without_certificates:
  assumes "key_of fs k = Inr sk" "set (parses fs cert) \<subseteq> {None}" "policy_error fs (load_tls_policy (policy_file fs) policy) = None"
  shows "\<exists>p. engine_construct fs pn cert k policy ct to = Inr p
    \<and> (algo sk \<in> set algos \<and> dns_name \<noteq> [] \<longrightarrow> find_cert_chain algo dns algos dns_name (ep_creds p) = Inl Undefined_behaviour)
    \<and> find_cert_chain algo dns algos [] (ep_creds p) = Inr []"
  using assms map_filter_none [OF assms(2)] by (auto simp: engine_construct_Inr load_credentials_def)

text \<open>What is offered is of the files: the chain of a handshake is a part of what was parsed, and its key the one loaded.\<close>

lemma engine_offers_its_files:
  assumes "engine_construct fs pn cert k policy ct to = Inr p"
    and "find_cert_chain algo dns algos dns_name (ep_creds p) = Inr (leaf # rest)"
  shows "\<exists>sk. key_of fs k = Inr sk \<and> private_key_for leaf (ep_creds p) = Inr (Some sk) \<and> Some leaf \<in> set (parses fs cert)"
  using assms chain_and_key_agree [of algo dns algos dns_name _ "parses fs cert" leaf rest]
  by (auto simp: engine_construct_Inr)

section \<open>The key exchange of a handshake\<close>

text \<open>\<open>m_group\<close> of the callbacks: \<open>none\<close> is Botan's \<open>Group_Params::NONE\<close>. The encapsulation itself is Botan's.\<close>

record http_callbacks =
  m_group :: kex_group

definition new_http_callbacks :: "kex_group \<Rightarrow> http_callbacks" where
  "new_http_callbacks none = \<lparr>m_group = none\<rparr>"

definition tls_kem_encapsulate :: "kex_group \<Rightarrow> http_callbacks \<Rightarrow> http_callbacks" where
  "tls_kem_encapsulate g cb = cb\<lparr>m_group := g\<rparr>"

text \<open>The group that \<open>do_session\<close> records after a handshake with the encapsulations \<open>gs\<close>: the last one, and none when
  the client did not make the server encapsulate.\<close>

definition handshake_group :: "kex_group \<Rightarrow> kex_group list \<Rightarrow> kex_group" where
  "handshake_group none gs = m_group (fold tls_kem_encapsulate gs (new_http_callbacks none))"

lemma handshake_group_last: "handshake_group none gs = (if gs = [] then none else last gs)"
  by (induction gs rule: rev_induct) (simp_all add: handshake_group_def new_http_callbacks_def tls_kem_encapsulate_def)

lemma handshake_is_reported:
  "get_latest_connection_details (fst (snd (snd (do_session (Inr (handshake_group none gs)) handler (e, s)))))
    = collect_connection_details (if gs = [] then none else last gs)"
  by (cases handler)
    (auto simp: do_session_def record_handshake_def get_latest_connection_details_def handshake_group_last Let_def split: prod.split)

end
