(* ===== verification/Tls_Threads.thy ===== *)
theory Tls_Threads
  imports Server_Main
begin

text \<open>
  The life of \<open>QuantumSafeTlsEngine\<close> (\<open>server/src/net\<close>) as \<open>main\<close> leads it: \<open>initialize\<close>, \<open>join\<close>, \<open>stop\<close>, and the
  destructor. The threads of the pool do nothing but \<open>io_context::run\<close>, which is documented to return when
  the context is stopped or has no work left; the acceptor's coroutine is work as long as it lives.
\<close>

section \<open>The pool\<close>

text \<open>\<open>thread_pool_\<close> is a vector of \<open>std::jthread\<close>, each joinable or not.\<close>

record engine_pool =
  thread_pool :: "bool list"
  io_stopped :: bool
  io_work :: bool

definition new_pool :: engine_pool where
  "new_pool = \<lparr>thread_pool = [], io_stopped = False, io_work = False\<rparr>"

definition run_returns :: "engine_pool \<Rightarrow> bool" where
  "run_returns e \<longleftrightarrow> io_stopped e \<or> \<not> io_work e"

text \<open>Joining one thread after the other; \<^term>\<open>None\<close>: a join that never returns.\<close>

fun join_all :: "bool \<Rightarrow> bool list \<Rightarrow> bool list option" where
  "join_all ended [] = Some []"
| "join_all ended (joinable # ts) =
     (if joinable \<and> \<not> ended then None else map_option ((#) False) (join_all ended ts))"

text \<open>
  \<open>initialize\<close>: the acceptor is spawned, then one thread per core. \<open>cores\<close> is \<open>hardware_concurrency()\<close>, which may
  be 0 when it is not known; \<open>fails\<close> is the thread that the system refuses to start, if any.
\<close>

definition engine_initialize :: "nat \<Rightarrow> nat option \<Rightarrow> engine_pool \<Rightarrow> (exn + unit) \<times> engine_pool" where
  "engine_initialize cores fails e =
     (let e = e\<lparr>io_work := True\<rparr>
      in case fails of
           Some i \<Rightarrow>
             if i < cores then (Inl (Runtime_error ''Resource temporarily unavailable''),
               e\<lparr>thread_pool := thread_pool e @ replicate i True\<rparr>)
             else (Inr (), e\<lparr>thread_pool := thread_pool e @ replicate cores True\<rparr>)
         | None \<Rightarrow> (Inr (), e\<lparr>thread_pool := thread_pool e @ replicate cores True\<rparr>))"

definition engine_join :: "engine_pool \<Rightarrow> engine_pool option" where
  "engine_join e = map_option (\<lambda>ts. e\<lparr>thread_pool := ts\<rparr>) (join_all (run_returns e) (thread_pool e))"

text \<open>\<open>clear\<close> destroys the threads, and the destructor of a \<open>jthread\<close> joins it; so does the engine's destructor,
  where the vector goes before the context and nothing stops the context.\<close>

definition engine_stop :: "engine_pool \<Rightarrow> engine_pool option" where
  "engine_stop e =
     (let e = e\<lparr>io_stopped := True\<rparr>
      in map_option (\<lambda>_. e\<lparr>thread_pool := []\<rparr>) (join_all (run_returns e) (thread_pool e)))"

definition engine_destroy :: "engine_pool \<Rightarrow> unit option" where
  "engine_destroy e = map_option (\<lambda>_. ()) (join_all (run_returns e) (thread_pool e))"

text \<open>The end of the acceptor's coroutine, for example because the port is taken; \<open>final_completion\<close> logs it.\<close>

definition acceptor_ends :: "bool \<Rightarrow> engine_pool \<Rightarrow> engine_pool" where
  "acceptor_ends fails e = (if fails then e\<lparr>io_work := False\<rparr> else e)"

text \<open>
  \<open>main\<close> gives up its pointer when the \<open>try\<close> block is left. With the HTTP handler that is not the last one: the
  engine owns the handler and the handler owns the engine (\<open>connection_details_provider_\<close>), so neither is
  destroyed.
\<close>

definition release_engine :: "bool \<Rightarrow> engine_pool \<Rightarrow> unit option" where
  "release_engine http e = (if http then Some () else engine_destroy e)"

text \<open>The last lines of \<open>main\<close>, with the exit code; \<^term>\<open>None\<close>: the process does not end.\<close>

definition server_serve :: "bool \<Rightarrow> nat \<Rightarrow> nat option \<Rightarrow> bool \<Rightarrow> nat option" where
  "server_serve http cores fails acceptor_fails =
     (case engine_initialize cores fails new_pool of
        (Inl _, e) \<Rightarrow> map_option (\<lambda>_. 1) (release_engine http (acceptor_ends acceptor_fails e))
      | (Inr _, e) \<Rightarrow>
          (case engine_join (acceptor_ends acceptor_fails e) of
             None \<Rightarrow> None
           | Some e \<Rightarrow>
               (case engine_stop e of None \<Rightarrow> None | Some e \<Rightarrow> map_option (\<lambda>_. 0) (release_engine http e))))"

section \<open>Facts\<close>

lemma join_all_ended [simp]: "join_all True ts = Some (replicate (length ts) False)"
  by (induction ts) simp_all

lemma join_all_blocks: "join_all False ts = (if True \<in> set ts then None else Some (replicate (length ts) False))"
  by (induction ts) auto

lemma join_all_iff: "join_all b ts = (if b \<or> True \<notin> set ts then Some (replicate (length ts) False) else None)"
  by (cases b) (simp_all add: join_all_blocks)

text \<open>\<open>stop\<close> always returns, with an empty pool, whatever the threads are doing; a second \<open>stop\<close> changes nothing.\<close>

lemma engine_stop_returns: "engine_stop e = Some (e\<lparr>io_stopped := True, thread_pool := []\<rparr>)"
  by (simp add: engine_stop_def run_returns_def Let_def)

lemma engine_stop_twice: "engine_stop e = Some e' \<Longrightarrow> engine_stop e' = Some e'"
  by (auto simp: engine_stop_returns)

text \<open>After \<open>join\<close> no thread is left to join, so the destructor returns.\<close>

lemma engine_join_done: "engine_join e = Some e' \<Longrightarrow> True \<notin> set (thread_pool e') \<and> engine_destroy e' = Some ()"
  by (auto simp: engine_join_def engine_destroy_def join_all_iff split: if_splits)

lemma join_before_stop_blocks: "True \<in> set (thread_pool e) \<Longrightarrow> io_work e \<Longrightarrow> \<not> io_stopped e \<Longrightarrow> engine_join e = None"
  by (simp add: engine_join_def join_all_iff run_returns_def)

text \<open>
  How the server's process ends. It serves for ever when it could start its threads and listen. When it
  cannot listen, or the number of cores is not known, it exits with 0 as if all were well. When a thread
  other than the first cannot be started, the exception that \<open>initialize\<close> passes on never reaches the exit
  code in raw mode: the engine's destructor waits for the threads that run.
\<close>

lemma server_process_end:
  "server_serve http cores fails acceptor_fails =
     (case fails of
        Some i \<Rightarrow>
          if i < cores then (if i = 0 \<or> acceptor_fails \<or> http then Some 1 else None)
          else if acceptor_fails \<or> cores = 0 then Some 0 else None
      | None \<Rightarrow> if acceptor_fails \<or> cores = 0 then Some 0 else None)"
  by (simp add: server_serve_def release_engine_def engine_initialize_def engine_join_def engine_stop_returns engine_destroy_def
      acceptor_ends_def run_returns_def new_pool_def join_all_iff Let_def split: option.split)

lemma taken_port_exits_with_0: "server_serve http 4 None True = Some 0"
  by (simp add: server_process_end)

lemma failed_thread_hangs: "server_serve False 4 (Some 2) False = None"
  by (simp add: server_process_end)

lemma unknown_cores_exit: "server_serve http 0 None False = Some 0"
  by (simp add: server_process_end)

end
