(* ===== verification/Controller.thy ===== *)
theory Controller
  imports Database_Manager
begin

text \<open>
  \<open>controller/src/main.cpp\<close>: the bridge between the database and MQTT. A listener callback forwards
  each \<open>config_requested\<close> notification to the sensors; the main loop takes the messages the broker
  delivers and applies them to the database through a table of handlers. Here the MQTT client is a
  parameter: whether it is connected and what \<open>publish\<close> throws, and the list of what \<open>consume_message\<close> yields
  (\<^term>\<open>None\<close> is a null pointer). \<open>Nodes\<close> puts the client library in its place.
\<close>

definition REQUEST_CONFIG_TOPIC :: string where
  "REQUEST_CONFIG_TOPIC = ''config/requested''"

definition EVENTS_CONFIG_TOPIC :: string where
  "EVENTS_CONFIG_TOPIC = ''config/events''"

definition TELEMETRY_TOPIC :: string where
  "TELEMETRY_TOPIC = ''telemetry/state''"

section \<open>From the database to MQTT\<close>

record mqtt_message =
  topic :: string
  payload :: string
  qos :: nat

text \<open>The messages handed to \<open>publish\<close>; \<open>pub\<close> is what \<open>publish\<close> throws, if it does.\<close>

definition on_db_event_received ::
  "json_serialize \<Rightarrow> bool \<Rightarrow> exn option \<Rightarrow> json_object \<Rightarrow> exn + mqtt_message list" where
  "on_db_event_received ser online pub msg =
     (if msg = [] then Inr []
      else sbind (sbind (obj_at msg ''channel'') as_string) (\<lambda>channel.
        if \<not> online then Inr []
        else catch_std
          (case pub of Some e \<Rightarrow> Inl e
           | None \<Rightarrow> Inr [\<lparr>topic = REQUEST_CONFIG_TOPIC, payload = ser (JObject msg), qos = 1\<rparr>])
          (\<lambda>_. Inr [])))"

section \<open>From MQTT to the database\<close>

definition telemetry_fields :: "json_object \<Rightarrow> exn + (int \<times> rat)" where
  "telemetry_fields obj =
     sbind (sbind (obj_at obj ''sensor_id'') as_int64) (\<lambda>sensor_id.
     sbind (sbind (obj_at obj ''temp'') as_double) (\<lambda>temp.
       Inr (to_int32 sensor_id, temp)))"

definition on_telemetry ::
  "json_object \<Rightarrow> 'h db_manager \<Rightarrow> database \<Rightarrow> (exn + unit) \<times> 'h db_manager \<times> database" where
  "on_telemetry obj m db =
     (case telemetry_fields obj of
        Inl e \<Rightarrow> (Inl e, m, db)
      | Inr (sensor_id, temp) \<Rightarrow> upsert_sensor_state sensor_id temp m db)"

record config_ack =
  ack_sensor :: int
  ack_hostname :: string
  ack_ip :: string
  ack_active :: bool
  ack_action :: string
  ack_request :: u64

definition config_ack_fields :: "json_object \<Rightarrow> exn + config_ack" where
  "config_ack_fields p =
     sbind (sbind (obj_at p ''sensor_id'') as_int64) (\<lambda>sensor_id.
     sbind (sbind (obj_at p ''hostname'') as_string) (\<lambda>hst.
     sbind (sbind (obj_at p ''ip_address'') as_string) (\<lambda>ip.
     sbind (sbind (obj_at p ''is_active'') as_bool) (\<lambda>active.
     sbind (sbind (obj_at p ''action'') as_string) (\<lambda>action.
     sbind (sbind (obj_at p ''request_id'') as_int64) (\<lambda>rid.
       Inr \<lparr>ack_sensor = to_int32 sensor_id, ack_hostname = c_str_copy hst, ack_ip = c_str_copy ip,
            ack_active = active, ack_action = c_str_copy action, ack_request = to_u64 rid\<rparr>))))))"

definition on_config_event ::
  "inet_input \<Rightarrow> json_object \<Rightarrow> 'h db_manager \<Rightarrow> database \<Rightarrow> (exn + unit) \<times> 'h db_manager \<times> database" where
  "on_config_event inet obj m db =
     (if obj_contains obj ''payload''
      then case sbind (sbind (obj_at obj ''payload'') as_object) config_ack_fields of
             Inl e \<Rightarrow> (Inl e, m, db)
           | Inr a \<Rightarrow> upsert_sensor_config inet (ack_sensor a) (ack_hostname a) (ack_ip a) (ack_active a) (ack_request a) m db
      else (Inr (), m, db))"

text \<open>The body of the loop for one message: parse, look the topic up, call the handler.\<close>

definition handle_message ::
  "inet_input \<Rightarrow> json_parse \<Rightarrow> mqtt_message \<Rightarrow> 'h db_manager \<Rightarrow> database \<Rightarrow> (exn + unit) \<times> 'h db_manager \<times> database" where
  "handle_message inet prs msg m db =
     (case sbind (prs (payload msg)) as_object of
        Inl e \<Rightarrow> (Inl e, m, db)
      | Inr obj \<Rightarrow>
          if topic msg = TELEMETRY_TOPIC then on_telemetry obj m db
          else if topic msg = EVENTS_CONFIG_TOPIC then on_config_event inet obj m db
          else (Inr (), m, db))"

text \<open>
  The consume loop on what the broker has delivered so far: \<^term>\<open>Inl e\<close> means that an exception left
  the loop, and it is over; \<^term>\<open>Inr ()\<close> that it waits for the next message.
\<close>

fun consume_loop ::
  "inet_input \<Rightarrow> json_parse \<Rightarrow> mqtt_message option list \<Rightarrow> 'h db_manager \<Rightarrow> database
    \<Rightarrow> (exn + unit) \<times> 'h db_manager \<times> database" where
  "consume_loop inet prs [] m db = (Inr (), m, db)"
| "consume_loop inet prs (None # msgs) m db = consume_loop inet prs msgs m db"
| "consume_loop inet prs (Some msg # msgs) m db =
     (case handle_message inet prs msg m db of
        (Inl e, s) \<Rightarrow> (Inl e, s)
      | (Inr _, m', db') \<Rightarrow> consume_loop inet prs msgs m' db')"

section \<open>Start-up\<close>

text \<open>
  \<open>main\<close>: a database that refuses the connection is logged and ignored; an MQTT exception before the loop ends
  the process with code 1, and any other leaves \<open>main\<close>. After the loop the process joins the listener's thread
  and ends with 0. The parameters say what connects, what setting up MQTT comes to (\<^term>\<open>None\<close>: it is still
  waiting), and whether the listener's thread ends. \<open>Crashed\<close> is \<open>std::terminate\<close> or undefined behaviour.
\<close>

datatype controller_result = Exited nat | Crashed | Connecting | Running | Joining

definition join_listener :: "bool \<Rightarrow> 'h db_manager \<Rightarrow> controller_result" where
  "join_listener listener_ends m = (if listener_thread m \<and> \<not> listener_ends then Joining else Exited 0)"

definition controller_manager :: "bool \<Rightarrow> bool \<Rightarrow> 'h \<Rightarrow> 'h db_manager" where
  "controller_manager ok1 ok2 callback =
     (case db_connect ok1 ok2 new_db_manager of
        (Inl e, m) \<Rightarrow> m
      | (Inr _, m) \<Rightarrow> run_listener_loop (register_listen_async ''config_requested'' callback m))"

definition controller_main ::
  "inet_input \<Rightarrow> json_parse \<Rightarrow> bool \<Rightarrow> bool \<Rightarrow> (exn + unit) option \<Rightarrow> 'h \<Rightarrow> bool \<Rightarrow> mqtt_message option list
    \<Rightarrow> database \<Rightarrow> controller_result \<times> 'h db_manager \<times> database" where
  "controller_main inet prs ok1 ok2 mqtt callback listener_ends msgs db =
     (let m = controller_manager ok1 ok2 callback
      in case mqtt of
           None \<Rightarrow> (Connecting, m, db)
         | Some (Inl e) \<Rightarrow> ((case e of Mqtt_exception _ \<Rightarrow> Exited 1 | _ \<Rightarrow> Crashed), m, db)
         | Some (Inr _) \<Rightarrow>
             (case consume_loop inet prs msgs m db of
                (Inl e, m', db') \<Rightarrow> (if is_std_exception e then join_listener listener_ends m' else Crashed, m', db')
              | (Inr _, s) \<Rightarrow> (Running, s)))"

section \<open>Properties\<close>

lemma consume_loop_append:
  "consume_loop inet prs (xs @ ys) m db =
    (case consume_loop inet prs xs m db of
       (Inl e, s) \<Rightarrow> (Inl e, s) | (Inr _, m', db') \<Rightarrow> consume_loop inet prs ys m' db')"
  by (induction inet prs xs m db rule: consume_loop.induct) (auto split: prod.splits sum.splits)

text \<open>One bad message ends the controller's loop. A message whose text is not a JSON object, whatever its
  topic, stops the loop for good: it changes nothing, and no message after it is looked at.\<close>

lemma bad_message_ends_loop:
  assumes "consume_loop inet prs msgs m db = (Inr (), m1, db1)"
    and "sbind (prs (payload bad)) as_object = Inl e"
  shows "consume_loop inet prs (msgs @ Some bad # later) m db = (Inl e, m1, db1)"
  using assms by (simp add: consume_loop_append handle_message_def)

definition good_telemetry :: mqtt_message where
  "good_telemetry = \<lparr>topic = TELEMETRY_TOPIC, payload = ''t'', qos = 1\<rparr>"

definition node_parse :: json_parse where
  "node_parse s = (if s = ''t'' then Inr (JObject [(''sensor_id'', JInt64 1), (''temp'', JDouble 35)])
     else Inl (Json_error ''syntax error''))"

lemma bad_message_ends_loop_example:
  "consume_loop Some node_parse ([] @ Some \<lparr>topic = ''x'', payload = ''oops!'', qos = 1\<rparr> # [Some good_telemetry])
      (sample_mgr :: unit db_manager) sample_db = (Inl (Json_error ''syntax error''), sample_mgr, sample_db)"
  by (rule bad_message_ends_loop) (simp_all add: node_parse_def)

text \<open>Telemetry on a lost connection: the first reading after the loss is dropped without an error,
  and the next one ends the loop.\<close>

lemma telemetry_after_link_loss:
  assumes "connection_queries m = Open_conn" and "\<not> link_up m"
    and "\<forall>msg \<in> {a, b}. topic msg = TELEMETRY_TOPIC
      \<and> (\<exists>obj x. prs (payload msg) = Inr (JObject obj) \<and> telemetry_fields obj = Inr x)"
  shows "\<exists>m'. consume_loop inet prs [Some a] m db = (Inr (), m', db)
    \<and> consume_loop inet prs (Some a # Some b # later) m db
      = (Inl (Runtime_error ''DML Connection not available for telemetry.''), m', db)"
proof -
  let ?m' = "m\<lparr>connection_queries := Closed_conn\<rparr>"
  have a: "handle_message inet prs a m db = (Inr (), ?m', db)"
    using assms by (auto simp: handle_message_def on_telemetry_def upsert_sensor_state_def
        queries_available_def run_txn_def swallow_def is_std_exception_def)
  have b: "handle_message inet prs b ?m' db = (Inl (Runtime_error ''DML Connection not available for telemetry.''), ?m', db)"
    using assms by (auto simp: handle_message_def on_telemetry_def upsert_sensor_state_def queries_available_def)
  show ?thesis by (intro exI [of _ ?m']) (simp add: a b)
qed

lemma telemetry_after_link_loss_example:
  "\<exists>m'. consume_loop Some node_parse [Some good_telemetry] ((sample_mgr :: unit db_manager)\<lparr>link_up := False\<rparr>) sample_db
      = (Inr (), m', sample_db)"
proof -
  let ?m = "(sample_mgr :: unit db_manager)\<lparr>link_up := False\<rparr>"
  have "\<forall>msg \<in> {good_telemetry, good_telemetry}. topic msg = TELEMETRY_TOPIC
      \<and> (\<exists>obj x. node_parse (payload msg) = Inr (JObject obj) \<and> telemetry_fields obj = Inr x)"
    by (simp add: good_telemetry_def node_parse_def telemetry_fields_def obj_at_def)
  from telemetry_after_link_loss [OF _ _ this, of ?m Some sample_db "[]"] show ?thesis
    by (auto simp: sample_mgr_def)
qed

lemma upsert_state_schema:
  "schema_ok db \<Longrightarrow> upsert_sensor_state sid t m db = (r, m', db') \<Longrightarrow> schema_ok db'"
  by (auto simp: upsert_sensor_state_def split: if_splits dest!: swallow_txn_effect dest: sql_upsert_state_ok)

lemma upsert_config_schema:
  "schema_ok db \<Longrightarrow> upsert_sensor_config inet sid h ip a rid m db = (r, m', db') \<Longrightarrow> schema_ok db'"
  by (auto simp: upsert_sensor_config_def upsert_config_stmt_Inr dest!: swallow_txn_effect
      dest: sql_upsert_config_ok)

text \<open>Whatever the broker delivers, the tables stay consistent: a message either applies one
  statement that keeps the schema or changes nothing.\<close>

lemma controller_keeps_schema:
  assumes "schema_ok db" and "consume_loop inet prs msgs m db = (r, m', db')"
  shows "schema_ok db'"
  using assms
proof (induction inet prs msgs m db rule: consume_loop.induct)
  case (3 inet prs msg msgs m db)
  obtain x m1 db1 where one: "handle_message inet prs msg m db = (x, m1, db1)" by (metis prod_cases3)
  have "schema_ok db1"
    using one "3.prems"(1) upsert_state_schema upsert_config_schema
    by (fastforce simp: handle_message_def on_telemetry_def on_config_event_def split: sum.splits if_splits)
  with 3 one show ?case by (cases x) auto
qed auto

lemma controller_keeps_schema_example:
  "schema_ok (snd (snd (consume_loop Some node_parse [Some good_telemetry] (sample_mgr :: unit db_manager) sample_db)))"
proof -
  obtain r m' db' where run: "consume_loop Some node_parse [Some good_telemetry] (sample_mgr :: unit db_manager) sample_db
    = (r, m', db')" by (metis prod_cases3)
  from controller_keeps_schema [OF sample_db_ok run] run show ?thesis by simp
qed

lemma handle_config_ack:
  assumes "topic msg = EVENTS_CONFIG_TOPIC" and "prs (payload msg) = Inr (JObject obj)"
    and "obj_at obj ''payload'' = Inr (JObject p)" and "config_ack_fields p = Inr a"
  shows "handle_message inet prs msg m db
    = upsert_sensor_config inet (ack_sensor a) (ack_hostname a) (ack_ip a) (ack_active a) (ack_request a) m db"
proof -
  have "obj_contains obj ''payload''" using assms(3) by (simp add: obj_contains_def)
  moreover have "sbind (sbind (obj_at obj ''payload'') as_object) config_ack_fields = Inr a"
    unfolding assms(3) by (simp add: assms(4))
  ultimately have "on_config_event inet obj m db
      = upsert_sensor_config inet (ack_sensor a) (ack_hostname a) (ack_ip a) (ack_active a) (ack_request a) m db"
    unfolding on_config_event_def by (simp del: sbind_eq_Inr)
  then show ?thesis
    using assms(1,2) by (simp add: handle_message_def EVENTS_CONFIG_TOPIC_def TELEMETRY_TOPIC_def)
qed

text \<open>A controller that could not reach the database at start-up keeps running without one, and
  crashes on the first acknowledged configuration: the call dereferences a null connection.\<close>

lemma controller_crashes_without_database:
  assumes "topic msg = EVENTS_CONFIG_TOPIC" and "prs (payload msg) = Inr (JObject obj)"
    and "obj_at obj ''payload'' = Inr (JObject p)" and "config_ack_fields p = Inr a"
  shows "fst (controller_main inet prs ok1 False (Some (Inr ())) callback b [] db) = Running
    \<and> fst (controller_main inet prs ok1 False (Some (Inr ())) callback b (Some msg # later) db) = Crashed"
proof -
  obtain m :: "'a db_manager" where m: "\<exists>e. db_connect ok1 False new_db_manager = (Inl e, m)"
      "connection_queries m = Null_conn"
    by (cases ok1) (simp_all add: db_connect_def new_db_manager_def)
  have "handle_message inet prs msg m db = (Inl Undefined_behaviour, m, db)"
    using m(2) unfolding handle_config_ack [of msg prs obj p a, OF assms]
    by (simp add: upsert_sensor_config_def run_txn_def swallow_def is_std_exception_def)
  with m(1) show ?thesis by (auto simp: controller_main_def controller_manager_def is_std_exception_def)
qed

definition good_ack :: json_object where
  "good_ack = [(''request_id'', JInt64 42), (''sensor_id'', JInt64 1), (''hostname'', JString ''sensor-1''),
     (''ip_address'', JString ''10.0.0.9''), (''is_active'', JBool True), (''action'', JString ''INSERT'')]"

lemma controller_crashes_without_database_example:
  "fst (controller_main Some (\<lambda>_. Inr (JObject [(''payload'', JObject good_ack)])) False False (Some (Inr ())) () True
      [Some \<lparr>topic = EVENTS_CONFIG_TOPIC, payload = ''p'', qos = 1\<rparr>] sample_db) = Crashed"
proof -
  have "\<exists>a. config_ack_fields good_ack = Inr a"
    by (simp add: config_ack_fields_def good_ack_def obj_at_def)
  then obtain a where "config_ack_fields good_ack = Inr a" by blast
  then show ?thesis
    by (intro conjunct2 [OF controller_crashes_without_database [where obj = "[(''payload'', JObject good_ack)]"]])
      (simp_all add: obj_at_def)
qed

end
