(* ===== verification/Sensor.thy ===== *)
theory Sensor
  imports Controller
begin

text \<open>
  \<open>sensor/src/main.cpp\<close>: a simulated sensor. It answers every configuration request by publishing it
  back with its channel changed, and publishes a temperature from time to time. As in the
  controller, the MQTT client is a parameter here; \<open>main\<close> and the telemetry thread are in \<open>Nodes\<close>.
\<close>

section \<open>Configuration requests\<close>

definition sensor_reply :: "json_parse \<Rightarrow> json_serialize \<Rightarrow> string \<Rightarrow> exn + mqtt_message" where
  "sensor_reply prs ser text =
     sbind (prs text) (\<lambda>jv.
     sbind (as_object jv) (\<lambda>obj.
       let obj = obj_set ''channel'' (JString ''config_events'') obj
       in Inr \<lparr>topic = EVENTS_CONFIG_TOPIC, payload = ser (JObject obj), qos = 1\<rparr>))"

text \<open>One round of the loop: \<open>pub\<close> is what \<open>publish\<close> throws, if it does; any exception is logged.\<close>

definition sensor_handle :: "json_parse \<Rightarrow> json_serialize \<Rightarrow> exn option \<Rightarrow> string \<Rightarrow> exn + mqtt_message list" where
  "sensor_handle prs ser pub text =
     catch_std (sbind (sensor_reply prs ser text) (\<lambda>m. case pub of Some e \<Rightarrow> Inl e | None \<Rightarrow> Inr [m])) (\<lambda>_. Inr [])"

datatype sensor_result = Sensor_exit nat | Sensor_running

text \<open>
  The loop on what the broker delivered, each message with what its \<open>publish\<close> does: a null message
  ends it with exit code 0. The second component is what was published.
\<close>

fun sensor_loop ::
  "json_parse \<Rightarrow> json_serialize \<Rightarrow> (string option \<times> exn option) list \<Rightarrow> exn + (sensor_result \<times> mqtt_message list)" where
  "sensor_loop prs ser [] = Inr (Sensor_running, [])"
| "sensor_loop prs ser ((None, pub) # msgs) = Inr (Sensor_exit 0, [])"
| "sensor_loop prs ser ((Some text, pub) # msgs) =
     sbind (sensor_handle prs ser pub text) (\<lambda>out.
     sbind (sensor_loop prs ser msgs) (\<lambda>(r, outs). Inr (r, out @ outs)))"

section \<open>Telemetry\<close>

text \<open>\<open>std::round\<close> rounds half away from zero.\<close>

definition std_round :: "rat \<Rightarrow> rat" where
  "std_round x = sgn x * of_int \<lfloor>\<bar>x\<bar> + 1 / 2\<rfloor>"

definition telemetry_object :: "int \<Rightarrow> rat \<Rightarrow> json_object" where
  "telemetry_object sensor_id temp =
     obj_set ''temp'' (JDouble (std_round (temp * 100) / 100)) (obj_set ''sensor_id'' (JInt64 sensor_id) [])"

text \<open>One round of the producer; only MQTT exceptions are caught.\<close>

definition telemetry_round :: "json_serialize \<Rightarrow> exn option \<Rightarrow> int \<Rightarrow> rat \<Rightarrow> exn + mqtt_message list" where
  "telemetry_round ser pub sensor_id temp =
     (case pub of
        None \<Rightarrow> Inr [\<lparr>topic = TELEMETRY_TOPIC, payload = ser (JObject (telemetry_object sensor_id temp)), qos = 1\<rparr>]
      | Some (Mqtt_exception _) \<Rightarrow> Inr []
      | Some e \<Rightarrow> Inl e)"

section \<open>Properties\<close>

definition answers :: "json_parse \<Rightarrow> json_serialize \<Rightarrow> string option \<times> exn option \<Rightarrow> mqtt_message list" where
  "answers prs ser x =
     (case x of (Some text, None) \<Rightarrow> (case sensor_reply prs ser text of Inr m \<Rightarrow> [m] | Inl _ \<Rightarrow> []) | _ \<Rightarrow> [])"

definition benign :: "json_parse \<Rightarrow> (string option \<times> exn option) \<Rightarrow> bool" where
  "benign prs x \<longleftrightarrow> (\<forall>text. prs text \<noteq> Inl Undefined_behaviour) \<and> snd x \<noteq> Some Undefined_behaviour"

lemma sensor_reply_std:
  "\<forall>text. prs text \<noteq> Inl Undefined_behaviour \<Longrightarrow> sensor_reply prs ser text = Inl e \<Longrightarrow> is_std_exception e"
  by (auto simp: sensor_reply_def sbind_eq_Inl Let_def is_std_exception_def dest: as_std)

lemma sensor_handle_answers:
  assumes "benign prs (Some text, pub)"
  shows "sensor_handle prs ser pub text = Inr (answers prs ser (Some text, pub))"
proof (cases "sensor_reply prs ser text")
  case (Inl e)
  with assms sensor_reply_std [OF _ Inl] show ?thesis
    by (cases pub) (simp_all add: sensor_handle_def answers_def benign_def)
next
  case (Inr m)
  with assms show ?thesis
    by (cases pub) (auto simp: sensor_handle_def answers_def benign_def is_std_exception_def)
qed

text \<open>The sensor survives its input. Until the broker goes away it publishes exactly one answer for
  each message that is a JSON object and could be published, in order, and skips the others.\<close>

lemma sensor_answers_in_order:
  assumes "\<forall>x \<in> set msgs. benign prs x"
  shows "sensor_loop prs ser msgs =
    Inr (if \<exists>x \<in> set msgs. fst x = None then Sensor_exit 0 else Sensor_running,
         concat (map (answers prs ser) (takeWhile (\<lambda>x. fst x \<noteq> None) msgs)))"
  using assms
proof (induction prs ser msgs rule: sensor_loop.induct)
  case (3 prs ser s pub msgs)
  then have "sensor_handle prs ser pub s = Inr (answers prs ser (Some s, pub))"
    using sensor_handle_answers by simp
  with 3 show ?case by simp
qed simp_all

definition echo_parse :: json_parse where
  "echo_parse s = (if s = ''{}'' then Inr (JObject []) else Inl (Json_error ''syntax error''))"

lemma sensor_answers_in_order_example:
  "sensor_loop echo_parse (\<lambda>_. ''r'') [(Some ''bad'', None), (Some ''{}'', None), (None, None), (Some ''{}'', None)]
    = Inr (Sensor_exit 0, [\<lparr>topic = EVENTS_CONFIG_TOPIC, payload = ''r'', qos = 1\<rparr>])"
proof -
  let ?msgs = "[(Some ''bad'', None), (Some ''{}'', None), (None, None), (Some ''{}'', None)]"
  have "\<forall>x \<in> set ?msgs. benign echo_parse x" by (simp add: benign_def echo_parse_def)
  from sensor_answers_in_order [OF this, of "\<lambda>_. ''r''"] show ?thesis
    by (simp add: answers_def sensor_reply_def echo_parse_def)
qed

lemma std_round_int: "std_round (of_int n) = of_int n"
proof -
  have "\<lfloor>\<bar>of_int n :: rat\<bar> + 1 / 2\<rfloor> = \<bar>n\<bar>"
    by (rule floor_unique) simp_all
  then show ?thesis by (simp add: std_round_def sgn_if)
qed

lemma std_round_is_int: "std_round x = of_int (\<lfloor>\<bar>x\<bar> + 1 / 2\<rfloor> * (if x < 0 then -1 else if x = 0 then 0 else 1))"
  by (simp add: std_round_def sgn_if)

lemma sql_numeric_round: "sql_numeric_5_2 x = (let r = std_round (x * 100) / 100 in
    if \<bar>r\<bar> < 1000 then Inr r else Inl (Sql_error ''numeric field overflow''))"
  by (simp add: sql_numeric_5_2_def std_round_def sgn_mult abs_mult)

lemma numeric_idempotent:
  assumes "\<bar>std_round (x * 100) / 100\<bar> < 1000"
  shows "sql_numeric_5_2 (std_round (x * 100) / 100) = Inr (std_round (x * 100) / 100)"
proof -
  obtain n where n: "std_round (x * 100) = of_int n" using std_round_is_int by blast
  have "std_round (std_round (x * 100) / 100 * 100) = std_round (x * 100)"
    by (simp add: n std_round_int)
  with assms show ?thesis by (simp add: sql_numeric_round Let_def)
qed

text \<open>A reading below 1000 degrees reaches the table unchanged: the value the sensor rounded to two
  places is the value the controller stores, and the stored row is announced with it.\<close>

lemma telemetry_reaches_table:
  assumes "codec_ok prs ser (JObject (telemetry_object sid temp))"
    and "manager_ready m" and "map_of (sensor_config db) sid \<noteq> None"
    and "int32_min \<le> sid" and "sid \<le> int32_max" and "\<bar>std_round (temp * 100) / 100\<bar> < 1000"
    and "telemetry_round ser None sid temp = Inr [msg]"
  shows "\<exists>db'. consume_loop inet prs [Some msg] m db = (Inr (), m, db')
    \<and> sensor_state db' = AList.update sid \<lparr>current_temp = Some (std_round (temp * 100) / 100), last_update = clock db\<rparr>
        (sensor_state db)
    \<and> fst (last (notifications db')) = ''state_events''"
proof -
  let ?t = "std_round (temp * 100) / 100"
  have msg: "topic msg = TELEMETRY_TOPIC" "payload msg = ser (JObject (telemetry_object sid temp))"
    using assms(7) by (auto simp: telemetry_round_def)
  have "json_normal (JObject (telemetry_object sid temp)) = JObject (telemetry_object sid temp)"
    by (simp add: telemetry_object_def obj_set_def)
  then have parsed: "prs (payload msg) = Inr (JObject (telemetry_object sid temp))"
    using assms(1) msg(2) by (simp add: codec_ok_def)
  have fields: "telemetry_fields (telemetry_object sid temp) = Inr (sid, ?t)"
    using assms(4,5) by (simp add: telemetry_fields_def telemetry_object_def obj_set_def obj_at_def to_int32_id)
  obtain row where row: "map_of (sensor_config db) sid = Some row" using assms(3) by blast
  show ?thesis
    using assms(2) msg(1) parsed fields row numeric_idempotent [OF assms(6)]
    by (simp add: handle_message_def on_telemetry_def upsert_sensor_state_def manager_ready_def
        queries_available_def run_txn_def unit_stmt_def sql_upsert_state_def swallow_def Let_def
        notify_state_change_def)
qed

lemma telemetry_reaches_table_example:
  "\<exists>db'. consume_loop Some (\<lambda>_. Inr (JObject (telemetry_object 1 35)))
      [Some \<lparr>topic = TELEMETRY_TOPIC, payload = ''t'', qos = 1\<rparr>] (sample_mgr :: unit db_manager) sample_db
    = (Inr (), sample_mgr, db') \<and> sensor_state db' = [(1, \<lparr>current_temp = Some 35, last_update = ''t''\<rparr>)]"
proof -
  let ?msg = "\<lparr>topic = TELEMETRY_TOPIC, payload = ''t'', qos = 1\<rparr>"
  have round: "std_round (35 * 100) = 3500" using std_round_int [of 3500] by simp
  have "codec_ok (\<lambda>_. Inr (JObject (telemetry_object 1 35))) (\<lambda>_. ''t'') (JObject (telemetry_object 1 35))"
    by (simp add: codec_ok_def telemetry_object_def obj_set_def)
  moreover have "manager_ready (sample_mgr :: unit db_manager)" by (rule sample_mgr_ready)
  moreover have "map_of (sensor_config sample_db) 1 \<noteq> None" by (simp add: sample_db_def)
  moreover have "telemetry_round (\<lambda>_. ''t'') None 1 35 = Inr [?msg]" by (simp add: telemetry_round_def)
  ultimately obtain db' where
    "consume_loop Some (\<lambda>_. Inr (JObject (telemetry_object 1 35))) [Some ?msg] (sample_mgr :: unit db_manager) sample_db
      = (Inr (), sample_mgr, db')"
    "sensor_state db' = AList.update 1 \<lparr>current_temp = Some (std_round (35 * 100) / 100), last_update = clock sample_db\<rparr>
      (sensor_state sample_db)"
    using telemetry_reaches_table [of "\<lambda>_. Inr (JObject (telemetry_object 1 35))" "\<lambda>_. ''t''" 1 35
      "sample_mgr :: unit db_manager" sample_db ?msg Some] round
    by auto
  then show ?thesis using round by (auto simp: sample_db_def)
qed

end
