(* ===== verification/Proxy.thy ===== *)
theory Proxy
  imports Prelude
begin

text \<open>
  \<open>proxy/src/main.cpp\<close>: the TLS proxy in front of the server. Every accepted connection gets a
  coroutine that reads one request, writes it to the one TLS stream to the backend, reads one
  response from that stream and sends it back. The stream is shared by all coroutines without any
  coordination, so writes and reads of different sessions interleave at every suspension point. The
  backend answers the requests of its connection in order. Requests and responses are abstract;
  what the proxy changes in them is the keep-alive flag.
\<close>

section \<open>Credentials\<close>

record ('store, 'cert, 'key) proxy_credentials =
  ca_store :: 'store
  proxy_certs :: "'cert list"
  proxy_key :: 'key

text \<open>\<open>attempts\<close>: what the successive parses of the chain file yield; failures are skipped.\<close>

definition load_proxy_credentials ::
  "'store \<Rightarrow> 'cert option list \<Rightarrow> 'key \<Rightarrow> ('store, 'cert, 'key) proxy_credentials" where
  "load_proxy_credentials store attempts k =
     \<lparr>ca_store = store, proxy_certs = List.map_filter (\<lambda>a. a) attempts, proxy_key = k\<rparr>"

definition trusted_certificate_authorities ::
  "('store, 'cert, 'key) proxy_credentials \<Rightarrow> string \<Rightarrow> 'store list" where
  "trusted_certificate_authorities c type = (if type = ''tls-client'' then [ca_store c] else [])"

definition proxy_find_cert_chain :: "('store, 'cert, 'key) proxy_credentials \<Rightarrow> string list \<Rightarrow> 'cert list" where
  "proxy_find_cert_chain c algos = proxy_certs c"

definition proxy_private_key_for :: "('store, 'cert, 'key) proxy_credentials \<Rightarrow> 'cert \<Rightarrow> 'key option" where
  "proxy_private_key_for c cert =
     (if proxy_certs c \<noteq> [] \<and> hd (proxy_certs c) = cert then Some (proxy_key c) else None)"

text \<open>The verification callback only logs around the library's check, whose verdict it passes on.\<close>

definition tls_verify_cert_chain :: "exn + unit \<Rightarrow> exn + unit" where
  "tls_verify_cert_chain base = (case base of Inl e \<Rightarrow> Inl e | Inr _ \<Rightarrow> Inr ())"

datatype proxy_policy = Proxy_default_policy | Proxy_text_policy string

definition proxy_load_tls_policy :: "(string \<Rightarrow> string) \<Rightarrow> string \<Rightarrow> proxy_policy" where
  "proxy_load_tls_policy file path =
     (if path = ''default'' \<or> path = [] then Proxy_default_policy else Proxy_text_policy (file path))"

section \<open>The shared stream\<close>

record 'a http_msg =
  content :: 'a
  keep_alive :: bool

text \<open>
  A session: before its request was read, with the request it read, waiting for a response after it
  wrote, and with the response it sent back; \<open>Failed\<close> when an exception ended it.
\<close>

datatype 'a session = Reading | Got "'a http_msg" | Awaiting "'a http_msg" | Answered "'a http_msg" "'a http_msg" | Failed

text \<open>
  The backend connection: requests written and not yet answered, and responses sent and not yet
  read, both oldest first. \<open>serve\<close> is the backend's answer to a request.
\<close>

record 'a proxy_state =
  sessions :: "nat \<Rightarrow> 'a session"
  unanswered :: "'a http_msg list"
  unread :: "'a http_msg list"

definition init_proxy :: "'a proxy_state" where
  "init_proxy = \<lparr>sessions = (\<lambda>_. Reading), unanswered = [], unread = []\<rparr>"

definition accept_request :: "nat \<Rightarrow> 'a http_msg \<Rightarrow> 'a proxy_state \<Rightarrow> 'a proxy_state" where
  "accept_request i req p = p\<lparr>sessions := (sessions p)(i := Got req)\<rparr>"

text \<open>\<open>req.keep_alive(true)\<close>, then the write to the backend.\<close>

definition forward_request :: "nat \<Rightarrow> 'a proxy_state \<Rightarrow> 'a proxy_state" where
  "forward_request i p =
     (case sessions p i of
        Got req \<Rightarrow>
          let req' = req\<lparr>keep_alive := True\<rparr>
          in p\<lparr>sessions := (sessions p)(i := Awaiting req'), unanswered := unanswered p @ [req']\<rparr>
      | _ \<Rightarrow> p)"

definition backend_answers :: "('a http_msg \<Rightarrow> 'a http_msg) \<Rightarrow> 'a proxy_state \<Rightarrow> 'a proxy_state" where
  "backend_answers serve p =
     (case unanswered p of [] \<Rightarrow> p | r # rs \<Rightarrow> p\<lparr>unanswered := rs, unread := unread p @ [serve r]\<rparr>)"

text \<open>The read from the backend, \<open>res.keep_alive(false)\<close>, and the write to the client.\<close>

definition return_response :: "nat \<Rightarrow> 'a proxy_state \<Rightarrow> 'a proxy_state" where
  "return_response i p =
     (case (sessions p i, unread p) of
        (Awaiting req, res # rest) \<Rightarrow>
          p\<lparr>sessions := (sessions p)(i := Answered req (res\<lparr>keep_alive := False\<rparr>)), unread := rest\<rparr>
      | _ \<Rightarrow> p)"

text \<open>
  The buffer of that read is local to the session: what it received beyond its response, here the next \<open>k\<close>
  responses, is dropped with it.
\<close>

definition drop_buffered :: "nat \<Rightarrow> 'a proxy_state \<Rightarrow> 'a proxy_state" where
  "drop_buffered k p = p\<lparr>unread := drop k (unread p)\<rparr>"

definition fail_session :: "nat \<Rightarrow> 'a proxy_state \<Rightarrow> 'a proxy_state" where
  "fail_session i p = p\<lparr>sessions := (sessions p)(i := Failed)\<rparr>"

text \<open>
  The steps. A session fails when any of its reads or writes throws; the stream to the backend is
  kept as it is.
\<close>

inductive proxy_step :: "('a http_msg \<Rightarrow> 'a http_msg) \<Rightarrow> 'a proxy_state \<Rightarrow> 'a proxy_state \<Rightarrow> bool"
  for serve :: "'a http_msg \<Rightarrow> 'a http_msg" where
  accept: "sessions p i = Reading \<Longrightarrow> proxy_step serve p (accept_request i req p)"
| forward: "sessions p i = Got req \<Longrightarrow> proxy_step serve p (forward_request i p)"
| backend: "unanswered p \<noteq> [] \<Longrightarrow> proxy_step serve p (backend_answers serve p)"
| deliver: "sessions p i = Awaiting req \<Longrightarrow> unread p \<noteq> [] \<Longrightarrow> proxy_step serve p (return_response i p)"
| overread: "sessions p i = Awaiting req \<Longrightarrow> k < length (unread p) \<Longrightarrow> proxy_step serve p (drop_buffered k (return_response i p))"
| failure: "sessions p i \<noteq> Failed \<Longrightarrow> proxy_step serve p (fail_session i p)"

inductive proxy_reachable :: "('a http_msg \<Rightarrow> 'a http_msg) \<Rightarrow> 'a proxy_state \<Rightarrow> bool"
  for serve :: "'a http_msg \<Rightarrow> 'a http_msg" where
  start: "proxy_reachable serve init_proxy"
| step: "proxy_reachable serve p \<Longrightarrow> proxy_step serve p p' \<Longrightarrow> proxy_reachable serve p'"

section \<open>Properties\<close>

text \<open>
  Runs in which at most one session at a time has a request on the stream, and none fails while it
  has. The invariant of such a run: the stream holds nothing but the request or the response of the
  session that waits, and every response sent back belongs to its request.
\<close>

definition exclusive :: "'a proxy_state \<Rightarrow> bool" where
  "exclusive p \<longleftrightarrow> (\<forall>i j r s. sessions p i = Awaiting r \<longrightarrow> sessions p j = Awaiting s \<longrightarrow> i = j)"

definition undisturbed :: "'a proxy_state \<Rightarrow> 'a proxy_state \<Rightarrow> bool" where
  "undisturbed p p' \<longleftrightarrow> (\<forall>i req. sessions p i = Awaiting req \<longrightarrow> sessions p' i \<noteq> Failed)"

inductive serial_reachable :: "('a http_msg \<Rightarrow> 'a http_msg) \<Rightarrow> 'a proxy_state \<Rightarrow> bool"
  for serve :: "'a http_msg \<Rightarrow> 'a http_msg" where
  start: "serial_reachable serve init_proxy"
| step: "serial_reachable serve p \<Longrightarrow> proxy_step serve p p' \<Longrightarrow> exclusive p' \<Longrightarrow> undisturbed p p'
    \<Longrightarrow> serial_reachable serve p'"

definition own_answers :: "('a http_msg \<Rightarrow> 'a http_msg) \<Rightarrow> 'a proxy_state \<Rightarrow> bool" where
  "own_answers serve p \<longleftrightarrow> (\<forall>i req res. sessions p i = Answered req res \<longrightarrow> res = (serve req)\<lparr>keep_alive := False\<rparr>)"

definition stream_matches :: "('a http_msg \<Rightarrow> 'a http_msg) \<Rightarrow> 'a proxy_state \<Rightarrow> bool" where
  "stream_matches serve p \<longleftrightarrow>
     (if \<exists>i req. sessions p i = Awaiting req
      then \<exists>i req. sessions p i = Awaiting req
        \<and> (unanswered p = [req] \<and> unread p = [] \<or> unanswered p = [] \<and> unread p = [serve req])
      else unanswered p = [] \<and> unread p = [])"

definition serial_inv :: "('a http_msg \<Rightarrow> 'a http_msg) \<Rightarrow> 'a proxy_state \<Rightarrow> bool" where
  "serial_inv serve p \<longleftrightarrow> exclusive p \<and> own_answers serve p \<and> stream_matches serve p"

lemmas proxy_ops = accept_request_def forward_request_def backend_answers_def return_response_def
  fail_session_def init_proxy_def Let_def

lemma stream_matches_busy:
  assumes "stream_matches serve p" and "exclusive p" and "sessions p i = Awaiting req"
  shows "unanswered p = [req] \<and> unread p = [] \<or> unanswered p = [] \<and> unread p = [serve req]"
  using assms unfolding stream_matches_def exclusive_def by (metis session.inject(2))

lemma stream_matches_idle:
  assumes "stream_matches serve p" and "\<And>i req. sessions p i \<noteq> Awaiting req"
  shows "unanswered p = []" and "unread p = []"
  using assms unfolding stream_matches_def by auto

lemma serial_deliver:
  assumes "serial_inv serve p" and "sessions p i = Awaiting req" and "unread p \<noteq> []"
  shows "serial_inv serve (return_response i p) \<and> unread (return_response i p) = []"
proof -
  have inv: "exclusive p" "own_answers serve p" "stream_matches serve p" using assms(1) by (simp_all add: serial_inv_def)
  from stream_matches_busy [OF inv(3,1) assms(2)] assms(3) have "unanswered p = []" "unread p = [serve req]" by auto
  with assms(2) have eq: "return_response i p
      = p\<lparr>sessions := (sessions p)(i := Answered req ((serve req)\<lparr>keep_alive := False\<rparr>)), unread := []\<rparr>"
    by (simp add: return_response_def)
  have none: "sessions (return_response i p) j \<noteq> Awaiting r" for j r
    using inv(1) assms(2) unfolding eq exclusive_def by auto
  then have "exclusive (return_response i p)" by (simp add: exclusive_def)
  moreover have "stream_matches serve (return_response i p)"
    unfolding stream_matches_def using none eq \<open>unanswered p = []\<close> by auto
  moreover have "own_answers serve (return_response i p)" unfolding eq using inv(2) by (auto simp: own_answers_def)
  ultimately show ?thesis using eq by (simp add: serial_inv_def)
qed

lemma serial_step_inv:
  assumes "proxy_step serve p p'" and "serial_inv serve p" and "exclusive p'" and "undisturbed p p'"
  shows "serial_inv serve p'"
  using assms
proof (induction rule: proxy_step.induct)
  case (accept p i req)
  then have inv: "exclusive p" "own_answers serve p" "stream_matches serve p" by (simp_all add: serial_inv_def)
  have same: "sessions (accept_request i req p) j = Awaiting r \<longleftrightarrow> sessions p j = Awaiting r" for j r
    using accept by (auto simp: accept_request_def)
  have "stream_matches serve (accept_request i req p)"
    using inv(3) unfolding stream_matches_def same by (simp add: accept_request_def)
  moreover have "own_answers serve (accept_request i req p)"
    using inv(2) by (auto simp: own_answers_def accept_request_def)
  ultimately show ?case using accept by (simp add: serial_inv_def)
next
  case (forward p i req)
  then have inv: "exclusive p" "own_answers serve p" "stream_matches serve p" by (simp_all add: serial_inv_def)
  let ?p' = "forward_request i p"
  have here: "sessions ?p' i = Awaiting (req\<lparr>keep_alive := True\<rparr>)" using forward by (simp add: forward_request_def Let_def)
  have "sessions p j \<noteq> Awaiting r" for j r
  proof
    assume j: "sessions p j = Awaiting r"
    with forward(1) have "j \<noteq> i" by auto
    with j forward(1) have "sessions ?p' j = Awaiting r" by (simp add: forward_request_def Let_def)
    with here \<open>j \<noteq> i\<close> forward(3) show False unfolding exclusive_def by blast
  qed
  from stream_matches_idle [OF inv(3) this] have "stream_matches serve ?p'"
    using here forward(1) unfolding stream_matches_def by (auto simp: forward_request_def Let_def)
  moreover have "own_answers serve ?p'"
    using inv(2) forward(1) by (auto simp: own_answers_def forward_request_def Let_def)
  ultimately show ?case using forward by (simp add: serial_inv_def)
next
  case (backend p)
  then have inv: "exclusive p" "own_answers serve p" "stream_matches serve p" by (simp_all add: serial_inv_def)
  from backend(1) stream_matches_idle [OF inv(3)] obtain i req where i: "sessions p i = Awaiting req" by blast
  from stream_matches_busy [OF inv(3,1) i] backend(1) have "unanswered p = [req]" "unread p = []" by auto
  then have eq: "backend_answers serve p = p\<lparr>unanswered := [], unread := [serve req]\<rparr>"
    by (simp add: backend_answers_def)
  have "stream_matches serve (backend_answers serve p)" unfolding eq stream_matches_def using i by auto
  moreover have "own_answers serve (backend_answers serve p)" unfolding eq using inv(2) by (simp add: own_answers_def)
  ultimately show ?case using backend by (simp add: serial_inv_def)
next
  case (deliver p i req)
  then show ?case using serial_deliver by blast
next
  case (overread p i req k)
  then have delivered: "serial_inv serve (return_response i p)" "unread (return_response i p) = []"
    using serial_deliver [of serve p i req] by (cases "unread p"; simp)+
  then have "drop_buffered k (return_response i p) = return_response i p" by (simp add: drop_buffered_def)
  with delivered(1) show ?case by simp
next
  case (failure p i)
  then have inv: "exclusive p" "own_answers serve p" "stream_matches serve p" by (simp_all add: serial_inv_def)
  have "sessions p i \<noteq> Awaiting r" for r using failure(4) by (auto simp: undisturbed_def fail_session_def)
  then have same: "sessions (fail_session i p) j = Awaiting r \<longleftrightarrow> sessions p j = Awaiting r" for j r
    by (auto simp: fail_session_def)
  have "stream_matches serve (fail_session i p)"
    using inv(3) unfolding stream_matches_def same by (simp add: fail_session_def)
  moreover have "own_answers serve (fail_session i p)"
    using inv(2) by (auto simp: own_answers_def fail_session_def)
  ultimately show ?case using failure by (simp add: serial_inv_def)
qed

lemma serial_reachable_inv: "serial_reachable serve p \<Longrightarrow> serial_inv serve p"
proof (induction rule: serial_reachable.induct)
  case start
  then show ?case
    by (simp add: serial_inv_def exclusive_def own_answers_def stream_matches_def init_proxy_def)
qed (rule serial_step_inv)

text \<open>C13: clients get the response to their own request as long as no two sessions have a request on the
  shared stream at the same time and none fails while it has one, however many sessions are accepted,
  served and dropped around it; once no session waits, the stream is empty again.\<close>

theorem exclusive_sessions_get_their_responses:
  assumes "serial_reachable serve p"
  shows "(sessions p i = Answered req res \<longrightarrow> res = (serve req)\<lparr>keep_alive := False\<rparr>)
    \<and> ((\<forall>j r. sessions p j \<noteq> Awaiting r) \<longrightarrow> unanswered p = [] \<and> unread p = [])"
proof -
  have "own_answers serve p" "stream_matches serve p"
    using serial_reachable_inv [OF assms] by (simp_all add: serial_inv_def)
  then show ?thesis by (auto simp: own_answers_def stream_matches_def)
qed

theorem exclusive_sessions_get_their_responses_witness:
  "\<exists>p. sessions p 3 = Answered \<lparr>content = ''x'', keep_alive = True\<rparr> \<lparr>content = ''x'', keep_alive = False\<rparr>
    \<and> serial_reachable (\<lambda>r. r) p \<and> unanswered p = [] \<and> unread p = []"
proof -
  let ?req = "\<lparr>content = ''x'', keep_alive = False\<rparr>"
  let ?p1 = "accept_request 3 ?req init_proxy"
  let ?p2 = "forward_request 3 ?p1"
  let ?p3 = "backend_answers (\<lambda>r. r) ?p2"
  let ?p4 = "return_response 3 ?p3"
  note simps = proxy_ops exclusive_def undisturbed_def
  have "serial_reachable (\<lambda>r. r) ?p1"
    by (rule serial_reachable.step [OF serial_reachable.start proxy_step.accept]) (simp_all add: simps)
  then have "serial_reachable (\<lambda>r. r) ?p2"
    by (rule serial_reachable.step [OF _ proxy_step.forward]) (simp_all add: simps)
  then have "serial_reachable (\<lambda>r. r) ?p3"
    by (rule serial_reachable.step [OF _ proxy_step.backend]) (simp_all add: simps)
  then have reach: "serial_reachable (\<lambda>r. r) ?p4"
    by (rule serial_reachable.step [OF _ proxy_step.deliver]) (simp_all add: simps)
  then show ?thesis
    using exclusive_sessions_get_their_responses [OF reach, of 3] by (intro exI [of _ ?p4]) (simp add: proxy_ops)
qed

text \<open>Two sessions with both responses on the stream, for any two requests.\<close>

definition both_answered :: "('a http_msg \<Rightarrow> 'a http_msg) \<Rightarrow> 'a http_msg \<Rightarrow> 'a http_msg \<Rightarrow> 'a proxy_state" where
  "both_answered serve a b = backend_answers serve (backend_answers serve
     (forward_request 2 (forward_request 1 (accept_request 2 b (accept_request 1 a init_proxy)))))"

lemma both_answered_reachable: "proxy_reachable serve (both_answered serve a b)"
proof -
  let ?p1 = "accept_request 1 a init_proxy"
  let ?p2 = "accept_request 2 b ?p1"
  let ?p3 = "forward_request 1 ?p2"
  let ?p4 = "forward_request 2 ?p3"
  let ?p5 = "backend_answers serve ?p4"
  have "proxy_reachable serve ?p1"
    by (rule proxy_reachable.step [OF proxy_reachable.start proxy_step.accept]) (simp add: init_proxy_def)
  then have "proxy_reachable serve ?p2"
    by (rule proxy_reachable.step [OF _ proxy_step.accept]) (simp add: proxy_ops)
  then have "proxy_reachable serve ?p3"
    by (rule proxy_reachable.step [OF _ proxy_step.forward]) (simp add: proxy_ops)
  then have "proxy_reachable serve ?p4"
    by (rule proxy_reachable.step [OF _ proxy_step.forward]) (simp add: proxy_ops)
  then have "proxy_reachable serve ?p5"
    by (rule proxy_reachable.step [OF _ proxy_step.backend]) (simp add: proxy_ops)
  then show ?thesis unfolding both_answered_def
    by (rule proxy_reachable.step [OF _ proxy_step.backend]) (simp add: proxy_ops)
qed

text \<open>Two sessions at once can get each other's responses: for any two requests there is a run in
  which each session is answered with the response to the other's request.\<close>

lemma responses_can_be_swapped:
  "\<exists>p. proxy_reachable serve p
    \<and> sessions p 1 = Answered (a\<lparr>keep_alive := True\<rparr>) ((serve (b\<lparr>keep_alive := True\<rparr>))\<lparr>keep_alive := False\<rparr>)
    \<and> sessions p 2 = Answered (b\<lparr>keep_alive := True\<rparr>) ((serve (a\<lparr>keep_alive := True\<rparr>))\<lparr>keep_alive := False\<rparr>)"
proof -
  let ?p1 = "return_response 2 (both_answered serve a b)"
  let ?p2 = "return_response 1 ?p1"
  note defs = proxy_ops both_answered_def
  have "proxy_reachable serve ?p1"
    by (rule proxy_reachable.step [OF both_answered_reachable proxy_step.deliver]) (simp_all add: defs)
  then have "proxy_reachable serve ?p2"
    by (rule proxy_reachable.step [OF _ proxy_step.deliver]) (simp_all add: defs)
  then show ?thesis by (intro exI [of _ ?p2]) (simp add: defs)
qed

text \<open>A session can also take the response of another one off the stream and drop it: there is a run after which
  one session is answered and the other waits, with nothing left that could come.\<close>

lemma response_can_be_dropped:
  "\<exists>p. proxy_reachable serve p
    \<and> sessions p 1 = Answered (a\<lparr>keep_alive := True\<rparr>) ((serve (a\<lparr>keep_alive := True\<rparr>))\<lparr>keep_alive := False\<rparr>)
    \<and> sessions p 2 = Awaiting (b\<lparr>keep_alive := True\<rparr>) \<and> unanswered p = [] \<and> unread p = []"
proof -
  let ?p = "drop_buffered 1 (return_response 1 (both_answered serve a b))"
  note defs = proxy_ops both_answered_def drop_buffered_def
  have "proxy_reachable serve ?p"
    by (rule proxy_reachable.step [OF both_answered_reachable proxy_step.overread]) (simp_all add: defs)
  then show ?thesis by (intro exI [of _ ?p]) (simp add: defs)
qed

definition flags_ok :: "'a proxy_state \<Rightarrow> bool" where
  "flags_ok p \<longleftrightarrow> list_all keep_alive (unanswered p)
     \<and> (\<forall>i req. sessions p i = Awaiting req \<longrightarrow> keep_alive req)
     \<and> (\<forall>i req res. sessions p i = Answered req res \<longrightarrow> keep_alive req \<and> \<not> keep_alive res)"

lemma proxy_step_flags: "proxy_step serve p p' \<Longrightarrow> flags_ok p \<Longrightarrow> flags_ok p'"
  by (induction rule: proxy_step.induct)
    (auto simp: flags_ok_def accept_request_def forward_request_def backend_answers_def return_response_def
      fail_session_def drop_buffered_def Let_def split: list.splits)

text \<open>The backend never sees a request that asks it to close, and a client is never told to keep
  its connection: in every reachable state what was written to the backend asks to be kept alive and
  what was sent back does not.\<close>

lemma proxy_keep_alive:
  assumes "proxy_reachable serve p"
  shows "flags_ok p"
  using assms
proof (induction rule: proxy_reachable.induct)
  case start
  then show ?case by (simp add: flags_ok_def init_proxy_def)
qed (rule proxy_step_flags)

lemma proxy_keep_alive_example: "flags_ok (accept_request 1 \<lparr>content = ''x'', keep_alive = False\<rparr> init_proxy)"
  by (rule proxy_keep_alive [OF proxy_reachable.step [OF proxy_reachable.start proxy_step.accept]])
    (simp add: init_proxy_def)

text \<open>The key the proxy offers belongs to the chain it offers.\<close>

lemma proxy_chain_and_key:
  "proxy_find_cert_chain (load_proxy_credentials store attempts k) algos = leaf # rest
    \<Longrightarrow> proxy_private_key_for (load_proxy_credentials store attempts k) leaf = Some k"
  by (simp add: proxy_find_cert_chain_def proxy_private_key_for_def load_proxy_credentials_def)

section \<open>Start-up\<close>

text \<open>\<open>std::stoi\<close>: leading blanks, a sign, digits; what follows the digits is ignored.\<close>

definition stoi :: "string \<Rightarrow> exn + int" where
  "stoi s =
     (let t = dropWhile is_space s;
          (neg, u) = (case t of c # cs \<Rightarrow> if c = CHR ''-'' then (True, cs) else if c = CHR ''+'' then (False, cs)
                                          else (False, t) | [] \<Rightarrow> (False, []));
          ds = takeWhile is_digit u;
          v = (if neg then - int (digits_val ds) else int (digits_val ds))
      in if ds = [] then Inl (Runtime_error ''stoi'')
         else if v < int32_min \<or> int32_max < v then Inl (Runtime_error ''stoi'')
         else Inr v)"

record proxy_options =
  listen_port :: "16 word"
  backend_host :: string
  backend_port :: string
  ca_cert :: string
  cert_file :: string
  key_file :: string
  policy_file :: string

datatype proxy_command_line = Proxy_help | Proxy_bad_options | Proxy_options proxy_options

text \<open>What the library calls throw during start-up, if they do.\<close>

record proxy_env =
  creds_ctor :: "exn option"
  resolves :: "exn option"
  connects :: "exn option"
  shakes_hands :: "exn option"
  listens :: "exn option"

definition no_throw :: "exn option \<Rightarrow> exn + unit" where
  "no_throw e = (case e of Some x \<Rightarrow> Inl x | None \<Rightarrow> Inr ())"

text \<open>Both handlers around the handshake log and rethrow.\<close>

definition connect_backend :: "proxy_env \<Rightarrow> exn + unit" where
  "connect_backend env =
     sbind (no_throw (resolves env)) (\<lambda>_.
     sbind (no_throw (connects env)) (\<lambda>_.
     no_throw (shakes_hands env)))"

datatype proxy_result = Proxy_exit nat | Proxy_listening

text \<open>The completion handler logs what ended the coroutine and stops the \<open>io_context\<close>; \<open>run\<close> returns normally.\<close>

definition run_proxy :: "proxy_env \<Rightarrow> proxy_result" where
  "run_proxy env =
     (case sbind (connect_backend env) (\<lambda>_. no_throw (listens env)) of
        Inl _ \<Rightarrow> Proxy_exit 0
      | Inr _ \<Rightarrow> Proxy_listening)"

text \<open>The second component is the server information handed to TLS: host and port.\<close>

definition proxy_main :: "proxy_env \<Rightarrow> proxy_command_line \<Rightarrow> proxy_result \<times> (string \<times> 16 word) option" where
  "proxy_main env cl =
     (case cl of
        Proxy_help \<Rightarrow> (Proxy_exit 0, None)
      | Proxy_bad_options \<Rightarrow> (Proxy_exit 1, None)
      | Proxy_options opts \<Rightarrow>
          (case sbind (no_throw (creds_ctor env)) (\<lambda>_. stoi (backend_port opts)) of
             Inl _ \<Rightarrow> (Proxy_exit 1, None)
           | Inr p \<Rightarrow> (run_proxy env, Some (backend_host opts, word_of_int p))))"

text \<open>
  The exit code does not tell a backend that could not be reached from an orderly stop: with a bad
  configuration the proxy ends with 1, with no backend it ends with 0.
\<close>

lemma unreachable_backend_exits_0:
  assumes "creds_ctor env = None" and "stoi (backend_port opts) = Inr p"
    and "resolves env = Some e \<or> connects env = Some e \<or> shakes_hands env = Some e"
  shows "fst (proxy_main env (Proxy_options opts)) = Proxy_exit 0"
  using assms
  by (auto simp: proxy_main_def run_proxy_def connect_backend_def no_throw_def split: option.splits)

lemma stoi_nat:
  assumes "int n \<le> int32_max"
  shows "stoi (nat_to_string n) = Inr (int n)"
proof -
  obtain c cs where c: "nat_to_string n = c # cs" by (cases "nat_to_string n") auto
  have digits: "\<forall>x \<in> set (c # cs). is_digit x" using nat_to_string_digits [of n] c by simp
  then have "c \<noteq> CHR ''-''" "c \<noteq> CHR ''+''" "\<not> is_space c"
    by (auto simp: is_digit_def is_space_def)
  moreover have "takeWhile is_digit (c # cs) = c # cs" using digits by (simp add: takeWhile_eq_all_conv)
  moreover have "digits_val (c # cs) = n" using c digits_val_nat_to_string [of n] by simp
  ultimately show ?thesis using assms unfolding c by (simp add: stoi_def Let_def)
qed

text \<open>A port above 65535 is accepted, and the TLS session is set up for its low 16 bits, while the
  resolver gets the whole number.\<close>

lemma server_information_port:
  assumes "creds_ctor env = None" and "backend_port opts = nat_to_string n" and "int n \<le> int32_max"
  shows "snd (proxy_main env (Proxy_options opts)) = Some (backend_host opts, of_nat (n mod 65536))"
proof -
  have "(word_of_int (int n) :: 16 word) = of_nat (n mod 65536)"
    by (rule word_unat_eq_iff [THEN iffD2]) (simp add: unat_of_nat)
  with assms show ?thesis by (simp add: proxy_main_def no_throw_def stoi_nat)
qed

end
