(* ===== verification/Pipeline.thy ===== *)
theory Pipeline
  imports Server_Main Sensor Cli
begin

text \<open>
  The processes together. A configuration request that a handler has stored travels from the
  database through the controller and the broker to a sensor and back: NOTIFY on
  \<open>config_requested\<close>, publication on \<open>config/requested\<close>, the sensor's answer on \<open>config/events\<close>, the
  controller's upsert, NOTIFY on \<open>config_events\<close>, and the server's callback that dispatches the
  answer. \<open>config_pipeline\<close> composes the functions of the components in that order. \<open>pg_text\<close> is the
  database's \<open>jsonb::text\<close>; the broker delivers what is published.
\<close>

definition config_pipeline ::
  "inet_input \<Rightarrow> json_parse \<Rightarrow> json_serialize \<Rightarrow> json_serialize \<Rightarrow> 'h db_manager \<Rightarrow> server_callback db_manager
    \<Rightarrow> dispatcher \<Rightarrow> database \<Rightarrow> exn + (dispatcher \<times> database)" where
  "config_pipeline inet prs ser pg_text ctl srv d db =
     (case last (notifications db) of (ch, v) \<Rightarrow>
      case on_notification prs ctl (ch, pg_text v) of
        None \<Rightarrow> Inr (d, db)
      | Some (_, msg) \<Rightarrow>
          sbind (on_db_event_received ser True None msg) (\<lambda>published.
          case published of
            [] \<Rightarrow> Inr (d, db)
          | m1 # _ \<Rightarrow>
              sbind (sensor_handle prs ser None (payload m1)) (\<lambda>answered.
              case answered of
                [] \<Rightarrow> Inr (d, db)
              | m2 # _ \<Rightarrow>
                  (case handle_message inet prs m2 ctl db of
                     (Inl e, _) \<Rightarrow> Inl e
                   | (Inr _, _, db') \<Rightarrow>
                       (case last (notifications db') of (ch', v') \<Rightarrow>
                          sbind (server_notified prs srv (ch', pg_text v') d) (\<lambda>d'. Inr (d', db')))))))"

section \<open>The messages on the way\<close>

definition request_payload :: "int \<Rightarrow> int \<Rightarrow> string \<Rightarrow> string \<Rightarrow> json_object" where
  "request_payload rid sid h a =
     [(''request_id'', JInt64 rid), (''sensor_id'', JInt64 sid), (''hostname'', JString h),
      (''ip_address'', JString a), (''is_active'', JBool True), (''action'', JString ''INSERT'')]"

definition on_channel :: "string \<Rightarrow> json \<Rightarrow> json_object" where
  "on_channel ch v = [(''channel'', JString ch), (''payload'', v)]"

definition commit_payload :: "int \<Rightarrow> int \<Rightarrow> string \<Rightarrow> string \<Rightarrow> json" where
  "commit_payload rid sid h a =
     JObject [(''action'', JString ''UPDATE''), (''new_ip'', JString (inet_text a)), (''hostname'', JString h),
       (''sensor_id'', JInt64 sid), (''request_id'', JInt64 rid)]"

text \<open>What is asked of the three codecs, for the four values they carry.\<close>

definition wire_ok ::
  "json_parse \<Rightarrow> json_serialize \<Rightarrow> json_serialize \<Rightarrow> int \<Rightarrow> int \<Rightarrow> string \<Rightarrow> string \<Rightarrow> bool" where
  "wire_ok prs ser pg_text rid sid h a \<longleftrightarrow>
     (let req = JObject (request_payload rid sid h a); com = commit_payload rid sid h a in
      codec_ok prs pg_text req \<and> codec_ok prs pg_text com
      \<and> CHR 0x00 \<notin> set (pg_text req) \<and> CHR 0x00 \<notin> set (pg_text com)
      \<and> codec_ok prs ser (JObject (on_channel ''config_requested'' req))
      \<and> codec_ok prs ser (JObject (on_channel ''config_events'' req)))"

lemma c_str_copy_id: "CHR 0x00 \<notin> set s \<Longrightarrow> c_str_copy s = s"
  by (auto simp: c_str_copy_def takeWhile_eq_all_conv)

lemma int_to_string_no_nul: "CHR 0x00 \<notin> set (int_to_string i)"
proof
  assume "CHR 0x00 \<in> set (int_to_string i)"
  then have "\<exists>n. CHR 0x00 \<in> set (nat_to_string n)"
    by (auto simp: int_to_string_def split: if_splits)
  then have "is_digit (CHR 0x00)" using nat_to_string_digits by blast
  then show False by (simp add: is_digit_def)
qed

lemma int_to_string_length:
  assumes "int32_min \<le> i" and "i \<le> int32_max"
  shows "length (int_to_string i) \<le> 11"
proof -
  have len: "n < 10 ^ Suc k \<Longrightarrow> length (nat_to_string n) \<le> Suc k" for n k
  proof (induction k arbitrary: n)
    case 0
    then show ?case by (simp add: nat_to_string.simps [of n])
  next
    case (Suc k)
    then have "n div 10 < 10 ^ Suc k" by (simp add: div_less_iff_less_mult)
    from Suc.IH [OF this] show ?case by (simp add: nat_to_string.simps [of n])
  qed
  have "length (nat_to_string n) \<le> 10" if "n < 10000000000" for n
    using len [of n 9] that by simp
  moreover have "nat i < 10000000000" and "nat (- i) < 10000000000"
    using assms by (auto simp: nat_less_iff)
  ultimately have "length (nat_to_string (nat i)) \<le> 10" and "length (nat_to_string (nat (- i))) \<le> 10" by blast+
  then show ?thesis by (simp add: int_to_string_def)
qed

section \<open>The round trip\<close>

lemma insert_notification:
  assumes "sql_insert_pending inet rid sid h ip True db = Inr db'"
  shows "\<exists>a. inet ip = Some a \<and> int (unat rid) \<le> int64_max \<and> map_of (sensor_config db) sid \<noteq> None
    \<and> sensor_config db' = sensor_config db \<and> sensor_certs db' = sensor_certs db
    \<and> last (notifications db') = (''config_requested'', JObject (request_payload (int (unat rid)) sid h a))"
  using assms
  by (auto simp: sql_insert_pending_def sql_bigint_def sql_varchar100_def sql_inet_def Let_def
      notify_config_request_def request_payload_def json_opt_def split: if_splits option.splits)

lemma bridge_forwards:
  assumes "map_of (callbacks ctl) ''config_requested'' = Some cb"
    and "prs (pg_text v) = Inr v" and "CHR 0x00 \<notin> set (pg_text v)"
  shows "on_notification prs ctl (''config_requested'', pg_text v) = Some (cb, on_channel ''config_requested'' v)
    \<and> on_db_event_received ser True None (on_channel ''config_requested'' v)
      = Inr [\<lparr>topic = REQUEST_CONFIG_TOPIC, payload = ser (JObject (on_channel ''config_requested'' v)), qos = 1\<rparr>]"
  using assms
  by (simp add: on_notification_def parser_notify_def on_channel_def obj_set_def c_str_copy_id
      on_db_event_received_def obj_at_def)

lemma sensor_turns_around:
  assumes "prs (ser (JObject (on_channel ''config_requested'' v))) = Inr (JObject (on_channel ''config_requested'' v))"
  shows "sensor_handle prs ser None (ser (JObject (on_channel ''config_requested'' v)))
    = Inr [\<lparr>topic = EVENTS_CONFIG_TOPIC, payload = ser (JObject (on_channel ''config_events'' v)), qos = 1\<rparr>]"
  using assms by (simp add: sensor_handle_def sensor_reply_def on_channel_def obj_set_def)

lemma ack_fields:
  assumes "int32_min \<le> sid" and "sid \<le> int32_max" and "CHR 0x00 \<notin> set h" and "CHR 0x00 \<notin> set a"
  shows "config_ack_fields (request_payload rid sid h a) = Inr \<lparr>ack_sensor = sid, ack_hostname = h, ack_ip = a,
    ack_active = True, ack_action = ''INSERT'', ack_request = to_u64 rid\<rparr>"
  using assms
  by (simp add: config_ack_fields_def request_payload_def obj_at_def to_int32_id c_str_copy_id)

lemma upsert_existing:
  assumes "manager_ready m" and "map_of (sensor_config db) sid = Some old" and "length h \<le> 100"
    and "inet a = Some a" and "int (unat rid) \<le> int64_max"
  shows "\<exists>db'. upsert_sensor_config inet sid h a True rid m db = (Inr (), m, db')
    \<and> sensor_config db' = AList.update sid (old\<lparr>hostname := h, ip_address := a, is_active := Some True,
        request_id := Some (int (unat rid))\<rparr>) (sensor_config db)
    \<and> last (notifications db') = (''config_events'', commit_payload (int (unat rid)) sid h a)"
  using assms
  by (simp add: upsert_sensor_config_def manager_ready_def run_txn_def upsert_config_stmt_def sql_upsert_config_def
      sql_varchar100_def sql_inet_def sql_bigint_def resolve_cert_def swallow_def Let_def
      notify_config_change_def json_opt_def commit_payload_def del: of_nat_unat)

lemma server_dispatches:
  assumes "map_of (callbacks srv) ''config_events'' = Some Config_callback"
    and "prs (pg_text (commit_payload rid sid h a)) = Inr (commit_payload rid sid h a)"
    and "CHR 0x00 \<notin> set (pg_text (commit_payload rid sid h a))" and "disp_inv d"
  shows "server_notified prs srv (''config_events'', pg_text (commit_payload rid sid h a)) d = dispatch (to_u64 rid) SUCCESS d"
proof -
  obtain d' where "dispatch (to_u64 rid) SUCCESS d = Inr d'" using dispatch_total [OF assms(4)] by blast
  with assms(1-3) show ?thesis
    by (simp add: server_notified_def on_notification_def parser_notify_def obj_set_def c_str_copy_id run_callback_def
        on_db_config_event_received_def config_event_fields_def commit_payload_def obj_at_def obj_contains_def)
qed

text \<open>The state of the two processes that take part, besides the broker and the sensor.\<close>

definition processes_up :: "'h db_manager \<Rightarrow> server_callback db_manager \<Rightarrow> bool" where
  "processes_up ctl srv \<longleftrightarrow> manager_ready ctl \<and> map_of (callbacks ctl) ''config_requested'' \<noteq> None
     \<and> map_of (callbacks srv) ''config_events'' = Some Config_callback"

lemma pipeline_completes:
  assumes ins: "sql_insert_pending inet rid sid (''sensor-'' @ int_to_string sid) ip True db0 = Inr db"
    and inet: "inet ip = Some a" "inet a = Some a" and nul: "CHR 0x00 \<notin> set a"
    and sid: "int32_min \<le> sid" "sid \<le> int32_max"
    and up: "processes_up ctl srv" and inv: "disp_inv d"
    and wire: "wire_ok prs ser pg_text (int (unat rid)) sid (''sensor-'' @ int_to_string sid) a"
  shows "\<exists>d' db' old. config_pipeline inet prs ser pg_text ctl srv d db = Inr (d', db')
    \<and> dispatch rid SUCCESS d = Inr d' \<and> map_of (sensor_config db0) sid = Some old
    \<and> sensor_config db' = AList.update sid (old\<lparr>hostname := ''sensor-'' @ int_to_string sid, ip_address := a,
        is_active := Some True, request_id := Some (int (unat rid))\<rparr>) (sensor_config db0)"
proof -
  let ?h = "''sensor-'' @ int_to_string sid"
  let ?r = "int (unat rid)"
  let ?req = "JObject (request_payload ?r sid ?h a)"
  let ?com = "commit_payload ?r sid ?h a"
  obtain cb where cb: "map_of (callbacks ctl) ''config_requested'' = Some cb" and ready: "manager_ready ctl"
    and srv: "map_of (callbacks srv) ''config_events'' = Some Config_callback"
    using up by (auto simp: processes_up_def)
  have bound: "?r \<le> int64_max" and cfg: "sensor_config db = sensor_config db0"
    and announced: "last (notifications db) = (''config_requested'', ?req)" and known: "map_of (sensor_config db0) sid \<noteq> None"
    using insert_notification [OF ins] inet(1) by auto
  obtain old where old: "map_of (sensor_config db0) sid = Some old" using known by blast
  have normal: "json_normal ?req = ?req" "json_normal ?com = ?com"
      "json_normal (JObject (on_channel ch ?req)) = JObject (on_channel ch ?req)" for ch
    by (simp_all add: request_payload_def commit_payload_def on_channel_def)
  have wires: "prs (pg_text ?req) = Inr ?req" "CHR 0x00 \<notin> set (pg_text ?req)"
      "prs (pg_text ?com) = Inr ?com" "CHR 0x00 \<notin> set (pg_text ?com)"
      "prs (ser (JObject (on_channel ''config_requested'' ?req))) = Inr (JObject (on_channel ''config_requested'' ?req))"
      "prs (ser (JObject (on_channel ''config_events'' ?req))) = Inr (JObject (on_channel ''config_events'' ?req))"
    using wire normal by (auto simp: wire_ok_def codec_ok_def Let_def)
  have hlen: "length ?h \<le> 100" using int_to_string_length [OF sid] by simp
  have hnul: "CHR 0x00 \<notin> set ?h" using int_to_string_no_nul by simp
  have rid: "to_u64 ?r = rid" by (simp add: to_u64_def)
  let ?m2 = "\<lparr>topic = EVENTS_CONFIG_TOPIC, payload = ser (JObject (on_channel ''config_events'' ?req)), qos = 1\<rparr>"
  have "handle_message inet prs ?m2 ctl db = upsert_sensor_config inet sid ?h a True rid ctl db"
    using handle_config_ack [of ?m2 prs "on_channel ''config_events'' ?req" _ _ inet ctl db, OF _ _ _ ack_fields [OF sid hnul nul, of ?r]]
      wires(6) rid by (simp add: on_channel_def obj_at_def)
  moreover obtain db' where "upsert_sensor_config inet sid ?h a True rid ctl db = (Inr (), ctl, db')"
      and eff: "sensor_config db' = AList.update sid (old\<lparr>hostname := ?h, ip_address := a, is_active := Some True,
        request_id := Some ?r\<rparr>) (sensor_config db0)" "last (notifications db') = (''config_events'', ?com)"
    using upsert_existing [OF ready, of db sid old ?h inet a rid] old hlen inet(2) bound cfg by auto
  ultimately have handled: "handle_message inet prs ?m2 ctl db = (Inr (), ctl, db')" by simp
  obtain d' where d': "dispatch rid SUCCESS d = Inr d'" using dispatch_total [OF inv] by blast
  have "server_notified prs srv (''config_events'', pg_text ?com) d = Inr d'"
    using server_dispatches [where prs = prs and pg_text = pg_text, OF srv wires(3,4) inv] rid d' by simp
  then have "config_pipeline inet prs ser pg_text ctl srv d db = Inr (d', db')"
    using bridge_forwards [where prs = prs and pg_text = pg_text and ser = ser, OF cb wires(1,2)]
      sensor_turns_around [where prs = prs and ser = ser, OF wires(5)] announced handled eff(2)
    by (simp add: config_pipeline_def)
  with d' old eff(1) show ?thesis by blast
qed

section \<open>With the handler that waits\<close>

text \<open>C1: a configuration request is answered. When the handler's thread is blocked on the request's id
  and the row is stored, the notification, the message to the sensor, its answer and the controller's
  upsert lead to the requested hostname and address in \<open>sensor_config\<close>, and the handler's wait returns
  \<open>SUCCESS\<close>.\<close>

theorem config_request_round_trip:
  assumes "sql_insert_pending inet rid sid (''sensor-'' @ int_to_string sid) ip True db0 = Inr db"
    and "inet ip = Some a" and "inet a = Some a" and "CHR 0x00 \<notin> set a"
    and "int32_min \<le> sid" and "sid \<le> int32_max" and "processes_up ctl srv"
    and "wire_ok prs ser pg_text (int (unat rid)) sid (''sensor-'' @ int_to_string sid) a"
    and "disp_reachable d0" and "id_free rid d0" and "map_of (contexts d0) t = None"
    and "wait_enter t rid ms d0 = (None, d)"
  shows "\<exists>d' db' old d''. config_pipeline inet prs ser pg_text ctl srv d db = Inr (d', db')
    \<and> map_of (sensor_config db0) sid = Some old
    \<and> sensor_config db' = AList.update sid (old\<lparr>hostname := ''sensor-'' @ int_to_string sid, ip_address := a,
        is_active := Some True, request_id := Some (int (unat rid))\<rparr>) (sensor_config db0)
    \<and> wait_finish t d' = Inr (SUCCESS, d'')"
proof -
  have w: "waiting t rid None d" using disp_reachable_inv [OF assms(9)] assms(10-12) by (rule waiting_enter)
  obtain d' db' old where run: "config_pipeline inet prs ser pg_text ctl srv d db = Inr (d', db')"
    and disp: "dispatch rid SUCCESS d = Inr d'" and rest: "map_of (sensor_config db0) sid = Some old"
      "sensor_config db' = AList.update sid (old\<lparr>hostname := ''sensor-'' @ int_to_string sid, ip_address := a,
        is_active := Some True, request_id := Some (int (unat rid))\<rparr>) (sensor_config db0)"
    using pipeline_completes [OF assms(1-7) waiting_inv [OF w] assms(8)] by blast
  have "waiting t rid (Some SUCCESS) d'" using waiting_dispatch [OF w, of rid SUCCESS] disp by simp
  from waiting_finish [OF this] obtain d'' where "wait_finish t d' = Inr (SUCCESS, d'')" by auto
  with run rest show ?thesis by blast
qed

text \<open>C22: the answer can be too fast. When the whole round trip happens between the handler's \<open>INSERT\<close>
  and its \<open>wait_for_response\<close>, the new configuration is in force, but the dispatch finds nobody and
  the handler reports a timeout.\<close>

theorem fast_pipeline_times_out:
  assumes "sql_insert_pending inet rid sid (''sensor-'' @ int_to_string sid) ip True db0 = Inr db"
    and "inet ip = Some a" and "inet a = Some a" and "CHR 0x00 \<notin> set a"
    and "int32_min \<le> sid" and "sid \<le> int32_max" and "processes_up ctl srv"
    and "wire_ok prs ser pg_text (int (unat rid)) sid (''sensor-'' @ int_to_string sid) a"
    and "disp_reachable d" and "id_free rid d" and "map_of (contexts d) t = None"
    and "length (pending_requests d) < MAX_PENDING"
  shows "\<exists>db' row d'. config_pipeline inet prs ser pg_text ctl srv d db = Inr (d, db')
    \<and> map_of (sensor_config db') sid = Some row \<and> ip_address row = a \<and> request_id row = Some (int (unat rid))
    \<and> wait_for_response t [] rid ms d = Inr (TIMEOUT, d')"
proof -
  note inv = disp_reachable_inv [OF assms(9)]
  have "dispatch rid SUCCESS d = Inr d" using id_free_not_pending [OF inv assms(10)] by (simp add: dispatch_def)
  then obtain db' old where run: "config_pipeline inet prs ser pg_text ctl srv d db = Inr (d, db')"
    and eff: "sensor_config db' = AList.update sid (old\<lparr>hostname := ''sensor-'' @ int_to_string sid, ip_address := a,
        is_active := Some True, request_id := Some (int (unat rid))\<rparr>) (sensor_config db0)"
    using pipeline_completes [OF assms(1-7) inv assms(8)] by auto
  obtain d' where "wait_for_response t [] rid ms d = Inr (TIMEOUT, d')"
    using wait_for_response_inv [OF inv assms(10-12), of "[]" ms] by (auto simp: last_answer_def)
  with run eff show ?thesis by simp
qed

section \<open>A run\<close>

definition demo_request :: json where
  "demo_request = JObject (request_payload 42 1 ''sensor-1'' ''10.0.0.7'')"

definition demo_commit :: json where
  "demo_commit = commit_payload 42 1 ''sensor-1'' ''10.0.0.7''"

definition demo_pg_text :: json_serialize where
  "demo_pg_text v = (if v = demo_request then ''r'' else ''c'')"

definition demo_serialize :: json_serialize where
  "demo_serialize v = (if v = JObject (on_channel ''config_requested'' demo_request) then ''rr'' else ''re'')"

definition demo_parse :: json_parse where
  "demo_parse s =
     (if s = ''r'' then Inr demo_request else if s = ''c'' then Inr demo_commit
      else if s = ''rr'' then Inr (JObject (on_channel ''config_requested'' demo_request))
      else if s = ''re'' then Inr (JObject (on_channel ''config_events'' demo_request))
      else Inl (Json_error ''syntax error''))"

definition demo_controller :: "unit db_manager" where
  "demo_controller = sample_mgr\<lparr>callbacks := [(''config_requested'', ())]\<rparr>"

definition demo_server :: "server_callback db_manager" where
  "demo_server = sample_mgr\<lparr>callbacks := [(''config_events'', Config_callback)]\<rparr>"

definition demo_filed :: database where
  "demo_filed = (case sql_insert_pending Some 42 1 ''sensor-1'' ''10.0.0.7'' True sample_db of
     Inr db \<Rightarrow> db | Inl _ \<Rightarrow> sample_db)"

lemmas demo_simps = demo_request_def demo_commit_def request_payload_def commit_payload_def on_channel_def inet_text_def

lemma demo_insert: "sql_insert_pending Some 42 1 ''sensor-1'' ''10.0.0.7'' True sample_db = Inr demo_filed"
  by (simp add: demo_filed_def sql_insert_pending_def sql_bigint_def sql_varchar100_def sql_inet_def sample_db_def
      sample_config_def Let_def)

lemma demo_wire: "wire_ok demo_parse demo_serialize demo_pg_text 42 1 ''sensor-1'' ''10.0.0.7''"
  by (simp add: wire_ok_def codec_ok_def Let_def demo_parse_def demo_serialize_def demo_pg_text_def demo_simps)

lemma demo_up: "processes_up demo_controller demo_server"
  by (simp add: processes_up_def demo_controller_def demo_server_def manager_ready_def sample_mgr_def)

lemma demo_name: "''sensor-'' @ int_to_string 1 = ''sensor-1''"
  by (simp add: int_to_string_def nat_to_string.simps [of "Suc 0"])

theorem config_request_round_trip_witness:
  "\<exists>d' db' d''. config_pipeline Some demo_parse demo_serialize demo_pg_text demo_controller demo_server
      (snd (wait_enter 5 42 2000 one_waiter)) demo_filed = Inr (d', db')
    \<and> sensor_config db' = AList.update 1 (sample_config ''10.0.0.7'' 1\<lparr>hostname := ''sensor-1'',
        is_active := Some True, request_id := Some 42\<rparr>) (sensor_config sample_db)
    \<and> wait_finish 5 d' = Inr (SUCCESS, d'')"
proof -
  have enter: "wait_enter 5 42 2000 one_waiter = (None, snd (wait_enter 5 42 2000 one_waiter))"
    by (simp add: scenario_simps)
  show ?thesis
    using config_request_round_trip [where inet = Some and rid = 42 and sid = 1 and ip = "''10.0.0.7''"
        and a = "''10.0.0.7''" and ?db0.0 = sample_db and db = demo_filed and ctl = demo_controller and srv = demo_server
        and prs = demo_parse and ser = demo_serialize and pg_text = demo_pg_text and ?d0.0 = one_waiter and t = 5
        and ms = 2000, unfolded demo_name, OF demo_insert _ _ _ _ _ demo_up _ one_waiter_reachable _ _ enter] demo_wire
    by (auto simp: scenario_simps sample_db_def sample_config_def)
qed

theorem fast_pipeline_times_out_witness:
  "\<exists>db' row d'. config_pipeline Some demo_parse demo_serialize demo_pg_text demo_controller demo_server
      one_waiter demo_filed = Inr (one_waiter, db')
    \<and> map_of (sensor_config db') 1 = Some row \<and> ip_address row = ''10.0.0.7'' \<and> request_id row = Some 42
    \<and> wait_for_response 5 [] 42 2000 one_waiter = Inr (TIMEOUT, d')"
  using fast_pipeline_times_out [where inet = Some and rid = 42 and sid = 1 and ip = "''10.0.0.7''"
      and a = "''10.0.0.7''" and ?db0.0 = sample_db and db = demo_filed and ctl = demo_controller and srv = demo_server
      and prs = demo_parse and ser = demo_serialize and pg_text = demo_pg_text and d = one_waiter and t = 5
      and ms = 2000, unfolded demo_name, OF demo_insert _ _ _ _ _ demo_up _ one_waiter_reachable] demo_wire
  by (auto simp: scenario_simps)

end
