(* ===== verification/Db_Script.thy ===== *)
theory Db_Script
  imports Db_Schema
begin

text \<open>
  The rest of \<open>database/sql/db.sql\<close>: the table of errors, the triggers on certificates and errors, the deletes
  that cascade along the foreign keys, and the rows the script puts in. Nothing else of the system writes the
  errors or deletes a row; whoever administers the database does. A statement is a transaction: the result
  says whether it failed, and then the tables are as they were (only the counters of the serial columns have
  moved on).

  \<open>not_after\<close> of a certificate and \<open>completed_at\<close> of a request, which no constraint, trigger or statement
  of the programs reads, are left out. The deletes of one statement fire their triggers in an order of
  PostgreSQL's own, and identical notifications of one transaction are delivered once: the parameter \<open>arr\<close>
  arranges them.
\<close>

section \<open>The table of errors and the serial columns\<close>

record error_row =
  e_request_id :: "int option"
  e_sensor_id :: int
  e_code :: "string option"
  e_detail :: "string option"
  occurred_at :: string

record full_db =
  tables :: database
  sensor_config_errors :: "(int \<times> error_row) list"
  cert_serial :: int
  error_serial :: int

type_synonym notification_order = "(string \<times> json) list \<Rightarrow> (string \<times> json) list"

definition empty_db :: "string \<Rightarrow> full_db" where
  "empty_db now = \<lparr>tables = \<lparr>sensor_certs = [], sensor_config = [], sensor_config_pending = [], sensor_state = [],
     request_id_seq = None, notifications = [], clock = now\<rparr>, sensor_config_errors = [], cert_serial = 1, error_serial = 1\<rparr>"

section \<open>Triggers\<close>

text \<open>\<open>NEW\<close> and \<open>OLD\<close> are null when the operation has none; so is every field read from a null row.\<close>

definition notify_config_error :: "error_row option \<Rightarrow> string \<times> json" where
  "notify_config_error new =
     (''error_events'',
      JObject [(''sensor_id'', json_opt (\<lambda>r. JInt64 (e_sensor_id r)) new),
        (''error_code'', json_opt JString (Option.bind new e_code)),
        (''detail'', json_opt JString (Option.bind new e_detail)),
        (''timestamp'', json_opt (\<lambda>r. JString (occurred_at r)) new),
        (''request_id'', json_opt JInt64 (Option.bind new e_request_id))])"

definition coalesce :: "'a option \<Rightarrow> 'a option \<Rightarrow> 'a option" where
  "coalesce a b = (if a = None then b else a)"

definition notify_cert_change :: "string \<Rightarrow> (int \<times> cert_row) option \<Rightarrow> (int \<times> cert_row) option \<Rightarrow> string \<times> json" where
  "notify_cert_change tg_op new old =
     (''cert_events'',
      JObject [(''action'', JString tg_op),
        (''cert_id'', json_opt JInt64 (coalesce (map_option fst new) (map_option fst old))),
        (''revoked'', json_opt JBool (coalesce (Option.bind new (\<lambda>(_, r). is_revoked r)) (Some False))),
        (''cn'', json_opt JString (coalesce (Option.bind new (\<lambda>(_, r). common_name r)) (Option.bind old (\<lambda>(_, r). common_name r))))])"

section \<open>Inserts and updates\<close>

definition sql_varchar :: "nat \<Rightarrow> string \<Rightarrow> exn + string" where
  "sql_varchar n s = (if length s \<le> n then Inr s else Inl (Sql_error ''value too long for type character varying''))"

definition sql_varchar_opt :: "nat \<Rightarrow> string option \<Rightarrow> exn + string option" where
  "sql_varchar_opt n s = (case s of None \<Rightarrow> Inr None | Some t \<Rightarrow> sbind (sql_varchar n t) (\<lambda>t. Inr (Some t)))"

text \<open>A statement that draws from a serial column keeps the number it drew when it fails.\<close>

definition failed :: "string \<Rightarrow> full_db \<Rightarrow> (exn + unit) \<times> full_db" where
  "failed e db = (Inl (Sql_error e), db)"

definition insert_cert :: "string \<Rightarrow> string option \<Rightarrow> string \<Rightarrow> full_db \<Rightarrow> (exn + unit) \<times> full_db" where
  "insert_cert fp cn pem db =
     (case sbind (sql_varchar 64 fp) (\<lambda>f. sbind (sql_varchar_opt 255 cn) (\<lambda>c. Inr (f, c))) of
        Inl e \<Rightarrow> (Inl e, db)
      | Inr (f, c) \<Rightarrow>
          let n = cert_serial db; db' = db\<lparr>cert_serial := n + 1\<rparr>; t = tables db;
              row = \<lparr>fingerprint = f, common_name = c, is_revoked = Some False, pem_data = pem\<rparr>
          in if 2 ^ 31 - 1 < n then failed ''nextval: reached maximum value of sequence'' db
             else if map_of (sensor_certs t) n \<noteq> None then failed ''duplicate key: sensor_certs_pkey'' db'
             else if f \<in> fingerprint ` snd ` set (sensor_certs t) then failed ''duplicate key: sensor_certs_fingerprint_key'' db'
             else (Inr (), db'\<lparr>tables := pg_notify (notify_cert_change ''INSERT'' (Some (n, row)) None)
                     (t\<lparr>sensor_certs := AList.update n row (sensor_certs t)\<rparr>)\<rparr>))"

definition revoke_cert :: "int \<Rightarrow> full_db \<Rightarrow> (exn + unit) \<times> full_db" where
  "revoke_cert cid db =
     (case map_of (sensor_certs (tables db)) cid of
        None \<Rightarrow> (Inr (), db)
      | Some old \<Rightarrow>
          let t = tables db; row = old\<lparr>is_revoked := Some True\<rparr>
          in (Inr (), db\<lparr>tables := pg_notify (notify_cert_change ''UPDATE'' (Some (cid, row)) (Some (cid, old)))
                (t\<lparr>sensor_certs := AList.update cid row (sensor_certs t)\<rparr>)\<rparr>))"

text \<open>Statements on the tables alone, lifted.\<close>

definition on_tables :: "(database \<Rightarrow> exn + database) \<Rightarrow> full_db \<Rightarrow> (exn + unit) \<times> full_db" where
  "on_tables f db = (case f (tables db) of Inl e \<Rightarrow> (Inl e, db) | Inr t \<Rightarrow> (Inr (), db\<lparr>tables := t\<rparr>))"

definition sql_insert_config :: "inet_input \<Rightarrow> int \<Rightarrow> string \<Rightarrow> string \<Rightarrow> int \<Rightarrow> database \<Rightarrow> exn + database" where
  "sql_insert_config inet sid host ip cid db =
     sbind (sql_varchar100 host) (\<lambda>h.
     sbind (sql_inet inet ip) (\<lambda>a.
       if map_of (sensor_config db) sid \<noteq> None then Inl (Sql_error ''duplicate key: sensor_config_pkey'')
       else if cid \<in> cert_id ` snd ` set (sensor_config db) then Inl (Sql_error ''duplicate key: sensor_config_cert_id_key'')
       else if map_of (sensor_certs db) cid = None then Inl (Sql_error ''foreign key: sensor_config.cert_id'')
       else
         let row = \<lparr>hostname = h, ip_address = a, is_active = Some True, cert_id = cid, request_id = None\<rparr>
         in Inr (pg_notify (notify_config_change ''INSERT'' sid row)
              (db\<lparr>sensor_config := AList.update sid row (sensor_config db)\<rparr>))))"

definition sql_update_ip :: "inet_input \<Rightarrow> int \<Rightarrow> string \<Rightarrow> database \<Rightarrow> exn + database" where
  "sql_update_ip inet sid ip db =
     sbind (sql_inet inet ip) (\<lambda>a.
       case map_of (sensor_config db) sid of
         None \<Rightarrow> Inr db
       | Some old \<Rightarrow>
           let row = old\<lparr>ip_address := a\<rparr>
           in Inr (pg_notify (notify_config_change ''UPDATE'' sid row)
                (db\<lparr>sensor_config := AList.update sid row (sensor_config db)\<rparr>)))"

text \<open>A request with any status and time.\<close>

definition sql_insert_request ::
  "inet_input \<Rightarrow> int \<Rightarrow> int \<Rightarrow> string \<Rightarrow> string \<Rightarrow> bool \<Rightarrow> string \<Rightarrow> string \<Rightarrow> database \<Rightarrow> exn + database" where
  "sql_insert_request inet rid sid host ip active status time db =
     sbind (sql_varchar100 host) (\<lambda>h.
     sbind (sql_inet inet ip) (\<lambda>a.
       if rid < - (2 ^ 63) \<or> int64_max < rid then Inl (Sql_error ''value out of range for type bigint'')
       else if \<not> status_ok status then Inl (Sql_error ''check: sensor_config_pending_status_check'')
       else if map_of (sensor_config_pending db) rid \<noteq> None then Inl (Sql_error ''duplicate key: sensor_config_pending_pkey'')
       else if map_of (sensor_config db) sid = None then Inl (Sql_error ''foreign key: sensor_config_pending.sensor_id'')
       else
         let row = \<lparr>p_sensor_id = sid, requested_hostname = Some h, requested_ip = a,
                    requested_is_active = Some active, p_status = status, requested_at = time\<rparr>
         in Inr (pg_notify (notify_config_request ''INSERT'' rid row)
              (db\<lparr>sensor_config_pending := AList.update rid row (sensor_config_pending db)\<rparr>))))"

definition insert_error :: "int \<Rightarrow> string option \<Rightarrow> string option \<Rightarrow> int option \<Rightarrow> full_db \<Rightarrow> (exn + unit) \<times> full_db" where
  "insert_error sid code detail rid db =
     (case sql_varchar_opt 50 code of
        Inl e \<Rightarrow> (Inl e, db)
      | Inr c \<Rightarrow>
          let n = error_serial db; db' = db\<lparr>error_serial := n + 1\<rparr>; t = tables db;
              row = \<lparr>e_request_id = rid, e_sensor_id = sid, e_code = c, e_detail = detail, occurred_at = clock t\<rparr>
          in if int64_max < n then failed ''nextval: reached maximum value of sequence'' db
             else if map_of (sensor_config_errors db) n \<noteq> None then failed ''duplicate key: sensor_config_errors_pkey'' db'
             else if rid \<noteq> None \<and> rid \<in> e_request_id ` snd ` set (sensor_config_errors db)
             then failed ''duplicate key: sensor_config_errors_request_id_key'' db'
             else if (case rid of None \<Rightarrow> False | Some r \<Rightarrow> map_of (sensor_config_pending t) r = None)
             then failed ''foreign key: sensor_config_errors.request_id'' db'
             else if map_of (sensor_config t) sid = None then failed ''foreign key: sensor_config_errors.sensor_id'' db'
             else (Inr (), db'\<lparr>sensor_config_errors := AList.update n row (sensor_config_errors db),
                     tables := pg_notify (notify_config_error (Some row)) t\<rparr>))"

section \<open>Deletes\<close>

text \<open>The keys of the rows that satisfy a condition, and a table without the rows under some keys.\<close>

definition keys_where :: "('k \<Rightarrow> 'v \<Rightarrow> bool) \<Rightarrow> ('k \<times> 'v) list \<Rightarrow> 'k list" where
  "keys_where P tbl = map fst (filter (\<lambda>(k, v). P k v) tbl)"

definition without :: "'k list \<Rightarrow> ('k \<times> 'v) list \<Rightarrow> ('k \<times> 'v) list" where
  "without ks tbl = filter (\<lambda>(k, v). k \<notin> set ks) tbl"

text \<open>
  Deleting the certificates \<open>cs\<close>, configurations \<open>ss\<close>, requests \<open>rs\<close> and errors \<open>es\<close>: the foreign keys take
  along what refers to them, and each deleted certificate, configuration and error fires its trigger
  (requests and telemetry have none for deletes).
\<close>

definition fallen_configs :: "int list \<Rightarrow> int list \<Rightarrow> full_db \<Rightarrow> int list" where
  "fallen_configs cs ss db = keys_where (\<lambda>s row. s \<in> set ss \<or> cert_id row \<in> set cs) (sensor_config (tables db))"

definition fallen_requests :: "int list \<Rightarrow> int list \<Rightarrow> full_db \<Rightarrow> int list" where
  "fallen_requests ss rs db = keys_where (\<lambda>r row. r \<in> set rs \<or> p_sensor_id row \<in> set ss) (sensor_config_pending (tables db))"

definition fallen_errors :: "int list \<Rightarrow> int list \<Rightarrow> int list \<Rightarrow> full_db \<Rightarrow> int list" where
  "fallen_errors ss rs es db =
     keys_where (\<lambda>e row. e \<in> set es \<or> e_sensor_id row \<in> set ss \<or> (case e_request_id row of None \<Rightarrow> False | Some r \<Rightarrow> r \<in> set rs))
       (sensor_config_errors db)"

definition delete_notifications :: "int list \<Rightarrow> int list \<Rightarrow> int list \<Rightarrow> full_db \<Rightarrow> (string \<times> json) list" where
  "delete_notifications cs ss es db =
     map (\<lambda>r. notify_cert_change ''DELETE'' None (Some r)) (filter (\<lambda>(c, _). c \<in> set cs) (sensor_certs (tables db)))
     @ map (\<lambda>(s, row). notify_config_change ''DELETE'' s row) (filter (\<lambda>(s, _). s \<in> set ss) (sensor_config (tables db)))
     @ map (\<lambda>_. notify_config_error None) (filter (\<lambda>(e, _). e \<in> set es) (sensor_config_errors db))"

definition delete_rows :: "notification_order \<Rightarrow> int list \<Rightarrow> int list \<Rightarrow> int list \<Rightarrow> int list \<Rightarrow> full_db \<Rightarrow> full_db" where
  "delete_rows arr cs ss rs es db =
     (let t = tables db; ss' = fallen_configs cs ss db; rs' = fallen_requests ss' rs db; es' = fallen_errors ss' rs' es db
      in db\<lparr>sensor_config_errors := without es' (sensor_config_errors db),
            tables := t\<lparr>sensor_certs := without cs (sensor_certs t), sensor_config := without ss' (sensor_config t),
              sensor_config_pending := without rs' (sensor_config_pending t), sensor_state := without ss' (sensor_state t),
              notifications := notifications t @ arr (delete_notifications cs ss' es' db)\<rparr>\<rparr>)"

section \<open>Scripts\<close>

datatype statement = Insert_cert string "string option" string | Revoke_cert int
  | Insert_config int string string int | Update_ip int string | Upsert_state int rat
  | Insert_request int int string string bool string string
  | Insert_error int "string option" "string option" "int option"
  | Delete_rows "int list" "int list" "int list" "int list"

fun execute :: "notification_order \<Rightarrow> inet_input \<Rightarrow> statement \<Rightarrow> full_db \<Rightarrow> (exn + unit) \<times> full_db" where
  "execute arr inet (Insert_cert fp cn pem) db = insert_cert fp cn pem db"
| "execute arr inet (Revoke_cert cid) db = revoke_cert cid db"
| "execute arr inet (Insert_config sid host ip cid) db = on_tables (sql_insert_config inet sid host ip cid) db"
| "execute arr inet (Update_ip sid ip) db = on_tables (sql_update_ip inet sid ip) db"
| "execute arr inet (Upsert_state sid temp) db = on_tables (sql_upsert_state sid temp) db"
| "execute arr inet (Insert_request rid sid host ip active status time) db =
     on_tables (sql_insert_request inet rid sid host ip active status time) db"
| "execute arr inet (Insert_error sid code detail rid) db = insert_error sid code detail rid db"
| "execute arr inet (Delete_rows cs ss rs es) db = (Inr (), delete_rows arr cs ss rs es db)"

text \<open>\<open>psql\<close> goes on after a statement that failed.\<close>

definition run_script :: "notification_order \<Rightarrow> inet_input \<Rightarrow> statement list \<Rightarrow> full_db \<Rightarrow> full_db" where
  "run_script arr inet sts db = fold (\<lambda>st db. snd (execute arr inet st db)) sts db"

text \<open>
  The rows of \<open>db.sql\<close>. The rows of one \<open>INSERT\<close> are inserted one after the other here, which differs only when
  one of them fails; the error's request is the one that the query finds.
\<close>

definition script_rows :: "string \<Rightarrow> string \<Rightarrow> string \<Rightarrow> string \<Rightarrow> statement list" where
  "script_rows now ten_minutes_ago an_hour_ago yesterday =
     [Insert_cert ''hash_node_01_abc'' (Some ''cpu-node-01.pqc.internal'') ''-----BEGIN CERTIFICATE----- NODE 1 -----END CERTIFICATE-----'',
      Insert_cert ''hash_node_02_xyz'' (Some ''cpu-node-02.pqc.internal'') ''-----BEGIN CERTIFICATE----- NODE 2 -----END CERTIFICATE-----'',
      Insert_cert ''hash_node_03_123'' (Some ''cpu-node-03.pqc.internal'') ''-----BEGIN CERTIFICATE----- NODE 3 -----END CERTIFICATE-----'',
      Insert_config 1 ''cpu-node-01'' ''192.168.1.101'' 1,
      Insert_config 2 ''cpu-node-02'' ''192.168.1.102'' 2,
      Insert_config 3 ''cpu-node-03'' ''192.168.1.103'' 3,
      Update_ip 1 ''10.0.0.15'',
      Upsert_state 1 (354 / 10), Upsert_state 2 (421 / 10),
      Revoke_cert 1,
      Insert_request 111111001 1 ''cpu-node-01'' ''192.168.1.55'' True ''PENDING'' now,
      Insert_request 111111002 2 ''cpu-node-02'' ''192.168.1.60'' True ''SUCCESS'' ten_minutes_ago,
      Insert_request 111111003 1 ''cpu-node-01'' ''192.168.1.55'' False ''ERROR'' an_hour_ago,
      Insert_request 1111004 3 ''cpu-node-03'' ''192.168.1.75'' True ''TIMEOUT'' yesterday,
      Insert_error 2 (Some ''MQTT_TIMEOUT'') (Some ''Sensor did not respond to PUB message within 5s'') (Some 111111002)]"

section \<open>The schema with the errors\<close>

definition errors_consistent :: "(int \<times> error_row) list \<Rightarrow> (int \<rightharpoonup> config_row) \<Rightarrow> (int \<rightharpoonup> pending_row) \<Rightarrow> bool" where
  "errors_consistent errs cfg pend \<longleftrightarrow>
     wf_alist errs
     \<and> (\<forall>e row. map_of errs e = Some row \<longrightarrow>
          cfg (e_sensor_id row) \<noteq> None \<and> (\<forall>r. e_request_id row = Some r \<longrightarrow> pend r \<noteq> None))
     \<and> (\<forall>e1 e2 r1 r2. map_of errs e1 = Some r1 \<longrightarrow> map_of errs e2 = Some r2
          \<longrightarrow> e_request_id r1 = e_request_id r2 \<longrightarrow> e_request_id r1 \<noteq> None \<longrightarrow> e1 = e2)"

definition errors_ok :: "full_db \<Rightarrow> bool" where
  "errors_ok db \<longleftrightarrow>
     errors_consistent (sensor_config_errors db) (map_of (sensor_config (tables db))) (map_of (sensor_config_pending (tables db)))"

definition fingerprints_unique :: "database \<Rightarrow> bool" where
  "fingerprints_unique db \<longleftrightarrow>
     (\<forall>c1 c2 r1 r2. map_of (sensor_certs db) c1 = Some r1 \<longrightarrow> map_of (sensor_certs db) c2 = Some r2
        \<longrightarrow> fingerprint r1 = fingerprint r2 \<longrightarrow> c1 = c2)"

definition full_ok :: "full_db \<Rightarrow> bool" where
  "full_ok db \<longleftrightarrow> schema_ok (tables db) \<and> fingerprints_unique (tables db) \<and> errors_ok db"

lemma map_of_without: "wf_alist tbl \<Longrightarrow> map_of (without ks tbl) k = (if k \<in> set ks then None else map_of tbl k)"
  by (induction tbl) (auto simp: without_def)

lemma wf_without [simp]: "wf_alist tbl \<Longrightarrow> wf_alist (without ks tbl)"
  unfolding without_def by (rule distinct_map_filter)

lemma in_keys_where: "wf_alist tbl \<Longrightarrow> k \<in> set (keys_where P tbl) \<longleftrightarrow> (\<exists>v. map_of tbl k = Some v \<and> P k v)"
  by (induction tbl) (auto simp: keys_where_def)

section \<open>Statements keep the schema\<close>

definition grows :: "database \<Rightarrow> database \<Rightarrow> bool" where
  "grows db db' \<longleftrightarrow>
     sensor_certs db' = sensor_certs db
     \<and> (\<forall>s. map_of (sensor_config db) s \<noteq> None \<longrightarrow> map_of (sensor_config db') s \<noteq> None)
     \<and> (\<forall>r. map_of (sensor_config_pending db) r \<noteq> None \<longrightarrow> map_of (sensor_config_pending db') r \<noteq> None)"

lemma grows_ok:
  assumes "full_ok db" "schema_ok t" "grows (tables db) t"
  shows "full_ok (db\<lparr>tables := t\<rparr>)"
proof -
  have "fingerprints_unique t" using assms by (simp add: full_ok_def fingerprints_unique_def grows_def)
  moreover have "errors_ok (db\<lparr>tables := t\<rparr>)"
    using assms by (auto simp: full_ok_def errors_ok_def errors_consistent_def grows_def)
  ultimately show ?thesis using assms(2) by (simp add: full_ok_def)
qed

lemma insert_config_ok:
  assumes ok: "schema_ok db" and ins: "sql_insert_config inet sid host ip cid db = Inr db'"
  shows "schema_ok db' \<and> grows db db'"
proof -
  let ?row = "\<lambda>a. \<lparr>hostname = host, ip_address = a, is_active = Some True, cert_id = cid, request_id = None\<rparr>"
  obtain a where new: "map_of (sensor_config db) sid = None" "cid \<notin> cert_id ` snd ` set (sensor_config db)"
      "map_of (sensor_certs db) cid \<noteq> None" "length host \<le> 100"
    and db': "db' = pg_notify (notify_config_change ''INSERT'' sid (?row a)) (db\<lparr>sensor_config := AList.update sid (?row a) (sensor_config db)\<rparr>)"
    using ins by (auto simp: sql_insert_config_def sql_varchar100_def Let_def split: if_splits)
  have "certs_unique (AList.update sid (?row a) (sensor_config db))"
    using ok new(2) by (intro certs_unique_insert) (auto simp: schema_ok_def)
  then show ?thesis using ok new db' by (auto simp: schema_ok_def grows_def)
qed

lemma update_ip_ok:
  assumes ok: "schema_ok db" and up: "sql_update_ip inet sid ip db = Inr db'"
  shows "schema_ok db' \<and> grows db db'"
proof (cases "map_of (sensor_config db) sid")
  case None
  with ok up show ?thesis by (auto simp: sql_update_ip_def grows_def)
next
  case (Some old)
  then obtain a where db': "db' = pg_notify (notify_config_change ''UPDATE'' sid (old\<lparr>ip_address := a\<rparr>))
      (db\<lparr>sensor_config := AList.update sid (old\<lparr>ip_address := a\<rparr>) (sensor_config db)\<rparr>)"
    using up by (auto simp: sql_update_ip_def Let_def)
  have "certs_unique (AList.update sid (old\<lparr>ip_address := a\<rparr>) (sensor_config db))"
    using ok Some by (intro certs_unique_update) (auto simp: schema_ok_def)
  then show ?thesis using ok Some db' by (auto simp: schema_ok_def grows_def)
qed

lemma insert_request_ok:
  "schema_ok db \<Longrightarrow> sql_insert_request inet rid sid host ip active status time db = Inr db' \<Longrightarrow> schema_ok db' \<and> grows db db'"
  by (auto simp: sql_insert_request_def schema_ok_def grows_def Let_def split: if_splits)

lemma upsert_state_ok: "schema_ok db \<Longrightarrow> sql_upsert_state sid temp db = Inr db' \<Longrightarrow> schema_ok db' \<and> grows db db'"
  using sql_upsert_state_ok [of db sid temp db'] by (auto simp: sql_upsert_state_def grows_def Let_def split: if_splits)

lemma on_tables_ok:
  assumes "full_ok db" "\<And>t. f (tables db) = Inr t \<Longrightarrow> schema_ok (tables db) \<Longrightarrow> schema_ok t \<and> grows (tables db) t"
  shows "full_ok (snd (on_tables f db))"
  using assms grows_ok [of db] by (auto simp: on_tables_def full_ok_def split: sum.split)

text \<open>Certificates are no one's child: adding or changing one keeps everything else.\<close>

lemma fingerprints_notify [simp]: "fingerprints_unique (pg_notify x t) = fingerprints_unique t"
  by (simp add: fingerprints_unique_def)

lemma cert_update_ok:
  assumes ok: "full_ok db"
    and new: "\<And>c r. map_of (sensor_certs (tables db)) c = Some r \<Longrightarrow> fingerprint r = fingerprint row \<Longrightarrow> c = n"
  shows "full_ok (db\<lparr>cert_serial := k, tables := pg_notify x ((tables db)\<lparr>sensor_certs := AList.update n row (sensor_certs (tables db))\<rparr>)\<rparr>)"
proof -
  let ?t = "(tables db)\<lparr>sensor_certs := AList.update n row (sensor_certs (tables db))\<rparr>"
  have "schema_ok ?t" using ok by (auto simp: full_ok_def schema_ok_def)
  moreover have "fingerprints_unique ?t"
  proof -
    have "fingerprints_unique (tables db)" using ok by (simp add: full_ok_def)
    then show ?thesis unfolding fingerprints_unique_def using new by (auto simp: fun_upd_apply)
  qed
  moreover have "errors_ok (db\<lparr>cert_serial := k, tables := pg_notify x ?t\<rparr>)" using ok by (simp add: full_ok_def errors_ok_def)
  ultimately show ?thesis by (simp add: full_ok_def)
qed

lemma serial_ok [simp]:
  "full_ok (db\<lparr>cert_serial := n\<rparr>) = full_ok db" "full_ok (db\<lparr>error_serial := n\<rparr>) = full_ok db"
  by (simp_all add: full_ok_def errors_ok_def)

lemma insert_cert_ok:
  assumes "full_ok db"
  shows "full_ok (snd (insert_cert fp cn pem db))"
proof -
  let ?certs = "sensor_certs (tables db)"
  let ?row = "\<lambda>f c. \<lparr>fingerprint = f, common_name = c, is_revoked = Some False, pem_data = pem\<rparr>"
  have inserted: "full_ok (db\<lparr>cert_serial := k, tables := pg_notify x ((tables db)\<lparr>sensor_certs := AList.update n (?row f c) ?certs\<rparr>)\<rparr>)"
    if "f \<notin> fingerprint ` snd ` set ?certs" for k x n f c
  proof (rule cert_update_ok [OF assms])
    fix m r assume "map_of ?certs m = Some r" "fingerprint r = fingerprint (?row f c)"
    with map_of_SomeD [OF this(1)] that show "m = n" by force
  qed
  show ?thesis
  proof (cases "sbind (sql_varchar 64 fp) (\<lambda>f. sbind (sql_varchar_opt 255 cn) (\<lambda>c. Inr (f, c)))")
    case (Inl e)
    then show ?thesis using assms by (simp add: insert_cert_def)
  next
    case (Inr fc)
    obtain f c where "fc = (f, c)" by fastforce
    with Inr show ?thesis
      using assms inserted [of f] by (simp add: insert_cert_def failed_def Let_def del: sbind_eq_Inr)
  qed
qed

lemma revoke_cert_ok:
  assumes "full_ok db"
  shows "full_ok (snd (revoke_cert cid db))"
proof (cases "map_of (sensor_certs (tables db)) cid")
  case (Some old)
  let ?row = "old\<lparr>is_revoked := Some True\<rparr>"
  have "full_ok (db\<lparr>cert_serial := cert_serial db, tables := pg_notify x ((tables db)\<lparr>sensor_certs := AList.update cid ?row (sensor_certs (tables db))\<rparr>)\<rparr>)" for x
    using assms Some by (intro cert_update_ok) (auto simp: full_ok_def fingerprints_unique_def)
  then show ?thesis using Some by (simp add: revoke_cert_def Let_def)
qed (use assms in \<open>simp add: revoke_cert_def\<close>)

lemma errors_consistent_insert:
  assumes ok: "errors_consistent errs cfg pend" and refs: "cfg (e_sensor_id row) \<noteq> None" "\<And>r. e_request_id row = Some r \<Longrightarrow> pend r \<noteq> None"
    and new: "e_request_id row \<noteq> None \<Longrightarrow> e_request_id row \<notin> e_request_id ` snd ` set errs"
  shows "errors_consistent (AList.update n row errs) cfg pend"
  unfolding errors_consistent_def
proof (intro conjI allI impI)
  fix e r q assume "map_of (AList.update n row errs) e = Some r"
  then show "cfg (e_sensor_id r) \<noteq> None" "e_request_id r = Some q \<Longrightarrow> pend q \<noteq> None"
    using ok refs by (auto simp: errors_consistent_def split: if_splits)
next
  fix e1 e2 r1 r2
  assume "map_of (AList.update n row errs) e1 = Some r1" "map_of (AList.update n row errs) e2 = Some r2"
    and same: "e_request_id r1 = e_request_id r2" "e_request_id r1 \<noteq> None"
  then have at: "(if e1 = n then Some row else map_of errs e1) = Some r1" "(if e2 = n then Some row else map_of errs e2) = Some r2"
    by (simp_all add: fun_upd_apply split: if_splits)
  have other: "map_of errs e \<noteq> Some r" if "e_request_id r = e_request_id row" "e_request_id row \<noteq> None" for e r
    using map_of_SomeD [of errs e r] new [OF that(2)] that(1) by (metis imageI snd_conv)
  show "e1 = e2"
  proof (cases "e1 = n \<or> e2 = n")
    case True
    then show ?thesis using at same other [of r1 e1] other [of r2 e2] by (auto split: if_splits)
  next
    case False
    then show ?thesis using at same ok unfolding errors_consistent_def by metis
  qed
qed (use ok in \<open>simp add: errors_consistent_def\<close>)

lemma insert_error_ok:
  assumes ok: "full_ok db"
  shows "full_ok (snd (insert_error sid code detail rid db))"
proof -
  let ?errs = "sensor_config_errors db" and ?t = "tables db"
  have inserted: "full_ok (db\<lparr>error_serial := k, sensor_config_errors := AList.update n row ?errs, tables := pg_notify x ?t\<rparr>)"
    if new: "map_of (sensor_config ?t) (e_sensor_id row) \<noteq> None" "\<And>r. e_request_id row = Some r \<Longrightarrow> map_of (sensor_config_pending ?t) r \<noteq> None"
      "e_request_id row \<noteq> None \<Longrightarrow> e_request_id row \<notin> e_request_id ` snd ` set ?errs" for k n x row
  proof -
    have "errors_consistent (AList.update n row ?errs) (map_of (sensor_config ?t)) (map_of (sensor_config_pending ?t))"
      using ok new by (intro errors_consistent_insert) (simp_all add: full_ok_def errors_ok_def)
    with ok show ?thesis by (simp add: full_ok_def errors_ok_def)
  qed
  show ?thesis
  proof (cases "sql_varchar_opt 50 code")
    case (Inl e)
    then show ?thesis using ok by (simp add: insert_error_def)
  next
    case (Inr c)
    let ?row = "\<lparr>e_request_id = rid, e_sensor_id = sid, e_code = c, e_detail = detail, occurred_at = clock ?t\<rparr>"
    from Inr show ?thesis
      using ok inserted [where row = ?row]
      by (cases rid) (auto simp: insert_error_def failed_def Let_def)
  qed
qed

text \<open>What is left after a delete.\<close>

lemma left_after_delete:
  assumes "full_ok db"
  shows "map_of (sensor_certs (tables (delete_rows arr cs ss rs es db))) c
      = (if c \<in> set cs then None else map_of (sensor_certs (tables db)) c)"
    "map_of (sensor_config (tables (delete_rows arr cs ss rs es db))) s
      = (if s \<in> set (fallen_configs cs ss db) then None else map_of (sensor_config (tables db)) s)"
    "map_of (sensor_state (tables (delete_rows arr cs ss rs es db))) s
      = (if s \<in> set (fallen_configs cs ss db) then None else map_of (sensor_state (tables db)) s)"
    "map_of (sensor_config_pending (tables (delete_rows arr cs ss rs es db))) r
      = (if r \<in> set (fallen_requests (fallen_configs cs ss db) rs db) then None else map_of (sensor_config_pending (tables db)) r)"
    "map_of (sensor_config_errors (delete_rows arr cs ss rs es db)) e
      = (if e \<in> set (fallen_errors (fallen_configs cs ss db) (fallen_requests (fallen_configs cs ss db) rs db) es db) then None
         else map_of (sensor_config_errors db) e)"
  using assms by (simp_all add: delete_rows_def Let_def map_of_without full_ok_def schema_ok_def errors_ok_def errors_consistent_def)

lemma fallen_simps:
  assumes "full_ok db"
  shows "s \<in> set (fallen_configs cs ss db)
      \<longleftrightarrow> (\<exists>row. map_of (sensor_config (tables db)) s = Some row \<and> (s \<in> set ss \<or> cert_id row \<in> set cs))"
    "r \<in> set (fallen_requests ss rs db)
      \<longleftrightarrow> (\<exists>row. map_of (sensor_config_pending (tables db)) r = Some row \<and> (r \<in> set rs \<or> p_sensor_id row \<in> set ss))"
    "e \<in> set (fallen_errors ss rs es db)
      \<longleftrightarrow> (\<exists>row. map_of (sensor_config_errors db) e = Some row
            \<and> (e \<in> set es \<or> e_sensor_id row \<in> set ss \<or> (\<exists>r \<in> set rs. e_request_id row = Some r)))"
  using assms by (auto simp: fallen_configs_def fallen_requests_def fallen_errors_def in_keys_where full_ok_def schema_ok_def
      errors_ok_def errors_consistent_def split: option.splits)

lemma wf_after_delete:
  assumes "full_ok db"
  shows "wf_alist (sensor_certs (tables (delete_rows arr cs ss rs es db)))" "wf_alist (sensor_config (tables (delete_rows arr cs ss rs es db)))"
    "wf_alist (sensor_config_pending (tables (delete_rows arr cs ss rs es db)))"
    "wf_alist (sensor_state (tables (delete_rows arr cs ss rs es db)))" "wf_alist (sensor_config_errors (delete_rows arr cs ss rs es db))"
  using assms by (simp_all add: delete_rows_def Let_def full_ok_def schema_ok_def errors_ok_def errors_consistent_def)

lemma delete_rows_ok:
  assumes ok: "full_ok db"
  shows "full_ok (delete_rows arr cs ss rs es db)"
proof -
  note left = left_after_delete [OF ok] fallen_simps [OF ok]
  let ?db' = "delete_rows arr cs ss rs es db"
  have schema: "schema_ok (tables db)" and prints: "fingerprints_unique (tables db)" and errors: "errors_ok db"
    using ok by (simp_all add: full_ok_def)
  have "schema_ok (tables ?db')"
    unfolding schema_ok_def certs_unique_def
    using wf_after_delete [OF ok, of arr cs ss rs es] schema
    by (auto simp: left schema_ok_def certs_unique_def split: if_splits)
  moreover have "fingerprints_unique (tables ?db')"
    using prints by (auto simp: left fingerprints_unique_def split: if_splits)
  moreover have "errors_ok ?db'"
    unfolding errors_ok_def errors_consistent_def using wf_after_delete [OF ok, of arr cs ss rs es] errors
    by (auto simp: left errors_ok_def errors_consistent_def split: if_splits)
  ultimately show ?thesis by (simp add: full_ok_def)
qed

lemmas table_statements_ok = on_tables_ok [OF _ insert_config_ok] on_tables_ok [OF _ update_ip_ok]
  on_tables_ok [OF _ upsert_state_ok] on_tables_ok [OF _ insert_request_ok]

lemma execute_ok: "full_ok db \<Longrightarrow> full_ok (snd (execute arr inet st db))"
  by (cases st) (simp_all add: insert_cert_ok revoke_cert_ok insert_error_ok delete_rows_ok table_statements_ok)

definition same_rows :: "full_db \<Rightarrow> full_db \<Rightarrow> bool" where
  "same_rows db db' \<longleftrightarrow> tables db' = tables db \<and> sensor_config_errors db' = sensor_config_errors db"

lemma failed_insert_cert: "fst (insert_cert fp cn pem db) = Inl e \<Longrightarrow> same_rows db (snd (insert_cert fp cn pem db))"
proof (cases "sbind (sql_varchar 64 fp) (\<lambda>f. sbind (sql_varchar_opt 255 cn) (\<lambda>c. Inr (f, c)))")
  case (Inr fc)
  assume fails: "fst (insert_cert fp cn pem db) = Inl e"
  obtain f c where "fc = (f, c)" by fastforce
  with Inr fails show ?thesis
    by (simp add: insert_cert_def failed_def same_rows_def Let_def del: sbind_eq_Inr split: if_splits)
qed (simp add: insert_cert_def same_rows_def)

lemma failed_insert_error: "fst (insert_error sid code detail rid db) = Inl e \<Longrightarrow> same_rows db (snd (insert_error sid code detail rid db))"
proof (cases "sql_varchar_opt 50 code")
  case (Inr c)
  assume "fst (insert_error sid code detail rid db) = Inl e"
  with Inr show ?thesis
    by (cases rid) (simp_all add: insert_error_def failed_def same_rows_def Let_def split: if_splits)
qed (simp add: insert_error_def same_rows_def)

lemma failed_changes_nothing: "fst (execute arr inet st db) = Inl e \<Longrightarrow> same_rows db (snd (execute arr inet st db))"
proof (cases st)
  case (Revoke_cert c)
  then show "fst (execute arr inet st db) = Inl e \<Longrightarrow> ?thesis"
    by (cases "map_of (sensor_certs (tables db)) c") (simp_all add: revoke_cert_def Let_def)
qed (auto simp: failed_insert_cert failed_insert_error on_tables_def same_rows_def [of db db] split: sum.splits)

lemma empty_db_ok: "full_ok (empty_db now)"
  by (simp add: full_ok_def empty_db_def schema_ok_def certs_unique_def fingerprints_unique_def errors_ok_def
      errors_consistent_def)

lemma run_script_ok: "full_ok db \<Longrightarrow> full_ok (run_script arr inet sts db)"
  by (induction sts arbitrary: db) (simp_all add: run_script_def execute_ok)

section \<open>What the listeners are told\<close>

text \<open>PostgreSQL delivers every notification of a transaction, identical ones once.\<close>

definition delivers_once :: "notification_order \<Rightarrow> bool" where
  "delivers_once arr \<longleftrightarrow> (\<forall>ns. set (arr ns) = set ns \<and> distinct (arr ns))"

lemma remdups_delivers_once: "delivers_once remdups"
  by (simp add: delivers_once_def)

lemma delete_notifies:
  assumes "full_ok db"
  shows "set (delete_notifications cs ss es db)
    = {notify_cert_change ''DELETE'' None (Some (c, row)) | c row. map_of (sensor_certs (tables db)) c = Some row \<and> c \<in> set cs}
      \<union> {notify_config_change ''DELETE'' s row | s row. map_of (sensor_config (tables db)) s = Some row \<and> s \<in> set ss}
      \<union> {notify_config_error None | e row. map_of (sensor_config_errors db) e = Some row \<and> e \<in> set es}"
proof -
  have rows: "wf_alist tbl \<Longrightarrow> set (filter (\<lambda>(k, _). k \<in> K) tbl) = {(k, v) | k v. map_of tbl k = Some v \<and> k \<in> K}"
    for tbl :: "('k \<times> 'v) list" and K
    by (auto simp: map_of_eq_Some_iff)
  have wf: "wf_alist (sensor_certs (tables db))" "wf_alist (sensor_config (tables db))" "wf_alist (sensor_config_errors db)"
    using assms by (simp_all add: full_ok_def schema_ok_def errors_ok_def errors_consistent_def)
  show ?thesis
    unfolding delete_notifications_def set_append set_map rows [OF wf(1)] rows [OF wf(2)] rows [OF wf(3)]
    by auto
qed

text \<open>A deleted certificate is announced as not revoked, whatever it was, and a deleted error without saying which.\<close>

lemma deletes_announce_little:
  "notify_cert_change ''DELETE'' None (Some (c, row)) = (''cert_events'', JObject [(''action'', JString ''DELETE''),
     (''cert_id'', JInt64 c), (''revoked'', JBool False), (''cn'', json_opt JString (common_name row))])"
  "notify_config_error None = (''error_events'', JObject [(''sensor_id'', JNull), (''error_code'', JNull), (''detail'', JNull),
     (''timestamp'', JNull), (''request_id'', JNull)])"
  by (simp_all add: notify_cert_change_def notify_config_error_def coalesce_def json_opt_def)

text \<open>An update that takes the common name away announces the old one.\<close>

lemma removed_name_is_announced:
  "common_name old = Some n \<Longrightarrow> common_name new = None \<Longrightarrow>
    notify_cert_change ''UPDATE'' (Some (c, new)) (Some (c, old)) = (''cert_events'', JObject [(''action'', JString ''UPDATE''),
      (''cert_id'', JInt64 c), (''revoked'', JBool (is_revoked new = Some True)), (''cn'', JString n)])"
  by (cases "is_revoked new") (auto simp: notify_cert_change_def coalesce_def json_opt_def)

section \<open>Properties\<close>

text \<open>Whatever statements an administrator runs, in whatever order, every constraint of \<open>db.sql\<close> holds
  afterwards, the foreign keys of the errors included; and a statement that fails changes no row.\<close>

lemma scripts_keep_schema:
  assumes "full_ok db"
  shows "full_ok (run_script arr inet sts db)"
    and "fst (execute arr inet st db) = Inl e \<Longrightarrow> same_rows db (snd (execute arr inet st db))"
  using run_script_ok [OF assms] failed_changes_nothing by blast+

text \<open>The sensors that belong to a certificate: at most one.\<close>

definition belongs_to :: "full_db \<Rightarrow> int \<Rightarrow> int \<Rightarrow> bool" where
  "belongs_to db c s \<longleftrightarrow> (\<exists>row. map_of (sensor_config (tables db)) s = Some row \<and> cert_id row = c)"

lemma fallen_with_cert:
  assumes "full_ok db"
  shows "s \<in> set (fallen_configs [c] [] db) \<longleftrightarrow> belongs_to db c s"
    "r \<in> set (fallen_requests (fallen_configs [c] [] db) [] db)
      \<longleftrightarrow> (\<exists>row. map_of (sensor_config_pending (tables db)) r = Some row \<and> belongs_to db c (p_sensor_id row))"
    "e \<in> set (fallen_errors (fallen_configs [c] [] db) (fallen_requests (fallen_configs [c] [] db) [] db) [] db)
      \<longleftrightarrow> (\<exists>row. map_of (sensor_config_errors db) e = Some row \<and> (belongs_to db c (e_sensor_id row)
            \<or> (\<exists>r p. e_request_id row = Some r \<and> map_of (sensor_config_pending (tables db)) r = Some p \<and> belongs_to db c (p_sensor_id p))))"
  using assms by (auto simp: fallen_simps belongs_to_def)

text \<open>C38: deleting a certificate takes along exactly its sensor's configuration, telemetry, requests and errors, and
  the errors of its requests; what is left is as it was, and the listeners hear of the certificate, of the
  configuration and, once and without details, of the errors.\<close>

theorem deleted_certificate_takes_its_sensor_along:
  assumes "full_ok db" "delivers_once arr" "map_of (sensor_certs (tables db)) c = Some cert"
  shows "map_of (sensor_certs (tables (delete_rows arr [c] [] [] [] db))) = (map_of (sensor_certs (tables db)))(c := None)
    \<and> map_of (sensor_config (tables (delete_rows arr [c] [] [] [] db))) = map_of (sensor_config (tables db)) |` {s. \<not> belongs_to db c s}
    \<and> map_of (sensor_state (tables (delete_rows arr [c] [] [] [] db))) = map_of (sensor_state (tables db)) |` {s. \<not> belongs_to db c s}
    \<and> (map_of (sensor_config_pending (tables (delete_rows arr [c] [] [] [] db))) r = Some p
      \<longleftrightarrow> map_of (sensor_config_pending (tables db)) r = Some p \<and> \<not> belongs_to db c (p_sensor_id p))
    \<and> (map_of (sensor_config_errors (delete_rows arr [c] [] [] [] db)) e = Some x
      \<longleftrightarrow> map_of (sensor_config_errors db) e = Some x \<and> \<not> belongs_to db c (e_sensor_id x)
          \<and> (\<nexists>q y. e_request_id x = Some q \<and> map_of (sensor_config_pending (tables db)) q = Some y \<and> belongs_to db c (p_sensor_id y)))
    \<and> (\<exists>ns. notifications (tables (delete_rows arr [c] [] [] [] db)) = notifications (tables db) @ ns \<and> distinct ns
      \<and> set ns = {notify_cert_change ''DELETE'' None (Some (c, cert))}
          \<union> {notify_config_change ''DELETE'' s row | s row. map_of (sensor_config (tables db)) s = Some row \<and> cert_id row = c}
          \<union> {notify_config_error None | e y. map_of (sensor_config_errors db) e = Some y
               \<and> map_of (sensor_config_errors (delete_rows arr [c] [] [] [] db)) e = None})"
proof -
  note left = left_after_delete [OF assms(1)] fallen_with_cert [OF assms(1)]
  let ?db' = "delete_rows arr [c] [] [] [] db" and ?ss = "fallen_configs [c] [] db"
  let ?es = "fallen_errors ?ss (fallen_requests ?ss [] db) [] db"
  have certs: "map_of (sensor_certs (tables ?db')) = (map_of (sensor_certs (tables db)))(c := None)"
    by (rule ext) (simp add: left)
  have maps: "map_of (sensor_config (tables ?db')) = map_of (sensor_config (tables db)) |` {s. \<not> belongs_to db c s}"
    "map_of (sensor_state (tables ?db')) = map_of (sensor_state (tables db)) |` {s. \<not> belongs_to db c s}"
    by (rule ext, simp add: left restrict_map_def)+
  have pending: "map_of (sensor_config_pending (tables ?db')) r = Some p
      \<longleftrightarrow> map_of (sensor_config_pending (tables db)) r = Some p \<and> \<not> belongs_to db c (p_sensor_id p)"
    by (auto simp: left split: if_splits)
  have errors: "map_of (sensor_config_errors ?db') e = Some x
      \<longleftrightarrow> map_of (sensor_config_errors db) e = Some x \<and> \<not> belongs_to db c (e_sensor_id x)
          \<and> (\<nexists>q y. e_request_id x = Some q \<and> map_of (sensor_config_pending (tables db)) q = Some y \<and> belongs_to db c (p_sensor_id y))"
    by (auto simp: left split: if_splits)
  have gone: "map_of (sensor_config_errors db) e = Some y \<and> map_of (sensor_config_errors ?db') e = None
      \<longleftrightarrow> map_of (sensor_config_errors db) e = Some y \<and> e \<in> set ?es" for e y
    by (auto simp: left_after_delete(5) [OF assms(1)])
  have told: "set (delete_notifications [c] ?ss ?es db) = {notify_cert_change ''DELETE'' None (Some (c, cert))}
      \<union> {notify_config_change ''DELETE'' s row | s row. map_of (sensor_config (tables db)) s = Some row \<and> cert_id row = c}
      \<union> {notify_config_error None | e y. map_of (sensor_config_errors db) e = Some y \<and> map_of (sensor_config_errors ?db') e = None}"
    unfolding delete_notifies [OF assms(1)] using assms(3)
    by (simp add: gone fallen_with_cert(1) [OF assms(1)] belongs_to_def cong: conj_cong)
  have "notifications (tables ?db') = notifications (tables db) @ arr (delete_notifications [c] ?ss ?es db)"
    by (simp add: delete_rows_def Let_def)
  then have notified: "\<exists>ns. notifications (tables ?db') = notifications (tables db) @ ns \<and> distinct ns
      \<and> set ns = {notify_cert_change ''DELETE'' None (Some (c, cert))}
          \<union> {notify_config_change ''DELETE'' s row | s row. map_of (sensor_config (tables db)) s = Some row \<and> cert_id row = c}
          \<union> {notify_config_error None | e y. map_of (sensor_config_errors db) e = Some y \<and> map_of (sensor_config_errors ?db') e = None}"
    using assms(2) told unfolding delivers_once_def by metis
  show ?thesis by (intro conjI certs maps pending errors notified)
qed

definition small_script :: "statement list" where
  "small_script = [Insert_cert ''f1'' (Some ''node'') ''pem'', Insert_config 1 ''h'' ''10.0.0.1'' 1,
     Insert_request 5 1 ''h'' ''10.0.0.2'' True ''ERROR'' ''t'', Insert_error 1 (Some ''X'') None (Some 5)]"

definition small_db :: full_db where
  "small_db = run_script remdups Some small_script (empty_db ''t'')"

lemmas script_defs = run_script_def insert_cert_def revoke_cert_def insert_error_def on_tables_def sql_insert_config_def
  sql_update_ip_def sql_upsert_state_def sql_insert_request_def sql_varchar_def sql_varchar_opt_def sql_varchar100_def
  sql_inet_def sql_numeric_5_2_def failed_def status_ok_def pg_notify_def empty_db_def Let_def

lemma small_db_rows: "map_of (sensor_certs (tables small_db)) 1
    = Some \<lparr>fingerprint = ''f1'', common_name = Some ''node'', is_revoked = Some False, pem_data = ''pem''\<rparr>
   \<and> sensor_config (tables small_db) = [(1, \<lparr>hostname = ''h'', ip_address = ''10.0.0.1'', is_active = Some True, cert_id = 1, request_id = None\<rparr>)]
   \<and> map fst (sensor_config_pending (tables small_db)) = [5] \<and> map fst (sensor_config_errors small_db) = [1]"
  by (simp add: small_db_def small_script_def script_defs)

lemma scripts_keep_schema_example:
  "full_ok (run_script remdups Some [Delete_rows [] [1] [] []] small_db)
    \<and> same_rows small_db (snd (execute remdups Some (Insert_config 2 ''h'' ''10.0.0.3'' 1) small_db))"
proof -
  have ok: "full_ok small_db" unfolding small_db_def by (rule run_script_ok [OF empty_db_ok])
  have "fst (execute remdups Some (Insert_config 2 ''h'' ''10.0.0.3'' 1) small_db)
      = Inl (Sql_error ''duplicate key: sensor_config_cert_id_key'')"
    using small_db_rows by (simp add: on_tables_def sql_insert_config_def sql_varchar100_def sql_inet_def)
  then show ?thesis using scripts_keep_schema [OF ok] by metis
qed

theorem deleted_certificate_takes_its_sensor_along_witness:
  "map_of (sensor_config (tables (delete_rows remdups [1] [] [] [] small_db))) 1 = None
    \<and> map_of (sensor_certs (tables (delete_rows remdups [1] [] [] [] small_db))) 1 = None"
proof -
  have ok: "full_ok small_db" unfolding small_db_def by (rule run_script_ok [OF empty_db_ok])
  have cert: "map_of (sensor_certs (tables small_db)) 1
      = Some \<lparr>fingerprint = ''f1'', common_name = Some ''node'', is_revoked = Some False, pem_data = ''pem''\<rparr>"
    using small_db_rows by blast
  have "belongs_to small_db 1 1" using small_db_rows by (simp add: belongs_to_def)
  then show ?thesis
    using deleted_certificate_takes_its_sensor_along [OF ok remdups_delivers_once cert] by (simp add: restrict_map_def)
qed

section \<open>The deployed database\<close>

text \<open>The addresses that the script writes are texts PostgreSQL gives back as they are.\<close>

definition script_addresses :: "string list" where
  "script_addresses = [''192.168.1.101'', ''192.168.1.102'', ''192.168.1.103'', ''10.0.0.15'', ''192.168.1.55'', ''192.168.1.60'',
     ''192.168.1.75'']"

definition deployed :: "notification_order \<Rightarrow> inet_input \<Rightarrow> string \<Rightarrow> string \<Rightarrow> string \<Rightarrow> string \<Rightarrow> full_db" where
  "deployed arr inet now t1 t2 t3 = run_script arr inet (script_rows now t1 t2 t3) (empty_db now)"

lemma deployed_ok: "full_ok (deployed arr inet now t1 t2 t3)"
  unfolding deployed_def by (rule run_script_ok [OF empty_db_ok])

lemma deployed_rows:
  assumes "\<forall>a \<in> set script_addresses. inet a = Some a"
  shows "map fst (sensor_config_pending (tables (deployed arr inet now t1 t2 t3))) = [111111001, 111111002, 111111003, 1111004]"
    and "map fst (sensor_config (tables (deployed arr inet now t1 t2 t3))) = [1, 2, 3]"
    and "\<forall>row \<in> snd ` set (sensor_config (tables (deployed arr inet now t1 t2 t3))). request_id row = None"
    and "map (e_request_id \<circ> snd) (sensor_config_errors (deployed arr inet now t1 t2 t3)) = [Some 111111002]"
  using assms by (simp_all add: deployed_def script_rows_def script_defs script_addresses_def)

end
