(* ===== verification/Deployment.thy ===== *)
theory Deployment
  imports Db_Script Server_Main
begin

text \<open>
  The server (\<open>server/src/main.cpp\<close>) on the database that \<open>database/sql/db.sql\<close> sets up: the rows of the script
  let it start, the ids it draws lie above the script's, and what an administrator changes or deletes by hand
  never answers a request.
\<close>

lemma deployed_stored_ids:
  assumes "\<forall>a \<in> set script_addresses. inet a = Some a"
  shows "stored_request_ids (tables (deployed arr inet t0 t1 t2 t3)) = [111111001, 111111002, 111111003, 1111004]"
proof -
  let ?db = "tables (deployed arr inet t0 t1 t2 t3)"
  have "List.map_filter (\<lambda>(_, row). request_id row) tbl = []" if "\<forall>row \<in> snd ` set tbl. request_id row = None"
    for tbl :: "(int \<times> config_row) list"
    using that by (induction tbl) (auto simp: List.map_filter_def)
  from this [OF deployed_rows(3) [OF assms]] show ?thesis
    by (simp add: stored_request_ids_def deployed_rows(1) [OF assms])
qed

lemma deployed_max:
  "\<forall>a \<in> set script_addresses. inet a = Some a \<Longrightarrow> max_request_id (tables (deployed arr inet t0 t1 t2 t3)) = 111111003"
  by (simp add: max_request_id_def deployed_stored_ids)

text \<open>Without the script's requests it would not start (\<open>fresh_database_cannot_be_served\<close>); with them it comes up, and
  the first request gets the id 111111004.\<close>

lemma deployed_database_can_be_served:
  assumes "\<forall>a \<in> set script_addresses. inet a = Some a"
    and "server_main env (Options opts) (tables (deployed arr inet t0 t1 t2 t3)) = Serving h m db'"
  shows "manager_ready m \<and> schema_ok db' \<and> fst (generate_request_id m db') = Inr 111111004"
proof -
  note ready = started_server_is_ready [OF assms(2)]
  have "schema_ok (tables (deployed arr inet t0 t1 t2 t3))"
    using deployed_ok by (simp add: full_ok_def)
  with ready generate_ready [of m db' 111111003] show ?thesis
    by (simp add: deployed_max [OF assms(1)] schema_ok_def to_u64_def)
qed

section \<open>Changes by hand answer nobody\<close>

text \<open>The message that the listener makes of a notification, when its payload is parsed back.\<close>

definition listener_message :: "string \<times> json \<Rightarrow> json_object" where
  "listener_message n = [(''channel'', JString (fst n)), (''payload'', snd n)]"

lemma config_event_without_id:
  assumes "tg_op = ''DELETE'' \<or> request_id row = None"
  shows "\<exists>e. config_event_fields (listener_message (notify_config_change tg_op sid row)) = Inl e \<and> is_std_exception e"
proof -
  have "\<exists>e. config_event_fields (listener_message (notify_config_change tg_op sid row)) = Inl e"
    using assms by (cases "request_id row")
      (auto simp: config_event_fields_def listener_message_def notify_config_change_def obj_at_def
        json_opt_def)
  then show ?thesis using config_event_std by blast
qed

lemma manual_change_answers_nobody:
  assumes "tg_op = ''DELETE'' \<or> request_id row = None"
  shows "on_db_config_event_received (listener_message (notify_config_change tg_op sid row)) d = Inr d"
proof -
  obtain e where "config_event_fields (listener_message (notify_config_change tg_op sid row)) = Inl e" "is_std_exception e"
    using config_event_without_id [OF assms] by blast
  then show ?thesis
    by (simp add: on_db_config_event_received_def) (simp add: listener_message_def obj_at_def obj_contains_def notify_config_change_def)
qed

end
