(* ===== verification/Mqtt_Topic.thy ===== *)
theory Mqtt_Topic
  imports Prelude
begin

text \<open>
  Topics and topic filters of the MQTT client the controller and the sensor use
  (\<open>controller/deps/paho.mqtt.cpp/src/topic.cpp\<close>): splitting at \<open>/\<close>, filters with the wildcards \<open>+\<close> and \<open>#\<close>,
  and matching, which is compared with the matching rules of the MQTT standard.
\<close>

section \<open>Topics\<close>

text \<open>The loop of \<open>topic::split\<close>, from \<open>startPos\<close> on.\<close>

function split_from :: "string \<Rightarrow> nat \<Rightarrow> string list" where
  "split_from s start_pos =
     (case str_find_from (CHR ''/'') s start_pos of
        None \<Rightarrow> [drop start_pos s]
      | Some pos \<Rightarrow> substr s start_pos (pos - start_pos) # split_from s (pos + 1))"
  by pat_completeness auto
termination
proof (relation "measure (\<lambda>(s, i). length s - i)", simp)
  fix s :: string and i pos :: nat
  assume "str_find_from (CHR ''/'') s i = Some pos"
  then have "i \<le> pos \<and> pos < length s" by (auto simp: str_find_from_def dest: str_find_Some_nth)
  then show "((s, pos + 1), s, i) \<in> measure (\<lambda>(s, i). length s - i)" by auto
qed

declare split_from.simps [simp del]

definition topic_split :: "string \<Rightarrow> string list" where
  "topic_split s = (if s = [] then [] else split_from s 0)"

section \<open>Filters\<close>

datatype topic_filter = Whole string | Fields "string list"

definition is_wildcard :: "string \<Rightarrow> bool" where
  "is_wildcard s \<longleftrightarrow> length s = 1 \<and> (hd s = CHR ''+'' \<or> hd s = CHR ''#'')"

definition has_wildcards :: "string \<Rightarrow> bool" where
  "has_wildcards flt \<longleftrightarrow> (if flt = [] then False else if last flt = CHR ''#'' then True else CHR ''+'' \<in> set flt)"

definition make_filter :: "string \<Rightarrow> topic_filter" where
  "make_filter flt = (if has_wildcards flt then Fields (topic_split flt) else Whole flt)"

definition filter_has_wildcards :: "topic_filter \<Rightarrow> bool" where
  "filter_has_wildcards flt = (case flt of Whole _ \<Rightarrow> False | Fields _ \<Rightarrow> True)"

text \<open>The loop of \<open>matches\<close>. \<open>topic_fields[i]\<close> beyond the end is undefined behaviour.\<close>

function match_fields :: "string list \<Rightarrow> string list \<Rightarrow> nat \<Rightarrow> exn + bool" where
  "match_fields fs ts i =
     (if length fs \<le> i then Inr True
      else if fs ! i = ''#'' then Inr True
      else if i = length ts \<and> i < length fs - 1 then Inr (fs ! (i + 1) = ''#'')
      else if fs ! i \<noteq> ''+'' \<and> length ts \<le> i then Inl Undefined_behaviour
      else if fs ! i \<noteq> ''+'' \<and> fs ! i \<noteq> ts ! i then Inr False
      else match_fields fs ts (i + 1))"
  by pat_completeness auto
termination
  by (relation "measure (\<lambda>(fs, ts, i). length fs - i)") auto

declare match_fields.simps [simp del]

definition topic_filter_matches :: "topic_filter \<Rightarrow> string \<Rightarrow> exn + bool" where
  "topic_filter_matches flt topic =
     (case flt of
        Whole s \<Rightarrow> Inr (s = topic)
      | Fields fs \<Rightarrow>
          let n = length fs; ts = topic_split topic; nt = length ts in
          if n = 0 then Inr False
          else if nt < n \<and> \<not> (n = nt + 1 \<and> last fs = ''#'') then Inr False
          else if n < nt \<and> last fs \<noteq> ''#'' then Inr False
          else if is_wildcard (fs ! 0) \<and> 0 < nt \<and> 0 < length (ts ! 0) \<and> ts ! 0 ! 0 = CHR ''$'' then Inr False
          else match_fields fs ts 0)"

fun append_fields :: "string list \<Rightarrow> string" where
  "append_fields [] = []"
| "append_fields [f] = f"
| "append_fields (f # fs) = f @ CHR ''/'' # append_fields fs"

definition topic_filter_to_string :: "topic_filter \<Rightarrow> string" where
  "topic_filter_to_string flt = (case flt of Whole s \<Rightarrow> s | Fields fs \<Rightarrow> append_fields fs)"

section \<open>Splitting and joining\<close>

text \<open>What splitting means, one character at a time.\<close>

fun split_slash :: "string \<Rightarrow> string list" where
  "split_slash [] = [[]]"
| "split_slash (c # cs) =
     (if c = CHR ''/'' then [] # split_slash cs
      else (case split_slash cs of [] \<Rightarrow> [[c]] | f # fs \<Rightarrow> (c # f) # fs))"

lemma split_slash_not_Nil [simp]: "split_slash s \<noteq> []"
  by (induction s) (auto split: list.split)

lemma split_slash_plain: "CHR ''/'' \<notin> set a \<Longrightarrow> split_slash a = [a]"
  by (induction a) auto

lemma split_slash_append: "CHR ''/'' \<notin> set a \<Longrightarrow> split_slash (a @ CHR ''/'' # b) = a # split_slash b"
  by (induction a) auto

lemma split_from_eq: "split_from s i = split_slash (drop i s)"
proof (induction s i rule: split_from.induct)
  case (1 s i)
  show ?case
  proof (cases "str_find (CHR ''/'') (drop i s)")
    case None
    then show ?thesis
      by (subst split_from.simps) (simp add: str_find_from_def str_find_None_iff split_slash_plain)
  next
    case (Some k)
    then obtain a b where ab: "drop i s = a @ CHR ''/'' # b" "CHR ''/'' \<notin> set a" "length a = k"
      by (auto simp: str_find_Some_iff)
    have "drop (Suc (i + k)) s = drop (Suc k) (drop i s)" by (simp add: add.commute)
    then have rest: "drop (Suc (i + k)) s = b" using ab by simp
    have "split_from s (i + k + 1) = split_slash b"
      using "1.IH" [of "i + k"] Some rest by (simp add: str_find_from_def)
    then show ?thesis using Some ab
      by (subst split_from.simps) (simp add: str_find_from_def substr_def split_slash_append)
  qed
qed

lemma topic_split_eq: "topic_split s = (if s = [] then [] else split_slash s)"
  by (simp add: topic_split_def split_from_eq)

lemma append_fields_Cons: "fs \<noteq> [] \<Longrightarrow> append_fields (f # fs) = f @ CHR ''/'' # append_fields fs"
  by (cases fs) auto

lemma append_split_slash: "append_fields (split_slash s) = s"
proof (induction s)
  case (Cons c cs)
  obtain f fs where fs: "split_slash cs = f # fs" using split_slash_not_Nil by (meson list.exhaust)
  then show ?case using Cons by (cases fs) (auto simp: append_fields_Cons)
qed simp

lemma append_topic_split: "append_fields (topic_split s) = s"
  by (simp add: topic_split_eq append_split_slash)

lemma topic_split_inj: "topic_split s = topic_split t \<longleftrightarrow> s = t"
  by (metis append_topic_split)

lemma split_slash_chars: "f \<in> set (split_slash s) \<Longrightarrow> set f \<subseteq> set s"
  by (induction s arbitrary: f) (auto split: list.splits if_splits, fastforce+)

lemma split_slash_no_slash: "f \<in> set (split_slash s) \<Longrightarrow> CHR ''/'' \<notin> set f"
  by (induction s arbitrary: f) (auto split: list.splits if_splits)

lemma append_fields_snoc: "append_fields (fs @ [f]) = (if fs = [] then f else append_fields fs @ CHR ''/'' # f)"
proof (induction fs)
  case (Cons x xs)
  then show ?case by (cases xs) (simp_all add: append_fields_Cons)
qed simp

lemma last_split_slash: "last (split_slash s) = ''#'' \<Longrightarrow> s \<noteq> [] \<and> last s = CHR ''#''"
proof -
  assume l: "last (split_slash s) = ''#''"
  have "s = append_fields (butlast (split_slash s) @ [''#''])"
    using append_split_slash [of s] l by (metis append_butlast_last_id split_slash_not_Nil)
  then show ?thesis unfolding append_fields_snoc by (metis append_is_Nil_conv last.simps last_append list.simps(3))
qed

text \<open>A filter's text is kept: what \<open>to_string\<close> gives for a filter is what it was made from, and the
  fields of a topic joined with slashes are the topic.\<close>

lemma filter_text_roundtrip:
  "topic_filter_to_string (make_filter flt) = flt
    \<and> append_fields (topic_split topic) = topic
    \<and> list_all (\<lambda>f. CHR ''/'' \<notin> set f) (topic_split topic)"
  using split_slash_no_slash
  by (auto simp: topic_filter_to_string_def make_filter_def append_topic_split list_all_iff)
    (auto simp: topic_split_eq split: if_splits)

section \<open>Matching\<close>

text \<open>The rules of the standard (section 4.7) for the fields: \<open>+\<close> matches one field, a final \<open>#\<close> any number
  of them, none included; a filter that starts with a wildcard does not match a topic that starts with
  \<open>$\<close>. The standard also wants topics and filters of at least one character (\<open>standard_match\<close>).\<close>

fun field_match :: "string list \<Rightarrow> string list \<Rightarrow> bool" where
  "field_match [] ts \<longleftrightarrow> ts = []"
| "field_match (f # fs) ts \<longleftrightarrow> f = ''#'' \<and> fs = []
     \<or> (case ts of [] \<Rightarrow> False | t # ts' \<Rightarrow> (f = ''+'' \<or> f = t) \<and> field_match fs ts')"

definition starts_dollar :: "string list \<Rightarrow> bool" where
  "starts_dollar ts \<longleftrightarrow> ts \<noteq> [] \<and> hd ts \<noteq> [] \<and> hd (hd ts) = CHR ''$''"

text \<open>On fields. That a topic and a filter have at least one character is in \<open>standard_match\<close>, on strings.\<close>

definition mqtt_match :: "string list \<Rightarrow> string list \<Rightarrow> bool" where
  "mqtt_match fs ts \<longleftrightarrow> field_match fs ts \<and> \<not> (fs \<noteq> [] \<and> is_wildcard (hd fs) \<and> starts_dollar ts)"

definition standard_match :: "string \<Rightarrow> string \<Rightarrow> bool" where
  "standard_match flt topic \<longleftrightarrow> flt \<noteq> [] \<and> topic \<noteq> [] \<and> mqtt_match (topic_split flt) (topic_split topic)"

text \<open>\<open>#\<close> only as the last field.\<close>

definition hash_last :: "string list \<Rightarrow> bool" where
  "hash_last fs \<longleftrightarrow> ''#'' \<notin> set (butlast fs)"

lemma hash_last_Cons: "hash_last (f # fs) \<longleftrightarrow> fs = [] \<or> f \<noteq> ''#'' \<and> hash_last fs"
  by (auto simp: hash_last_def)

lemma field_match_length:
  "field_match fs ts \<Longrightarrow> hash_last fs \<Longrightarrow> fs \<noteq> [] \<Longrightarrow>
    (if last fs = ''#'' then length fs \<le> length ts + 1 else length fs = length ts)"
proof (induction fs ts rule: field_match.induct)
  case (2 f fs ts)
  then show ?case by (cases ts; cases "fs = []") (auto simp: hash_last_Cons split: if_splits)
qed simp

lemma field_match_literal:
  "''+'' \<notin> set fs \<Longrightarrow> ''#'' \<notin> set fs \<Longrightarrow> field_match fs ts \<longleftrightarrow> fs = ts"
  by (induction fs ts rule: field_match.induct) (auto split: list.splits)

definition lengths_fit :: "string list \<Rightarrow> string list \<Rightarrow> bool" where
  "lengths_fit fs ts \<longleftrightarrow>
     (if last fs = ''#'' then length fs \<le> length ts + 1 else length fs = length ts)"

definition suffix_ok :: "string list \<Rightarrow> string list \<Rightarrow> bool" where
  "suffix_ok fs ts \<longleftrightarrow> (if fs = [] then ts = [] else lengths_fit fs ts \<and> hash_last fs)"

lemma suffix_ok_Cons:
  assumes "suffix_ok (f # fs) ts" and "f \<noteq> ''#''"
  obtains t ts' where "ts = t # ts'" and "suffix_ok fs ts'"
proof (cases ts)
  case Nil
  with assms show ?thesis by (auto simp: suffix_ok_def lengths_fit_def split: if_splits)
next
  case (Cons t ts')
  with assms have "suffix_ok fs ts'"
    by (cases "fs = []") (auto simp: suffix_ok_def lengths_fit_def hash_last_Cons split: if_splits)
  with Cons that show ?thesis by blast
qed

lemma match_fields_drop:
  "i \<le> length fs \<Longrightarrow> suffix_ok (drop i fs) (drop i ts)
    \<Longrightarrow> match_fields fs ts i = Inr (field_match (drop i fs) (drop i ts))"
proof (induction fs ts i rule: match_fields.induct)
  case (1 fs ts i)
  note unfold = match_fields.simps [of fs ts i]
  show ?case
  proof (cases "i < length fs")
    case False
    then have "i = length fs" using "1.prems"(1) by simp
    then show ?thesis using "1.prems"(2) by (subst match_fields.simps) (simp add: suffix_ok_def)
  next
    case True
    then have fs: "drop i fs = fs ! i # drop (Suc i) fs" by (simp add: Cons_nth_drop_Suc)
    show ?thesis
    proof (cases "fs ! i = ''#''")
      case hash: True
      have "hash_last (drop i fs)" using "1.prems"(2) fs by (simp add: suffix_ok_def)
      then have "drop (Suc i) fs = []" using hash unfolding fs hash_last_Cons by blast
      then show ?thesis unfolding fs using True hash by (simp add: unfold)
    next
      case False
      obtain t ts' where ts: "drop i ts = t # ts'" and rest: "suffix_ok (drop (Suc i) fs) ts'"
        using suffix_ok_Cons "1.prems"(2) False unfolding fs by metis
      have lt: "i < length ts" using ts by (metis drop_all leI list.distinct(1))
      then have t: "t = ts ! i" "ts' = drop (Suc i) ts" using ts by (simp_all flip: Cons_nth_drop_Suc)
      have IH: "match_fields fs ts (i + 1) = Inr (field_match (drop (Suc i) fs) (drop (Suc i) ts))"
        if "fs ! i = ''+'' \<or> fs ! i = ts ! i"
        using "1.IH" True False lt that rest t by auto
      show ?thesis unfolding fs ts using True False lt IH t by (auto simp: unfold)
    qed
  qed
qed

lemma if_chain: "(if a then x else if b then x else if c then x else y) = (if \<not> (\<not> a \<and> \<not> b) \<or> c then x else y)"
  by simp

lemma topic_filter_matches_fields:
  assumes "fs \<noteq> []" and "hash_last fs"
  shows "topic_filter_matches (Fields fs) topic = Inr (mqtt_match fs (topic_split topic))"
proof -
  let ?ts = "topic_split topic"
  have fit: "lengths_fit fs ?ts \<longleftrightarrow> \<not> (length ?ts < length fs \<and> \<not> (length fs = length ?ts + 1 \<and> last fs = ''#''))
      \<and> \<not> (length fs < length ?ts \<and> last fs \<noteq> ''#'')"
    unfolding lengths_fit_def by auto
  have dollar: "starts_dollar ?ts \<longleftrightarrow> 0 < length ?ts \<and> 0 < length (?ts ! 0) \<and> ?ts ! 0 ! 0 = CHR ''$''"
    by (cases ?ts) (auto simp: starts_dollar_def hd_conv_nth)
  have hd: "hd fs = fs ! 0" using assms(1) by (simp add: hd_conv_nth)
  have code: "topic_filter_matches (Fields fs) topic =
      (if \<not> lengths_fit fs ?ts \<or> is_wildcard (hd fs) \<and> starts_dollar ?ts then Inr False else match_fields fs ?ts 0)"
    unfolding topic_filter_matches_def fit dollar hd Let_def if_chain topic_filter.case using assms(1)
    by (simp only: length_0_conv if_False)
  show ?thesis
  proof (cases "lengths_fit fs ?ts")
    case True
    then have "match_fields fs ?ts 0 = Inr (field_match fs ?ts)"
      using match_fields_drop [of 0 fs ?ts] assms by (simp add: suffix_ok_def)
    with True assms(1) show ?thesis by (simp add: code mqtt_match_def)
  next
    case False
    with field_match_length assms have "\<not> field_match fs ?ts" unfolding lengths_fit_def by blast
    with False show ?thesis by (simp add: code mqtt_match_def)
  qed
qed

lemma plain_filter_fields:
  assumes "\<not> has_wildcards flt" and "hash_last (topic_split flt)"
  shows "''+'' \<notin> set (topic_split flt)" and "''#'' \<notin> set (topic_split flt)"
proof -
  show "''+'' \<notin> set (topic_split flt)"
  proof
    assume "''+'' \<in> set (topic_split flt)"
    then have "set ''+'' \<subseteq> set flt" by (metis split_slash_chars topic_split_eq empty_iff list.set(1))
    then show False using assms(1) by (auto simp: has_wildcards_def split: if_splits)
  qed
  show "''#'' \<notin> set (topic_split flt)"
  proof
    assume hash: "''#'' \<in> set (topic_split flt)"
    then have ne: "flt \<noteq> []" by (auto simp: topic_split_eq)
    then have "topic_split flt = split_slash flt" by (simp add: topic_split_eq)
    with hash assms(2) have "last (split_slash flt) = ''#''"
      by (cases "split_slash flt" rule: rev_cases) (auto simp: hash_last_def)
    from last_split_slash [OF this] show False using assms(1) by (simp add: has_wildcards_def)
  qed
qed

lemma filter_matches_mqtt:
  assumes "hash_last (topic_split flt)"
  shows "topic_filter_matches (make_filter flt) topic = Inr (mqtt_match (topic_split flt) (topic_split topic))"
proof (cases "has_wildcards flt")
  case True
  then have "topic_split flt \<noteq> []" by (auto simp: has_wildcards_def topic_split_eq split: if_splits)
  with True assms show ?thesis by (simp add: make_filter_def topic_filter_matches_fields)
next
  case False
  note lits = plain_filter_fields [OF False assms]
  have "\<not> (topic_split flt \<noteq> [] \<and> is_wildcard (hd (topic_split flt)))"
  proof
    assume h: "topic_split flt \<noteq> [] \<and> is_wildcard (hd (topic_split flt))"
    then have "hd (topic_split flt) \<in> {''+'', ''#''}"
      by (cases "hd (topic_split flt)") (auto simp: is_wildcard_def)
    with h lits show False by (metis hd_in_set insertE singletonD)
  qed
  then show ?thesis
    using False lits field_match_literal [OF lits]
    by (auto simp: make_filter_def topic_filter_matches_def mqtt_match_def topic_split_inj)
qed

lemma empty_filter_no_match: "topic \<noteq> [] \<Longrightarrow> \<not> mqtt_match [] (topic_split topic)"
  by (simp add: mqtt_match_def topic_split_eq)

text \<open>C25: on every topic of at least one character a filter that has \<open>#\<close> as a field only at its end, the
  empty filter included, matches exactly when the standard says so, and the matching never reads
  beyond the topic's fields.\<close>

theorem filter_matches_standard:
  assumes "hash_last (topic_split flt)" and "topic \<noteq> []"
  shows "topic_filter_matches (make_filter flt) topic = Inr (standard_match flt topic)"
  using filter_matches_mqtt [OF assms(1), of topic] empty_filter_no_match [OF assms(2)] assms(2)
  by (cases "flt = []") (simp_all add: standard_match_def topic_split_eq [of "[]"])

text \<open>Without these conditions it does not hold: the empty topic, which the standard rules out, is
  matched by the empty filter and by \<open>#\<close>, although the comment in the code says that an empty filter
  can match nothing; and what follows an inner \<open>#\<close> is ignored.\<close>

lemma empty_topic_is_matched:
  "topic_filter_matches (make_filter []) [] = Inr True \<and> topic_filter_matches (make_filter ''#'') [] = Inr True
    \<and> \<not> standard_match [] [] \<and> \<not> standard_match ''#'' []"
  by (simp add: make_filter_def has_wildcards_def topic_split_eq topic_filter_matches_def standard_match_def
      is_wildcard_def match_fields.simps Let_def)

lemma inner_hash_ignores_rest:
  "topic_filter_matches (make_filter ''#/+'') ''a/b'' = Inr True \<and> \<not> mqtt_match (topic_split ''#/+'') (topic_split ''a/b'')"
  by (simp add: make_filter_def has_wildcards_def topic_split_eq topic_filter_matches_def mqtt_match_def
      is_wildcard_def match_fields.simps Let_def)

theorem filter_matches_standard_witness:
  "topic_filter_matches (make_filter ''a/+/#'') ''a/b'' = Inr True
    \<and> topic_filter_matches (make_filter ''#'') ''$SYS/x'' = Inr False
    \<and> topic_filter_matches (make_filter []) ''a'' = Inr False"
  using filter_matches_standard [of "[]" "''a''"] filter_matches_standard [of "''a/+/#''" "''a/b''"] filter_matches_standard [of "''#''" "''$SYS/x''"]
  by (simp add: topic_split_eq hash_last_def standard_match_def mqtt_match_def is_wildcard_def starts_dollar_def)

end
