(* ===== verification/Topic_Matcher.thy ===== *)
theory Topic_Matcher
  imports Mqtt_Topic Std_Map
begin

text \<open>
  \<open>controller/deps/paho.mqtt.cpp/include/mqtt/topic_matcher.h\<close>: a map from topic filters to values, kept
  as a trie over the fields of the filters, with an iterator over the filters that match a topic. The
  operations are shown to implement a plain map, and the iterator is compared with the matching of
  single filters in \<open>Mqtt_Topic\<close>.
\<close>

section \<open>The trie\<close>

text \<open>\<open>children\<close> is a \<open>std::map\<close>: an association list kept in the order of its keys.\<close>

datatype 'v node =
  Node (node_content: "(string \<times> 'v) option") (node_children: "(string \<times> 'v node) list")

definition create_node :: "'v node" where
  "create_node = Node None []"

definition node_empty :: "'v node \<Rightarrow> bool" where
  "node_empty n \<longleftrightarrow> node_content n = None \<and> node_children n = []"

text \<open>\<open>insert\<close>: existing nodes are entered, missing ones created.\<close>

fun trie_insert :: "string list \<Rightarrow> string \<times> 'v \<Rightarrow> 'v node \<Rightarrow> 'v node" where
  "trie_insert [] val (Node c ch) = Node (Some val) ch"
| "trie_insert (f # fs) val (Node c ch) =
     Node c (map_put f (trie_insert fs val (case map_of ch f of None \<Rightarrow> create_node | Some n \<Rightarrow> n)) ch)"

definition matcher_insert :: "string \<times> 'v \<Rightarrow> 'v node \<Rightarrow> 'v node" where
  "matcher_insert val t = trie_insert (topic_split (fst val)) val t"

text \<open>The walk along the fields of a filter that \<open>find\<close> and \<open>remove\<close> share.\<close>

fun descend :: "string list \<Rightarrow> 'v node \<Rightarrow> 'v node option" where
  "descend [] n = Some n"
| "descend (f # fs) n = (case map_of (node_children n) f of None \<Rightarrow> None | Some c \<Rightarrow> descend fs c)"

definition trie_get :: "string list \<Rightarrow> 'v node \<Rightarrow> (string \<times> 'v) option" where
  "trie_get fs t = (case descend fs t of None \<Rightarrow> None | Some n \<Rightarrow> node_content n)"

definition matcher_find :: "string \<Rightarrow> 'v node \<Rightarrow> (string \<times> 'v) option" where
  "matcher_find flt t = trie_get (topic_split flt) t"

text \<open>\<open>remove\<close> empties the content of the node and leaves the node where it is.\<close>

fun trie_clear :: "string list \<Rightarrow> 'v node \<Rightarrow> 'v node" where
  "trie_clear [] (Node c ch) = Node None ch"
| "trie_clear (f # fs) (Node c ch) =
     (case map_of ch f of None \<Rightarrow> Node c ch | Some n \<Rightarrow> Node c (map_put f (trie_clear fs n) ch))"

definition matcher_remove :: "string \<Rightarrow> 'v node \<Rightarrow> 'v option \<times> 'v node" where
  "matcher_remove flt t =
     (case descend (topic_split flt) t of
        None \<Rightarrow> (None, t)
      | Some n \<Rightarrow> (map_option snd (node_content n), trie_clear (topic_split flt) t))"

lemma child_size: "x \<in> set ch \<Longrightarrow> size (snd x) < size (Node c ch)"
  by (induction ch) (auto simp: prod.size_gen(1) split: prod.splits)

function prune :: "'v node \<Rightarrow> 'v node" where
  "prune (Node c ch) = Node c (filter (\<lambda>x. \<not> node_empty (snd x)) (map (\<lambda>x. (fst x, prune (snd x))) ch))"
  by pat_completeness auto
termination
  by (relation "measure size") (use child_size in auto)

section \<open>The iterators\<close>

text \<open>
  \<open>iterator\<close>: \<open>items_next\<close> pops a node, pushes its children in key order, and goes on until a node has a
  value. The stack's top is the head of the list. \<open>collect\<close> loops like \<open>for (it = begin(); it != end(); ++it)\<close>.
\<close>

lemma children_weight:
  "sum_list (map size (rev (map snd (node_children n)) @ st)) < sum_list (map size (n # st))"
proof (cases n)
  case (Node c ch)
  have "sum_list (map (size \<circ> snd) ch) \<le> size_list (size_prod (\<lambda>_. 0) size) ch"
    by (induction ch) auto
  with Node show ?thesis by (simp add: rev_map [symmetric])
qed

function items_next :: "'v node list \<Rightarrow> (string \<times> 'v) option \<times> 'v node list" where
  "items_next [] = (None, [])"
| "items_next (n # st) =
     (let st' = rev (map snd (node_children n)) @ st in
      case node_content n of Some v \<Rightarrow> (Some v, st') | None \<Rightarrow> items_next st')"
  by pat_completeness auto
termination
  by (relation "measure (\<lambda>st. sum_list (map size st))") (use children_weight in auto)

abbreviation items_weight :: "'v node list \<Rightarrow> nat" where
  "items_weight st \<equiv> sum_list (map size st)"

lemma items_next_weight: "items_next st = (Some v, st') \<Longrightarrow> items_weight st' < items_weight st"
proof (induction st rule: items_next.induct)
  case (2 n st)
  show ?case
  proof (cases "node_content n")
    case None
    with 2 have "items_weight st' < items_weight (rev (map snd (node_children n)) @ st)" by simp
    then show ?thesis using children_weight [of n st] by simp
  next
    case (Some w)
    with 2 show ?thesis using children_weight [of n st] by simp
  qed
qed simp

function items_from :: "'v node list \<Rightarrow> (string \<times> 'v) list" where
  "items_from st = (case items_next st of (None, _) \<Rightarrow> [] | (Some v, st') \<Rightarrow> v # items_from st')"
  by pat_completeness auto
termination
  by (relation "measure items_weight") (auto dest: items_next_weight [OF sym])

declare items_from.simps [simp del]

definition matcher_items :: "'v node \<Rightarrow> (string \<times> 'v) list" where
  "matcher_items t = items_from [t]"

text \<open>
  \<open>match_iterator\<close>: a stack of nodes with the fields still to be matched and whether this is the root.
  \<open>push_child\<close> looks a child up and, when there is one, pushes it for the remaining fields.
\<close>

type_synonym 'v search_node = "'v node \<times> string list \<times> bool"

definition push_child :: "string \<Rightarrow> 'v node \<Rightarrow> string list \<Rightarrow> 'v search_node list \<Rightarrow> 'v search_node list" where
  "push_child k n fs st = (case map_of (node_children n) k of Some c \<Rightarrow> (c, fs, False) # st | None \<Rightarrow> st)"

abbreviation match_weight :: "'v search_node list \<Rightarrow> nat" where
  "match_weight st \<equiv> sum_list (map (\<lambda>(n, fs, first). 3 ^ length fs) st)"

lemma push_weight: "match_weight (push_child k n fs st) \<le> 3 ^ length fs + match_weight st"
  by (simp add: push_child_def split: option.split)

lemma push_weights:
  "match_weight (push_child k n fs st) < 3 * 3 ^ length fs + match_weight st"
  "match_weight (push_child k' n' fs (push_child k n fs st)) < 3 * 3 ^ length fs + match_weight st"
proof -
  have "(0 :: nat) < 3 ^ length fs" by simp
  then show "match_weight (push_child k n fs st) < 3 * 3 ^ length fs + match_weight st"
    using push_weight [of k n fs st] by linarith
  show "match_weight (push_child k' n' fs (push_child k n fs st)) < 3 * 3 ^ length fs + match_weight st"
    using push_weight [of k n fs st] push_weight [of k' n' fs "push_child k n fs st"] \<open>0 < 3 ^ length fs\<close> by linarith
qed

function match_next :: "'v search_node list \<Rightarrow> (string \<times> 'v) option \<times> 'v search_node list" where
  "match_next [] = (None, [])"
| "match_next ((n, [], first) # st) =
     (case node_content n of
        Some v \<Rightarrow> (Some v, st)
      | None \<Rightarrow>
          (case map_of (node_children n) ''#'' of
             Some c \<Rightarrow> (node_content c, st)
           | None \<Rightarrow> match_next st))"
| "match_next ((n, f # fs, first) # st) =
     (let st1 = push_child f n fs st
      in if \<not> first \<or> f = [] \<or> hd f \<noteq> CHR ''$''
         then let st2 = push_child ''+'' n fs st1
              in (case map_of (node_children n) ''#'' of
                    Some c \<Rightarrow> (node_content c, st2)
                  | None \<Rightarrow> match_next st2)
         else match_next st1)"
  by pat_completeness auto
termination
  by (relation "measure match_weight") (use push_weights in auto)

lemma match_next_weight: "match_next st = (Some v, st') \<Longrightarrow> match_weight st' < match_weight st"
proof (induction st rule: match_next.induct)
  case (2 n first st)
  then show ?case by (auto split: option.splits)
next
  case (3 n f fs first st)
  let ?st1 = "push_child f n fs st"
  let ?st2 = "push_child ''+'' n fs ?st1"
  have top: "match_weight ((n, f # fs, first) # st) = 3 * 3 ^ length fs + match_weight st" by simp
  show ?case
  proof (cases "\<not> first \<or> f = [] \<or> hd f \<noteq> CHR ''$''")
    case wild: True
    show ?thesis
    proof (cases "map_of (node_children n) ''#''")
      case None
      with 3 wild have "match_weight st' < match_weight ?st2" by (simp add: Let_def)
      with push_weights(2) [of "''+''" n fs f n st] top show ?thesis by linarith
    next
      case (Some c)
      with 3 wild have "st' = ?st2" by (simp add: Let_def)
      with push_weights(2) [of "''+''" n fs f n st] top show ?thesis by simp
    qed
  next
    case False
    with 3 have "match_weight st' < match_weight ?st1" by (simp add: Let_def)
    with push_weights(1) [of f n fs st] top show ?thesis by linarith
  qed
qed simp

function matches_from :: "'v search_node list \<Rightarrow> (string \<times> 'v) list" where
  "matches_from st = (case match_next st of (None, _) \<Rightarrow> [] | (Some v, st') \<Rightarrow> v # matches_from st')"
  by pat_completeness auto
termination
  by (relation "measure match_weight") (auto dest: match_next_weight [OF sym])

declare matches_from.simps [simp del]

text \<open>The loop over \<open>matches(topic)\<close>, and \<open>has_match\<close>.\<close>

definition matcher_matches :: "'v node \<Rightarrow> string \<Rightarrow> (string \<times> 'v) list" where
  "matcher_matches t topic = matches_from [(t, topic_split topic, True)]"

definition has_match :: "'v node \<Rightarrow> string \<Rightarrow> bool" where
  "has_match t topic \<longleftrightarrow> fst (match_next [(t, topic_split topic, True)]) \<noteq> None"

section \<open>The trie as a map\<close>

lemma trie_get_Nil [simp]: "trie_get [] n = node_content n"
  by (simp add: trie_get_def)

lemma trie_get_Cons [simp]:
  "trie_get (f # fs) n = (case map_of (node_children n) f of None \<Rightarrow> None | Some c \<Rightarrow> trie_get fs c)"
  by (simp add: trie_get_def split: option.split)

lemma trie_get_create [simp]: "trie_get fs create_node = None"
  by (cases fs) (simp_all add: create_node_def)

lemma trie_get_insert [simp]: "trie_get q (trie_insert p val t) = (if q = p then Some val else trie_get q t)"
proof (induction p val t arbitrary: q rule: trie_insert.induct)
  case (1 val c ch)
  then show ?case by (cases q) simp_all
next
  case (2 f fs val c ch)
  then show ?case by (cases q) (auto split: option.splits)
qed

lemma trie_get_clear [simp]: "trie_get q (trie_clear p t) = (if q = p then None else trie_get q t)"
proof (induction p t arbitrary: q rule: trie_clear.induct)
  case (1 c ch)
  then show ?case by (cases q) simp_all
next
  case (2 f fs c ch)
  then show ?case by (cases q) (auto split: option.splits)
qed

text \<open>Well-formed: keys in order, at every node.\<close>

function wf_node :: "'v node \<Rightarrow> bool" where
  "wf_node (Node c ch) \<longleftrightarrow> sorted_wrt (<) (map fst ch) \<and> (\<forall>x \<in> set ch. wf_node (snd x))"
  by pat_completeness auto
termination
  by (relation "measure size") (use child_size in auto)

lemma sorted_distinct: "sorted_wrt (<) (map fst (ch :: (string \<times> 'a) list)) \<Longrightarrow> distinct (map fst ch)"
  by (simp add: strict_sorted_iff)

lemma map_of_prune:
  assumes "distinct (map fst ch)"
  shows "map_of (filter (\<lambda>x. P (snd x)) (map (\<lambda>x. (fst x, g (snd x))) ch)) k
    = (case map_of ch k of Some n \<Rightarrow> if P (g n) then Some (g n) else None | None \<Rightarrow> None)"
  using assms by (induction ch) (auto split: option.splits dest: map_of_SomeD simp: image_iff)

lemma trie_get_prune [simp]: "wf_node t \<Longrightarrow> trie_get q (prune t) = trie_get q t"
proof (induction t arbitrary: q rule: prune.induct)
  case (1 c ch)
  have "distinct (map fst ch)" using 1 by (simp add: sorted_distinct)
  note kept = map_of_prune [OF this, of "\<lambda>n. \<not> node_empty n" prune]
  show ?case
  proof (cases q)
    case (Cons f fs)
    show ?thesis
    proof (cases "map_of ch f")
      case None
      then show ?thesis using Cons by (simp add: kept)
    next
      case (Some n)
      then have "(f, n) \<in> set ch" by (rule map_of_SomeD)
      then have "trie_get fs (prune n) = trie_get fs n"
        using "1.IH" [of "(f, n)"] "1.prems" by fastforce
      moreover have "node_empty (prune n) \<Longrightarrow> trie_get fs (prune n) = None"
        by (cases fs) (simp_all add: node_empty_def)
      ultimately show ?thesis using Cons Some by (auto simp: kept)
    qed
  qed simp
qed

lemma wf_create [simp]: "wf_node create_node"
  by (simp add: create_node_def)

lemma wf_child: "wf_node n \<Longrightarrow> map_of (node_children n) k = Some c \<Longrightarrow> wf_node c"
  by (cases n) (fastforce dest: map_of_SomeD)

lemma wf_insert [simp]: "wf_node t \<Longrightarrow> wf_node (trie_insert p val t)"
proof (induction p val t rule: trie_insert.induct)
  case (2 f fs val c ch)
  have "wf_node (case map_of ch f of None \<Rightarrow> create_node | Some n \<Rightarrow> n)"
    using "2.prems" wf_child [of "Node c ch" f] by (simp split: option.split)
  with 2 show ?case by (auto simp: sorted_map_put dest: set_map_put)
qed simp

lemma wf_clear [simp]: "wf_node t \<Longrightarrow> wf_node (trie_clear p t)"
proof (induction p t rule: trie_clear.induct)
  case (2 f fs c ch)
  then show ?case using wf_child [of "Node c ch" f]
    by (auto simp: sorted_map_put dest: set_map_put split: option.splits)
qed simp

lemma wf_prune [simp]: "wf_node t \<Longrightarrow> wf_node (prune t)"
proof (induction t rule: prune.induct)
  case (1 c ch)
  have "sorted_wrt (<) (map fst (filter P (map (\<lambda>x. (fst x, prune (snd x))) ch)))" for P
    using "1.prems" by (induction ch) auto
  with 1 show ?case by auto
qed

section \<open>What the match iterator finds\<close>

text \<open>The values a stack entry stands for, as the code goes about it.\<close>

definition hash_value :: "'v node \<Rightarrow> (string \<times> 'v) option" where
  "hash_value n = (case map_of (node_children n) ''#'' of Some c \<Rightarrow> node_content c | None \<Rightarrow> None)"

fun node_matches :: "'v node \<Rightarrow> string list \<Rightarrow> bool \<Rightarrow> (string \<times> 'v) set" where
  "node_matches n [] first =
     (case node_content n of Some v \<Rightarrow> {v} | None \<Rightarrow> set_option (hash_value n))"
| "node_matches n (f # fs) first =
     (case map_of (node_children n) f of Some c \<Rightarrow> node_matches c fs False | None \<Rightarrow> {})
     \<union> (if \<not> first \<or> f = [] \<or> hd f \<noteq> CHR ''$''
        then (case map_of (node_children n) ''+'' of Some c \<Rightarrow> node_matches c fs False | None \<Rightarrow> {})
             \<union> set_option (hash_value n)
        else {})"

definition stack_matches :: "'v search_node list \<Rightarrow> (string \<times> 'v) set" where
  "stack_matches st = (\<Union>(n, fs, first) \<in> set st. node_matches n fs first)"

lemma stack_matches_Nil [simp]: "stack_matches [] = {}"
  by (simp add: stack_matches_def)

lemma stack_matches_Cons [simp]: "stack_matches ((n, fs, first) # st) = node_matches n fs first \<union> stack_matches st"
  by (simp add: stack_matches_def)

lemma stack_matches_push [simp]:
  "stack_matches (push_child k n fs st)
    = (case map_of (node_children n) k of Some c \<Rightarrow> node_matches c fs False | None \<Rightarrow> {}) \<union> stack_matches st"
  by (simp add: push_child_def split: option.split)

text \<open>Live: every \<open>#\<close> node has a value. It is what the early \<open>return\<close> of \<open>next\<close> relies on.\<close>

function live_node :: "'v node \<Rightarrow> bool" where
  "live_node (Node c ch) \<longleftrightarrow> (\<forall>x \<in> set ch. live_node (snd x))
     \<and> (case map_of ch ''#'' of Some n \<Rightarrow> node_content n \<noteq> None | None \<Rightarrow> True)"
  by pat_completeness auto
termination
  by (relation "measure size") (use child_size in auto)

lemma live_child: "live_node n \<Longrightarrow> map_of (node_children n) k = Some c \<Longrightarrow> live_node c"
  by (cases n) (fastforce dest: map_of_SomeD)

lemma live_hash: "live_node n \<Longrightarrow> map_of (node_children n) ''#'' = Some c \<Longrightarrow> \<exists>v. node_content c = Some v"
  by (cases n) auto

definition live_stack :: "'v search_node list \<Rightarrow> bool" where
  "live_stack st \<longleftrightarrow> (\<forall>(n, fs, first) \<in> set st. live_node n)"

lemma live_stack_Cons [simp]: "live_stack ((n, fs, first) # st) \<longleftrightarrow> live_node n \<and> live_stack st"
  by (simp add: live_stack_def)

lemma live_push: "live_node n \<Longrightarrow> live_stack st \<Longrightarrow> live_stack (push_child k n fs st)"
  by (auto simp: push_child_def dest: live_child split: option.split)

lemma match_next_live:
  "live_stack st \<Longrightarrow> match_next st = (r, st') \<Longrightarrow>
    live_stack st' \<and> stack_matches st = set_option r \<union> stack_matches st' \<and> (r = None \<longrightarrow> stack_matches st = {})"
proof (induction st rule: match_next.induct)
  case (2 n first st)
  then show ?case
    by (auto simp: hash_value_def dest: live_hash split: option.splits)
next
  case (3 n f fs first st)
  let ?st1 = "push_child f n fs st"
  let ?st2 = "push_child ''+'' n fs ?st1"
  have live: "live_node n" "live_stack ?st1" "live_stack ?st2" using "3.prems"(1) by (simp_all add: live_push)
  show ?case
  proof (cases "\<not> first \<or> f = [] \<or> hd f \<noteq> CHR ''$''")
    case wild: True
    show ?thesis
    proof (cases "map_of (node_children n) ''#''")
      case None
      with "3.IH"(1) wild live "3.prems" have "live_stack st' \<and> stack_matches ?st2 = set_option r \<union> stack_matches st'
          \<and> (r = None \<longrightarrow> stack_matches ?st2 = {})" by (simp add: Let_def)
      with wild None show ?thesis by (auto simp: hash_value_def split: option.splits)
    next
      case (Some c)
      with live_hash [OF live(1)] obtain v where "node_content c = Some v" by blast
      with wild Some live "3.prems" show ?thesis by (auto simp: Let_def hash_value_def split: option.splits)
    qed
  next
    case False
    with "3.IH"(2) live "3.prems" have "live_stack st' \<and> stack_matches ?st1 = set_option r \<union> stack_matches st'
        \<and> (r = None \<longrightarrow> stack_matches ?st1 = {})" by (simp add: Let_def)
    with False show ?thesis by (auto split: option.splits)
  qed
qed simp

lemma matches_from_live: "live_stack st \<Longrightarrow> set (matches_from st) = stack_matches st"
proof (induction st rule: matches_from.induct)
  case (1 st)
  obtain r st' where next_eq: "match_next st = (r, st')" by fastforce
  note spec = match_next_live [OF "1.prems" next_eq]
  show ?case
  proof (cases r)
    case None
    then have "stack_matches st = {}" using spec by blast
    with None show ?thesis using next_eq by (subst matches_from.simps) simp
  next
    case (Some v)
    then show ?thesis using next_eq spec "1.IH" [of r st' v] by (subst matches_from.simps) auto
  qed
qed

text \<open>Without liveness nothing wrong is found, but the search may stop early.\<close>

lemma match_next_sound:
  "match_next st = (r, st') \<Longrightarrow> set_option r \<union> stack_matches st' \<subseteq> stack_matches st"
proof (induction st rule: match_next.induct)
  case (2 n first st)
  then show ?case by (auto simp: hash_value_def split: option.splits)
next
  case (3 n f fs first st)
  let ?st1 = "push_child f n fs st"
  let ?st2 = "push_child ''+'' n fs ?st1"
  show ?case
  proof (cases "\<not> first \<or> f = [] \<or> hd f \<noteq> CHR ''$''")
    case wild: True
    then have top: "stack_matches ((n, f # fs, first) # st) = set_option (hash_value n) \<union> stack_matches ?st2" by auto
    show ?thesis
    proof (cases "map_of (node_children n) ''#''")
      case None
      then have "set_option r \<union> stack_matches st' \<subseteq> stack_matches ?st2"
        using "3.IH"(1) wild "3.prems" by (simp add: Let_def)
      with top show ?thesis by blast
    next
      case (Some c)
      have "(node_content c, ?st2) = (r, st')" using wild Some "3.prems" by (simp add: Let_def)
      then have "r = hash_value n" "st' = ?st2" using Some by (simp_all add: hash_value_def)
      then show ?thesis unfolding top by simp
    qed
  next
    case False
    then have "set_option r \<union> stack_matches st' \<subseteq> stack_matches ?st1"
      using "3.IH"(2) "3.prems" by (simp add: Let_def)
    moreover have "stack_matches ((n, f # fs, first) # st) = stack_matches ?st1" using False by auto
    ultimately show ?thesis by blast
  qed
qed simp

lemma matches_from_sound: "set (matches_from st) \<subseteq> stack_matches st"
proof (induction st rule: matches_from.induct)
  case (1 st)
  obtain r st' where next_eq: "match_next st = (r, st')" by fastforce
  note sound = match_next_sound [OF next_eq]
  show ?case
  proof (cases r)
    case None
    then show ?thesis using next_eq by (subst matches_from.simps) simp
  next
    case (Some v)
    then have "set (matches_from st') \<subseteq> stack_matches st'" using "1.IH" [of r st' v] next_eq by simp
    with Some sound next_eq show ?thesis by (subst matches_from.simps) auto
  qed
qed

text \<open>
  In terms of filters: \<open>node_matches\<close> are the values at the paths that match, except those that end in a
  \<open>#\<close> standing for no field at all when there is a value right above the \<open>#\<close>.
\<close>

definition shadowed :: "(string list \<Rightarrow> bool) \<Rightarrow> string list \<Rightarrow> nat \<Rightarrow> bool" where
  "shadowed stored p k \<longleftrightarrow> (\<exists>q. p = q @ [''#''] \<and> length q = k \<and> stored q)"

definition path_match :: "bool \<Rightarrow> string list \<Rightarrow> string list \<Rightarrow> bool" where
  "path_match first p ts \<longleftrightarrow> field_match p ts \<and> \<not> (first \<and> p \<noteq> [] \<and> is_wildcard (hd p) \<and> starts_dollar ts)"

lemma path_match_root: "path_match True p ts \<longleftrightarrow> mqtt_match p ts"
  by (simp add: path_match_def mqtt_match_def)

lemma shadowed_Nil: "shadowed P p 0 \<longleftrightarrow> p = [''#''] \<and> P []"
  by (auto simp: shadowed_def)

lemma shadowed_Cons: "shadowed P (g # p) (Suc k) \<longleftrightarrow> shadowed (\<lambda>q. P (g # q)) p k"
proof
  assume "shadowed P (g # p) (Suc k)"
  then obtain q where "g # p = q @ [''#'']" "length q = Suc k" "P q" by (auto simp: shadowed_def)
  then show "shadowed (\<lambda>q. P (g # q)) p k" by (cases q) (auto simp: shadowed_def)
next
  assume "shadowed (\<lambda>q. P (g # q)) p k"
  then obtain q where "p = q @ [''#'']" "length q = k" "P (g # q)" by (auto simp: shadowed_def)
  then show "shadowed P (g # p) (Suc k)" unfolding shadowed_def by (intro exI [of _ "g # q"]) simp
qed

lemma is_wildcard_iff: "is_wildcard s \<longleftrightarrow> s = ''+'' \<or> s = ''#''"
  by (cases s) (auto simp: is_wildcard_def)

lemma node_matches_paths:
  "v \<in> node_matches n ts first \<longleftrightarrow>
     (\<exists>p. trie_get p n = Some v \<and> path_match first p ts
        \<and> \<not> shadowed (\<lambda>q. trie_get q n \<noteq> None) p (length ts))"
proof (induction ts arbitrary: n first)
  case Nil
  have fm: "path_match first p [] \<longleftrightarrow> p = [] \<or> p = [''#'']" for p
    by (cases p) (auto simp: path_match_def starts_dollar_def)
  have hash: "trie_get [''#''] n = hash_value n"
    by (simp add: hash_value_def split: option.split)
  show ?case
  proof (cases "node_content n")
    case None
    then have "v \<in> node_matches n [] first \<longleftrightarrow> hash_value n = Some v" by simp
    moreover have "(\<exists>p. trie_get p n = Some v \<and> (p = [] \<or> p = [''#'']) \<and> \<not> (p = [''#''] \<and> trie_get [] n \<noteq> None))
        \<longleftrightarrow> hash_value n = Some v"
      using None hash by (metis option.distinct(1) trie_get_Nil)
    ultimately show ?thesis by (simp only: fm shadowed_Nil list.size)
  next
    case (Some w)
    then have "v \<in> node_matches n [] first \<longleftrightarrow> v = w" by simp
    moreover have "(\<exists>p. trie_get p n = Some v \<and> (p = [] \<or> p = [''#'']) \<and> \<not> (p = [''#''] \<and> trie_get [] n \<noteq> None))
        \<longleftrightarrow> v = w"
      using Some by (metis list.distinct(1) option.distinct(1) option.inject trie_get_Nil)
    ultimately show ?thesis by (simp only: fm shadowed_Nil list.size)
  qed
next
  case (Cons f ts)
  let ?wild = "\<not> first \<or> f = [] \<or> hd f \<noteq> CHR ''$''"
  let ?sh = "\<lambda>p. shadowed (\<lambda>q. trie_get q n \<noteq> None) p (Suc (length ts))"
  let ?P = "\<lambda>p. trie_get p n = Some v \<and> path_match first p (f # ts) \<and> \<not> ?sh p"
  let ?below = "\<lambda>k. \<exists>c. map_of (node_children n) k = Some c \<and> v \<in> node_matches c ts False"
  have below: "?below g \<longleftrightarrow> (\<exists>p. trie_get (g # p) n = Some v \<and> field_match p ts \<and> \<not> ?sh (g # p))" for g
    using Cons.IH [of _ False] by (cases "map_of (node_children n) g") (auto simp: shadowed_Cons path_match_def)
  have pm: "path_match first (g # p) (f # ts) \<longleftrightarrow>
      (g = ''#'' \<and> p = [] \<or> (g = ''+'' \<or> g = f) \<and> field_match p ts) \<and> \<not> (is_wildcard g \<and> \<not> ?wild)" for g p
    by (auto simp: path_match_def starts_dollar_def)
  have code: "v \<in> node_matches n (f # ts) first \<longleftrightarrow> ?below f \<or> ?wild \<and> (?below ''+'' \<or> hash_value n = Some v)"
    by (auto split: option.splits)
  have hash: "trie_get [''#''] n = hash_value n" "\<not> ?sh [''#'']"
    by (auto simp: hash_value_def shadowed_def split: option.split)
  have plain: "\<not> ?wild \<Longrightarrow> \<not> is_wildcard f" by (auto simp: is_wildcard_iff)
  have wc: "is_wildcard ''+''" "is_wildcard ''#''" by (simp_all add: is_wildcard_def)
  show ?case
  proof
    assume "v \<in> node_matches n (f # ts) first"
    then consider p where "trie_get (f # p) n = Some v" "field_match p ts" "\<not> ?sh (f # p)"
      | p where ?wild "trie_get (''+'' # p) n = Some v" "field_match p ts" "\<not> ?sh (''+'' # p)"
      | ?wild "hash_value n = Some v"
      unfolding code below by blast
    then have "\<exists>g p. ?P (g # p)"
    proof cases
      case (1 p)
      then have "?P (f # p)" using plain by (simp only: pm) blast
      then show ?thesis by blast
    next
      case (2 p)
      then have "?P (''+'' # p)" by (simp only: pm) blast
      then show ?thesis by blast
    next
      case 3
      then have "?P [''#'']" using hash by (simp only: pm) blast
      then show ?thesis by blast
    qed
    then show "\<exists>p. trie_get p n = Some v \<and> path_match first p (f # ts)
        \<and> \<not> shadowed (\<lambda>q. trie_get q n \<noteq> None) p (length (f # ts))" unfolding length_Cons by blast
  next
    assume "\<exists>p. trie_get p n = Some v \<and> path_match first p (f # ts)
        \<and> \<not> shadowed (\<lambda>q. trie_get q n \<noteq> None) p (length (f # ts))"
    then obtain p where p: "?P p" by auto
    then obtain g p' where g: "p = g # p'" by (cases p) (auto simp: path_match_def)
    from p have "?wild \<or> \<not> is_wildcard g" unfolding g pm by blast
    moreover from p have "g = ''#'' \<and> p' = [] \<or> (g = ''+'' \<or> g = f) \<and> ?below g"
      unfolding g pm below by blast
    ultimately show "v \<in> node_matches n (f # ts) first"
      unfolding code using wc p g hash by auto
  qed
qed

section \<open>Sequences of operations\<close>

datatype 'v matcher_op = Insert string 'v | Remove string | Prune

fun apply_op :: "'v matcher_op \<Rightarrow> 'v node \<Rightarrow> 'v node" where
  "apply_op (Insert flt v) t = matcher_insert (flt, v) t"
| "apply_op (Remove flt) t = snd (matcher_remove flt t)"
| "apply_op Prune t = prune t"

definition run_ops :: "'v matcher_op list \<Rightarrow> 'v node" where
  "run_ops ops = fold apply_op ops create_node"

text \<open>What they mean: a map from filters to values.\<close>

fun map_op :: "'v matcher_op \<Rightarrow> (string \<rightharpoonup> 'v) \<Rightarrow> (string \<rightharpoonup> 'v)" where
  "map_op (Insert flt v) m = m(flt \<mapsto> v)"
| "map_op (Remove flt) m = m(flt := None)"
| "map_op Prune m = m"

definition map_ops :: "'v matcher_op list \<Rightarrow> (string \<rightharpoonup> 'v)" where
  "map_ops ops = fold map_op ops Map.empty"

definition represents :: "'v node \<Rightarrow> (string \<rightharpoonup> 'v) \<Rightarrow> bool" where
  "represents t m \<longleftrightarrow> wf_node t
     \<and> (\<forall>p v. trie_get p t = Some v \<longleftrightarrow> (\<exists>flt w. v = (flt, w) \<and> p = topic_split flt \<and> m flt = Some w))"

lemma represents_get:
  "represents t m \<Longrightarrow> trie_get (topic_split flt) t = map_option (Pair flt) (m flt)"
proof -
  assume "represents t m"
  then have "trie_get (topic_split flt) t = Some v
      \<longleftrightarrow> (\<exists>flt' w. v = (flt', w) \<and> topic_split flt = topic_split flt' \<and> m flt' = Some w)" for v
    unfolding represents_def by blast
  then have get: "trie_get (topic_split flt) t = Some v \<longleftrightarrow> (\<exists>w. v = (flt, w) \<and> m flt = Some w)" for v
    unfolding topic_split_inj by blast
  show ?thesis
  proof (cases "m flt")
    case None
    with get have "trie_get (topic_split flt) t = None" by (metis option.distinct(1) option.exhaust)
    with None show ?thesis by (simp only: option.map)
  next
    case (Some w)
    with get [of "(flt, w)"] have "trie_get (topic_split flt) t = Some (flt, w)" by blast
    with Some show ?thesis by (simp only: option.map)
  qed
qed

lemma represents_create: "represents create_node Map.empty"
  by (simp add: represents_def)

lemma represents_insert: "represents t m \<Longrightarrow> represents (matcher_insert (flt, v) t) (m(flt \<mapsto> v))"
  by (auto simp: represents_def matcher_insert_def topic_split_inj split: if_splits)

lemma remove_clears: "snd (matcher_remove flt t) = t \<and> trie_get (topic_split flt) t = None
    \<or> snd (matcher_remove flt t) = trie_clear (topic_split flt) t"
  by (auto simp: matcher_remove_def trie_get_def split: option.split)

lemma represents_remove:
  assumes "represents t m"
  shows "represents (snd (matcher_remove flt t)) (m(flt := None)) \<and> fst (matcher_remove flt t) = m flt"
proof
  have "m flt = None" if "trie_get (topic_split flt) t = None"
    using that represents_get [OF assms, of flt] by simp
  then show "represents (snd (matcher_remove flt t)) (m(flt := None))"
    using remove_clears [of flt t] assms
    by (elim disjE conjE) (auto simp: represents_def topic_split_inj)
  show "fst (matcher_remove flt t) = m flt"
    using represents_get [OF assms, of flt]
    by (cases "m flt") (auto simp: matcher_remove_def trie_get_def split: option.splits)
qed

lemma represents_op: "represents t m \<Longrightarrow> represents (apply_op op t) (map_op op m)"
  by (cases op) (auto intro: represents_insert simp: represents_remove, simp add: represents_def)

lemma run_ops_represents: "represents (run_ops ops) (map_ops ops)"
  unfolding run_ops_def map_ops_def
  by (induction ops rule: rev_induct) (simp_all add: represents_create represents_op)

section \<open>Matching a collection\<close>

text \<open>Filters with \<open>#\<close> only at the end make \<open>#\<close> nodes leaves.\<close>

function hash_leaf :: "'v node \<Rightarrow> bool" where
  "hash_leaf (Node c ch) \<longleftrightarrow> (\<forall>x \<in> set ch. hash_leaf (snd x))
     \<and> (case map_of ch ''#'' of Some n \<Rightarrow> node_children n = [] | None \<Rightarrow> True)"
  by pat_completeness auto
termination
  by (relation "measure size") (use child_size in auto)

lemma hash_leaf_create [simp]: "hash_leaf create_node" and live_create [simp]: "live_node create_node"
  by (simp_all add: create_node_def)

lemma hash_leaf_child: "hash_leaf n \<Longrightarrow> map_of (node_children n) k = Some c \<Longrightarrow> hash_leaf c"
  by (cases n) (fastforce dest: map_of_SomeD)

lemma hash_leaf_insert: "hash_leaf t \<Longrightarrow> hash_last p \<Longrightarrow> hash_leaf (trie_insert p val t)"
proof (induction p val t rule: trie_insert.induct)
  case (2 f fs val c ch)
  let ?old = "case map_of ch f of None \<Rightarrow> create_node | Some n \<Rightarrow> n"
  have "hash_leaf ?old" using "2.prems"(1) hash_leaf_child [of "Node c ch" f] by (simp split: option.split)
  with 2 have new: "hash_leaf (trie_insert fs val ?old)" by (cases fs; cases ?old) (auto simp: hash_last_Cons hash_last_def)
  have "node_children (trie_insert fs val ?old) = []" if "f = ''#''"
  proof -
    have "fs = []" using "2.prems"(2) that by (simp add: hash_last_Cons)
    moreover have "node_children ?old = []" using "2.prems"(1) that by (simp add: create_node_def split: option.splits)
    ultimately show ?thesis by (cases ?old) simp
  qed
  with new "2.prems"(1) show ?case by (auto dest: set_map_put)
qed simp

lemma live_insert: "live_node t \<Longrightarrow> hash_last p \<Longrightarrow> live_node (trie_insert p val t)"
proof (induction p val t rule: trie_insert.induct)
  case (2 f fs val c ch)
  let ?old = "case map_of ch f of None \<Rightarrow> create_node | Some n \<Rightarrow> n"
  have "live_node ?old" using "2.prems"(1) live_child [of "Node c ch" f] by (simp split: option.split)
  with 2 have new: "live_node (trie_insert fs val ?old)" by (cases fs; cases ?old) (auto simp: hash_last_Cons hash_last_def)
  have "node_content (trie_insert fs val ?old) \<noteq> None" if "f = ''#''"
    using "2.prems"(2) that by (cases ?old) (simp add: hash_last_Cons)
  with new "2.prems"(1) show ?case by (auto dest: set_map_put)
qed simp

lemma hash_leaf_clear: "hash_leaf t \<Longrightarrow> hash_leaf (trie_clear p t)"
proof (induction p t rule: trie_clear.induct)
  case (2 f fs c ch)
  have leaf: "node_children n = [] \<Longrightarrow> node_children (trie_clear fs n) = []" for n :: "'a node"
    by (cases n; cases fs) auto
  show ?case
  proof (cases "map_of ch f")
    case (Some n)
    then have "hash_leaf (trie_clear fs n)" using 2 hash_leaf_child [of "Node c ch" f n] by simp
    with Some "2.prems" leaf show ?thesis by (auto dest: set_map_put)
  qed (use "2.prems" in simp)
qed simp

lemma hash_leaf_live_prune: "wf_node t \<Longrightarrow> hash_leaf t \<Longrightarrow> hash_leaf (prune t) \<and> live_node (prune t)"
proof (induction t rule: prune.induct)
  case (1 c ch)
  have "distinct (map fst ch)" using 1 by (simp add: sorted_distinct)
  note kept = map_of_prune [OF this, of "\<lambda>n. \<not> node_empty n" prune]
  have leaf: "node_children (prune n) = []" if "map_of ch ''#'' = Some n" for n
    using "1.prems"(2) that by (cases n) simp
  have all: "hash_leaf (prune (snd x)) \<and> live_node (prune (snd x))" if "x \<in> set ch" for x
    using "1.IH" [OF that] "1.prems" that by simp
  have hash: "map_of (node_children (prune (Node c ch))) ''#'' =
      (case map_of ch ''#'' of Some n \<Rightarrow> if \<not> node_empty (prune n) then Some (prune n) else None | None \<Rightarrow> None)"
    by (simp only: prune.simps node.sel kept)
  have "case map_of (node_children (prune (Node c ch))) ''#'' of None \<Rightarrow> True
      | Some n \<Rightarrow> node_children n = [] \<and> node_content n \<noteq> None"
    unfolding hash using leaf by (auto simp: node_empty_def split: option.split)
  moreover have "\<forall>x \<in> set (node_children (prune (Node c ch))). hash_leaf (snd x) \<and> live_node (snd x)"
    using all by auto
  ultimately show ?case
    by (cases "prune (Node c ch)") (auto simp del: prune.simps split: option.splits)
qed

fun valid_op :: "'v matcher_op \<Rightarrow> bool" where
  "valid_op (Insert flt v) \<longleftrightarrow> hash_last (topic_split flt)"
| "valid_op (Remove flt) \<longleftrightarrow> True"
| "valid_op Prune \<longleftrightarrow> True"

text \<open>No removal since the last pruning; the operations are listed newest first.\<close>

fun settled_rev :: "'v matcher_op list \<Rightarrow> bool" where
  "settled_rev [] \<longleftrightarrow> True"
| "settled_rev (Prune # ops) \<longleftrightarrow> True"
| "settled_rev (Remove flt # ops) \<longleftrightarrow> False"
| "settled_rev (Insert flt v # ops) \<longleftrightarrow> settled_rev ops"

definition settled :: "'v matcher_op list \<Rightarrow> bool" where
  "settled ops \<longleftrightarrow> settled_rev (rev ops)"

lemma run_ops_snoc: "run_ops (ops @ [op]) = apply_op op (run_ops ops)"
  by (simp add: run_ops_def)

lemma run_ops_hash_leaf: "list_all valid_op ops \<Longrightarrow> hash_leaf (run_ops ops)"
proof (induction ops rule: rev_induct)
  case (snoc op ops)
  have "wf_node (run_ops ops)" using run_ops_represents [of ops] by (simp add: represents_def)
  with snoc show ?case
    using remove_clears [of _ "run_ops ops"]
    by (cases op) (auto simp: run_ops_snoc matcher_insert_def hash_leaf_insert hash_leaf_live_prune, metis hash_leaf_clear)
qed (simp add: run_ops_def)

lemma run_ops_live: "list_all valid_op ops \<Longrightarrow> settled ops \<Longrightarrow> live_node (run_ops ops)"
proof (induction ops rule: rev_induct)
  case (snoc op ops)
  have "wf_node (run_ops ops)" using run_ops_represents [of ops] by (simp add: represents_def)
  moreover have "hash_leaf (run_ops ops)" using run_ops_hash_leaf [of ops] snoc.prems by simp
  ultimately show ?case
    using snoc by (cases op) (auto simp: run_ops_snoc matcher_insert_def live_insert hash_leaf_live_prune settled_def)
qed (simp add: run_ops_def)

text \<open>
  A filter that ends in \<open>#\<close> is hidden from a topic when its \<open>#\<close> stands for no field and the filter
  without it, or one of the same length that differs in wildcards at the same place, is there too.
\<close>

definition hidden :: "(string \<rightharpoonup> 'v) \<Rightarrow> string \<Rightarrow> string \<Rightarrow> bool" where
  "hidden m flt topic \<longleftrightarrow> (\<exists>parent. m parent \<noteq> None \<and> topic_split flt = topic_split parent @ [''#'']
     \<and> length (topic_split parent) = length (topic_split topic))"

lemma root_matches:
  assumes "represents t m"
  shows "stack_matches [(t, topic_split topic, True)]
    = {(flt, v). m flt = Some v \<and> mqtt_match (topic_split flt) (topic_split topic) \<and> \<not> hidden m flt topic}"
proof -
  have stored: "trie_get q t \<noteq> None \<longleftrightarrow> (\<exists>parent. q = topic_split parent \<and> m parent \<noteq> None)" for q
    using assms unfolding represents_def by (metis not_None_eq prod.exhaust)
  have paths: "trie_get p t = Some v \<longleftrightarrow> (\<exists>flt w. v = (flt, w) \<and> p = topic_split flt \<and> m flt = Some w)" for p v
    using assms unfolding represents_def by blast
  have sh: "shadowed (\<lambda>q. trie_get q t \<noteq> None) (topic_split flt) (length (topic_split topic)) \<longleftrightarrow> hidden m flt topic" for flt
    unfolding stored shadowed_def hidden_def by blast
  have "v \<in> stack_matches [(t, topic_split topic, True)] \<longleftrightarrow>
      (\<exists>flt w. v = (flt, w) \<and> m flt = Some w \<and> mqtt_match (topic_split flt) (topic_split topic) \<and> \<not> hidden m flt topic)" for v
  proof -
    have "v \<in> stack_matches [(t, topic_split topic, True)] \<longleftrightarrow> v \<in> node_matches t (topic_split topic) True" by simp
    also have "\<dots> \<longleftrightarrow> (\<exists>flt w. v = (flt, w) \<and> m flt = Some w \<and> path_match True (topic_split flt) (topic_split topic)
        \<and> \<not> hidden m flt topic)"
      unfolding node_matches_paths paths sh [symmetric] by blast
    finally show ?thesis unfolding path_match_root .
  qed
  then show ?thesis by auto
qed

lemma valid_stored: "list_all valid_op ops \<Longrightarrow> map_ops ops flt = Some v \<Longrightarrow> hash_last (topic_split flt)"
  unfolding map_ops_def
proof (induction ops rule: rev_induct)
  case (snoc op ops)
  then show ?case by (cases op) (auto split: if_splits)
qed simp

text \<open>
  A topic without wildcard fields, as a publisher must use, meets every node at most once: the entries
  on the search stack stand for disjoint sets of values (\<open>apart\<close>), since a value sits at one path only.
\<close>

definition one_path :: "'v node \<Rightarrow> bool" where
  "one_path n \<longleftrightarrow> (\<forall>p q v. trie_get p n = Some v \<longrightarrow> trie_get q n = Some v \<longrightarrow> p = q)"

definition plain_fields :: "string list \<Rightarrow> bool" where
  "plain_fields fs \<longleftrightarrow> ''+'' \<notin> set fs \<and> ''#'' \<notin> set fs"

lemma plain_fields_Cons: "plain_fields (f # fs) \<longleftrightarrow> f \<noteq> ''+'' \<and> f \<noteq> ''#'' \<and> plain_fields fs"
  by (auto simp: plain_fields_def)

fun apart :: "'v search_node list \<Rightarrow> bool" where
  "apart [] \<longleftrightarrow> True"
| "apart ((n, fs, first) # st) \<longleftrightarrow>
     one_path n \<and> plain_fields fs \<and> node_matches n fs first \<inter> stack_matches st = {} \<and> apart st"

lemma one_path_child: "one_path n \<Longrightarrow> map_of (node_children n) k = Some c \<Longrightarrow> one_path c"
proof -
  assume one: "one_path n" and c: "map_of (node_children n) k = Some c"
  have "p = q" if "trie_get p c = Some v" "trie_get q c = Some v" for p q v
  proof -
    have "trie_get (k # p) n = Some v" "trie_get (k # q) n = Some v" using c that by simp_all
    with one have "k # p = k # q" unfolding one_path_def by blast
    then show ?thesis by simp
  qed
  then show "one_path c" unfolding one_path_def by blast
qed

lemma child_path: "map_of (node_children n) k = Some c \<Longrightarrow> v \<in> node_matches c fs first \<Longrightarrow> \<exists>p. trie_get (k # p) n = Some v"
  unfolding node_matches_paths by auto

lemma hash_path: "hash_value n = Some v \<Longrightarrow> trie_get [''#''] n = Some v"
  by (auto simp: hash_value_def split: option.splits)

lemma one_path_key: "one_path n \<Longrightarrow> trie_get (j # p) n = Some v \<Longrightarrow> trie_get (k # q) n = Some v \<Longrightarrow> j = k"
  unfolding one_path_def by blast

lemma apart_push:
  assumes "one_path n" and "plain_fields fs" and "apart st"
    and "\<And>c v. map_of (node_children n) k = Some c \<Longrightarrow> v \<in> node_matches c fs False \<Longrightarrow> v \<notin> stack_matches st"
  shows "apart (push_child k n fs st)"
  using assms one_path_child [OF assms(1)] by (auto simp: push_child_def split: option.split)

lemma apart_step:
  assumes "apart ((n, f # fs, first) # st)" and wild: "\<not> first \<or> f = [] \<or> hd f \<noteq> CHR ''$''"
  shows "apart (push_child ''+'' n fs (push_child f n fs st))
    \<and> (\<forall>v. hash_value n = Some v \<longrightarrow> v \<notin> stack_matches (push_child ''+'' n fs (push_child f n fs st)))"
proof -
  from assms(1) have one: "one_path n" and plain: "f \<noteq> ''+''" "f \<noteq> ''#''" "plain_fields fs"
    and away: "node_matches n (f # fs) first \<inter> stack_matches st = {}" and st: "apart st"
    by (simp_all add: plain_fields_Cons)
  have inside: "v \<in> node_matches n (f # fs) first"
    if "map_of (node_children n) k = Some c \<and> v \<in> node_matches c fs False \<and> (k = f \<or> k = ''+'') \<or> hash_value n = Some v" for k c v
    using that wild by auto
  have st1: "apart (push_child f n fs st)"
    by (rule apart_push [OF one plain(3) st]) (use inside away in blast)
  have "v \<notin> stack_matches (push_child f n fs st)"
    if below: "map_of (node_children n) ''+'' = Some c" "v \<in> node_matches c fs False" for c v
  proof -
    obtain p where p: "trie_get (''+'' # p) n = Some v" using child_path [OF below] by blast
    have "v \<notin> stack_matches st" using inside below away by blast
    moreover have "v \<notin> node_matches c' fs False" if "map_of (node_children n) f = Some c'" for c'
      using child_path [OF that, of v] one_path_key [OF one p, of f] plain(1) by blast
    ultimately show ?thesis by (simp split: option.split)
  qed
  then have "apart (push_child ''+'' n fs (push_child f n fs st))"
    by (rule apart_push [OF one plain(3) st1])
  moreover have "v \<notin> stack_matches (push_child ''+'' n fs (push_child f n fs st))" if hash: "hash_value n = Some v" for v
  proof -
    have "v \<notin> stack_matches st" using inside hash away by blast
    moreover have "v \<notin> node_matches c fs False" if "map_of (node_children n) k = Some c" "k \<noteq> ''#''" for k c
      using child_path [OF that(1), of v] one_path_key [OF one hash_path [OF hash], of k] that(2) by blast
    ultimately show ?thesis using plain(2) by (auto split: option.splits)
  qed
  ultimately show ?thesis by blast
qed

lemma apart_exact:
  assumes "apart ((n, f # fs, first) # st)"
  shows "apart (push_child f n fs st)"
proof -
  from assms have one: "one_path n" and plain: "plain_fields fs"
    and away: "node_matches n (f # fs) first \<inter> stack_matches st = {}" and st: "apart st"
    by (simp_all add: plain_fields_Cons)
  show ?thesis by (rule apart_push [OF one plain st]) (use away in auto)
qed

lemma match_next_apart:
  "match_next st = (r, st') \<Longrightarrow> apart st \<Longrightarrow> apart st' \<and> (\<forall>v. r = Some v \<longrightarrow> v \<notin> stack_matches st')"
proof (induction st rule: match_next.induct)
  case (2 n first st)
  then show ?case by (auto simp: hash_value_def split: option.splits)
next
  case (3 n f fs first st)
  show ?case
  proof (cases "\<not> first \<or> f = [] \<or> hd f \<noteq> CHR ''$''")
    case wild: True
    note step = apart_step [OF "3.prems"(2) wild]
    show ?thesis
    proof (cases "map_of (node_children n) ''#''")
      case None
      with 3 wild step show ?thesis by (simp add: Let_def)
    next
      case (Some c)
      with "3.prems"(1) wild have "r = hash_value n" "st' = push_child ''+'' n fs (push_child f n fs st)"
        by (simp_all add: Let_def hash_value_def)
      with step show ?thesis by simp
    qed
  next
    case False
    with 3 apart_exact [OF "3.prems"(2)] show ?thesis by (simp add: Let_def)
  qed
qed simp

lemma matches_from_apart: "apart st \<Longrightarrow> distinct (matches_from st)"
proof (induction st rule: matches_from.induct)
  case (1 st)
  obtain r st' where next_eq: "match_next st = (r, st')" by fastforce
  note spec = match_next_apart [OF next_eq "1.prems"]
  show ?case
  proof (cases r)
    case None
    then show ?thesis using next_eq by (subst matches_from.simps) simp
  next
    case (Some v)
    then have "distinct (matches_from st')" "v \<notin> set (matches_from st')"
      using "1.IH" [of r st' v] next_eq spec matches_from_sound [of st'] by auto
    then show ?thesis using next_eq Some by (subst matches_from.simps) simp
  qed
qed

lemma run_ops_one_path: "one_path (run_ops ops)"
  using run_ops_represents [of ops] unfolding represents_def one_path_def by (metis prod.inject)

text \<open>C16: the collection agrees with its single filters. Iterating over the matches of a topic yields only
  stored filters that match the topic with the value stored for them, and, when nothing was removed
  since the last pruning, all of them except the hidden ones; each of them once, if no field of the
  topic is a wildcard.\<close>

theorem collection_matches_like_filters:
  assumes "list_all valid_op ops"
  shows "set (matcher_matches (run_ops ops) topic)
      \<subseteq> {(flt, v). map_ops ops flt = Some v \<and> topic_filter_matches (make_filter flt) topic = Inr True}
    \<and> (settled ops \<longrightarrow> set (matcher_matches (run_ops ops) topic)
      = {(flt, v). map_ops ops flt = Some v \<and> topic_filter_matches (make_filter flt) topic = Inr True
          \<and> \<not> hidden (map_ops ops) flt topic})
    \<and> (plain_fields (topic_split topic) \<longrightarrow> distinct (matcher_matches (run_ops ops) topic))"
proof -
  have once: "distinct (matcher_matches (run_ops ops) topic)" if "plain_fields (topic_split topic)"
    unfolding matcher_matches_def using that run_ops_one_path by (intro matches_from_apart) simp
  have single: "topic_filter_matches (make_filter flt) topic = Inr True \<longleftrightarrow> mqtt_match (topic_split flt) (topic_split topic)"
    if "map_ops ops flt = Some v" for flt v
    using filter_matches_mqtt [OF valid_stored [OF assms that], of topic] by simp
  note root = root_matches [OF run_ops_represents, of ops topic]
  have "set (matcher_matches (run_ops ops) topic) = stack_matches [(run_ops ops, topic_split topic, True)]" if "settled ops"
    unfolding matcher_matches_def by (rule matches_from_live) (simp add: live_stack_def run_ops_live [OF assms that])
  with matches_from_sound [of "[(run_ops ops, topic_split topic, True)]"] single
  have "set (matcher_matches (run_ops ops) topic)
      \<subseteq> {(flt, v). map_ops ops flt = Some v \<and> topic_filter_matches (make_filter flt) topic = Inr True}
    \<and> (settled ops \<longrightarrow> set (matcher_matches (run_ops ops) topic)
      = {(flt, v). map_ops ops flt = Some v \<and> topic_filter_matches (make_filter flt) topic = Inr True
          \<and> \<not> hidden (map_ops ops) flt topic})"
    unfolding root matcher_matches_def by auto
  with once show ?thesis by blast
qed

definition sample_ops :: "nat matcher_op list" where
  "sample_ops = [Insert ''a/#'' 1, Insert ''b'' 2, Remove ''b'', Prune, Insert ''a/+'' 3]"

lemma sample_ops_valid: "list_all valid_op sample_ops" and sample_ops_settled: "settled sample_ops"
  by (simp_all add: sample_ops_def settled_def topic_split_eq hash_last_def)

theorem collection_matches_like_filters_witness:
  "(''a/+'', 3) \<in> set (matcher_matches (run_ops sample_ops) ''a/x'')
    \<and> (''a/#'', 1) \<in> set (matcher_matches (run_ops sample_ops) ''a/x'')
    \<and> (''b'', 2) \<notin> set (matcher_matches (run_ops sample_ops) ''b'')
    \<and> distinct (matcher_matches (run_ops sample_ops) ''a/x'')"
proof -
  have plain: "plain_fields (topic_split ''a/x'')" by (simp add: plain_fields_def topic_split_eq)
  have stored: "map_ops sample_ops ''a/+'' = Some 3" "map_ops sample_ops ''a/#'' = Some 1" "map_ops sample_ops ''b'' = None"
    by (simp_all add: map_ops_def sample_ops_def)
  have single: "topic_filter_matches (make_filter ''a/+'') ''a/x'' = Inr True"
    "topic_filter_matches (make_filter ''a/#'') ''a/x'' = Inr True"
    by (simp_all add: filter_matches_mqtt topic_split_eq hash_last_def mqtt_match_def is_wildcard_def)
  have len: "length (topic_split flt) = Suc (length (topic_split topic))" if "hidden (map_ops sample_ops) flt topic" for flt topic
    using that by (auto simp: hidden_def)
  have open_to: "\<not> hidden (map_ops sample_ops) ''a/+'' ''a/x''" "\<not> hidden (map_ops sample_ops) ''a/#'' ''a/x''"
    using len [of "''a/+''" "''a/x''"] len [of "''a/#''" "''a/x''"] by (auto simp: topic_split_eq)
  show ?thesis
    using collection_matches_like_filters [OF sample_ops_valid, of "''a/x''"]
      collection_matches_like_filters [OF sample_ops_valid, of "''b''"] sample_ops_settled stored single open_to plain
    by auto
qed

text \<open>
  The conditions are needed. A removed \<open>#\<close> filter ends the search at its node, so a filter that is
  there and matches is not found; a \<open>#\<close> that stands for no field is hidden by the filter above it;
  and a topic with a field \<open>+\<close> meets the node \<open>+\<close> both as an exact match and as a wildcard, so its
  entry is yielded twice. The iterator does not check that its topic has no wildcards.
\<close>

lemma wildcard_topic_yields_twice:
  "matcher_matches (run_ops [Insert ''a/+'' (1 :: nat)]) ''a/+'' = [(''a/+'', 1), (''a/+'', 1)]"
  by code_simp

lemma removed_hash_hides_matches:
  "matcher_matches (run_ops [Insert ''a/#'' (1 :: nat), Insert ''a/b'' 2, Remove ''a/#'']) ''a/b'' = []"
  by code_simp

lemma parent_hides_hash:
  "matcher_matches (run_ops [Insert ''a'' (1 :: nat), Insert ''a/#'' 2]) ''a'' = [(''a'', 1)]"
  by code_simp

text \<open>\<open>has_match\<close> says whether the iteration yields anything.\<close>

lemma has_match_iff: "has_match t topic \<longleftrightarrow> matcher_matches t topic \<noteq> []"
  unfolding has_match_def matcher_matches_def by (subst matches_from.simps) (auto split: prod.split option.split)

section \<open>All items\<close>

definition items_of :: "'v node list \<Rightarrow> (string \<times> 'v) set" where
  "items_of st = (\<Union>n \<in> set st. {v. \<exists>p. trie_get p n = Some v})"

lemma node_items:
  assumes "wf_node n"
  shows "{v. \<exists>p. trie_get p n = Some v} = set_option (node_content n) \<union> items_of (map snd (node_children n))"
proof -
  have dist: "distinct (map fst (node_children n))" using assms by (cases n) (simp add: sorted_distinct)
  have "(\<exists>p. trie_get p n = Some v) \<longleftrightarrow> node_content n = Some v
      \<or> (\<exists>f fs c. map_of (node_children n) f = Some c \<and> trie_get fs c = Some v)" for v
  proof
    assume "\<exists>p. trie_get p n = Some v"
    then obtain p where p: "trie_get p n = Some v" by blast
    then show "node_content n = Some v \<or> (\<exists>f fs c. map_of (node_children n) f = Some c \<and> trie_get fs c = Some v)"
      by (cases p) (auto split: option.splits)
  next
    assume "node_content n = Some v \<or> (\<exists>f fs c. map_of (node_children n) f = Some c \<and> trie_get fs c = Some v)"
    then show "\<exists>p. trie_get p n = Some v"
    proof (elim disjE exE conjE)
      assume "node_content n = Some v"
      then have "trie_get [] n = Some v" by simp
      then show ?thesis by blast
    next
      fix f fs c
      assume "map_of (node_children n) f = Some c" "trie_get fs c = Some v"
      then have "trie_get (f # fs) n = Some v" by simp
      then show ?thesis by blast
    qed
  qed
  moreover have "map_of (node_children n) f = Some c \<longleftrightarrow> (f, c) \<in> set (node_children n)" for f c
    using map_of_eq_Some_iff [OF dist] .
  ultimately show ?thesis unfolding items_of_def by (auto 0 4)
qed

lemma items_of_Nil [simp]: "items_of [] = {}"
  by (simp add: items_of_def)

lemma items_of_append [simp]: "items_of (xs @ ys) = items_of xs \<union> items_of ys"
  by (simp add: items_of_def)

lemma items_of_rev [simp]: "items_of (rev xs) = items_of xs"
  by (simp add: items_of_def)

lemma items_of_Cons: "wf_node n \<Longrightarrow> items_of (n # st) = set_option (node_content n) \<union> items_of (map snd (node_children n)) \<union> items_of st"
  using node_items [of n] by (simp add: items_of_def [of "n # st"] items_of_def [of st])

lemma wf_children: "wf_node n \<Longrightarrow> x \<in> set (map snd (node_children n)) \<Longrightarrow> wf_node x"
  by (cases n) auto

lemma items_next_spec:
  "\<forall>n \<in> set st. wf_node n \<Longrightarrow> items_next st = (r, st') \<Longrightarrow>
    (\<forall>n \<in> set st'. wf_node n) \<and> items_of st = set_option r \<union> items_of st' \<and> (r = None \<longrightarrow> items_of st = {})"
proof (induction st rule: items_next.induct)
  case (2 n st)
  let ?st = "rev (map snd (node_children n)) @ st"
  have wf: "wf_node n" "\<forall>m \<in> set ?st. wf_node m" using "2.prems"(1) wf_children by auto
  have top: "items_of (n # st) = set_option (node_content n) \<union> items_of ?st"
    using items_of_Cons [OF wf(1), of st] by auto
  show ?case
  proof (cases "node_content n")
    case None
    with 2 wf have "(\<forall>n \<in> set st'. wf_node n) \<and> items_of ?st = set_option r \<union> items_of st' \<and> (r = None \<longrightarrow> items_of ?st = {})"
      by (simp add: Let_def)
    with None show ?thesis unfolding top by simp
  next
    case (Some v)
    with "2.prems"(2) have "r = Some v" "st' = ?st" by (auto simp: Let_def)
    with Some wf(2) show ?thesis unfolding top by simp
  qed
qed simp

lemma items_from_set: "\<forall>n \<in> set st. wf_node n \<Longrightarrow> set (items_from st) = items_of st"
proof (induction st rule: items_from.induct)
  case (1 st)
  obtain r st' where next_eq: "items_next st = (r, st')" by fastforce
  note spec = items_next_spec [OF "1.prems" next_eq]
  show ?case
  proof (cases r)
    case None
    then have "items_of st = {}" using spec by blast
    with None show ?thesis using next_eq by (subst items_from.simps) simp
  next
    case (Some v)
    then have "set (items_from st') = items_of st'" using "1.IH" [of r st' v] next_eq spec by simp
    with Some spec next_eq show ?thesis by (subst items_from.simps) simp
  qed
qed

lemma matcher_items_represents:
  assumes "represents t m"
  shows "set (matcher_items t) = {(flt, v). m flt = Some v}"
proof -
  have "set (matcher_items t) = {v. \<exists>p. trie_get p t = Some v}"
    unfolding matcher_items_def using items_from_set [of "[t]"] assms by (simp add: represents_def items_of_def)
  also have "\<dots> = {(flt, v). m flt = Some v}" using assms unfolding represents_def by blast
  finally show ?thesis .
qed

text \<open>C17: the trie is a map. After any sequence of insertions, removals and prunings \<open>find\<close> gives the value
  last inserted for exactly that filter and not removed since, \<open>remove\<close> hands it out, and iterating over
  the collection yields all of them.\<close>

theorem matcher_refines_map:
  "matcher_find flt (run_ops ops) = map_option (Pair flt) (map_ops ops flt)
    \<and> fst (matcher_remove flt (run_ops ops)) = map_ops ops flt
    \<and> set (matcher_items (run_ops ops)) = {(f, v). map_ops ops f = Some v}"
  using represents_get [OF run_ops_represents, of flt ops] represents_remove [OF run_ops_represents, of flt ops]
    matcher_items_represents [OF run_ops_represents, of ops]
  by (simp add: matcher_find_def)

end
