(* ===== verification/Thread_Queue.thy ===== *)
theory Thread_Queue
  imports Prelude "HOL-Library.Sublist"
begin

text \<open>
  \<open>controller/deps/paho.mqtt.cpp/include/mqtt/thread_queue.h\<close>: the blocking queue between the MQTT client's
  callback thread and the consumer. First the operations under the lock, each as a function of the
  state at the moment it runs; then threads that block on the two condition variables, are notified
  and resume, in any order.
\<close>

section \<open>The queue\<close>

record 'a thread_queue =
  cap :: nat
  is_closed :: bool
  que :: "'a list"

datatype queue_error = Queue_closed

definition MAX_CAPACITY :: nat where
  "MAX_CAPACITY = 2 ^ 64 - 1"

definition new_queue :: "'a thread_queue" where
  "new_queue = \<lparr>cap = MAX_CAPACITY, is_closed = False, que = []\<rparr>"

definition bounded_queue :: "nat \<Rightarrow> 'a thread_queue" where
  "bounded_queue c = \<lparr>cap = max c 1, is_closed = False, que = []\<rparr>"

definition is_done :: "'a thread_queue \<Rightarrow> bool" where
  "is_done q \<longleftrightarrow> is_closed q \<and> que q = []"

definition set_capacity :: "nat \<Rightarrow> 'a thread_queue \<Rightarrow> 'a thread_queue" where
  "set_capacity c q = q\<lparr>cap := max c 1\<rparr>"

definition close_queue :: "'a thread_queue \<Rightarrow> 'a thread_queue" where
  "close_queue q = q\<lparr>is_closed := True\<rparr>"

definition clear_queue :: "'a thread_queue \<Rightarrow> 'a thread_queue" where
  "clear_queue q = q\<lparr>que := []\<rparr>"

text \<open>The predicates of the waits.\<close>

definition put_ready :: "'a thread_queue \<Rightarrow> bool" where
  "put_ready q \<longleftrightarrow> length (que q) < cap q \<or> is_closed q"

definition get_ready :: "'a thread_queue \<Rightarrow> bool" where
  "get_ready q \<longleftrightarrow> que q \<noteq> [] \<or> is_closed q"

text \<open>\<^term>\<open>None\<close>: the caller blocks.\<close>

definition put :: "'a \<Rightarrow> 'a thread_queue \<Rightarrow> (queue_error + 'a thread_queue) option" where
  "put v q =
     (if \<not> put_ready q then None
      else if is_closed q then Some (Inl Queue_closed)
      else Some (Inr (q\<lparr>que := que q @ [v]\<rparr>)))"

definition try_put :: "'a \<Rightarrow> 'a thread_queue \<Rightarrow> bool \<times> 'a thread_queue" where
  "try_put v q =
     (if cap q \<le> length (que q) \<or> is_closed q then (False, q)
      else (True, q\<lparr>que := que q @ [v]\<rparr>))"

text \<open>The timed variants, on the state in which their wait ends: \<open>to\<close> is the negated predicate.\<close>

definition try_put_for :: "'a \<Rightarrow> 'a thread_queue \<Rightarrow> bool \<times> 'a thread_queue" where
  "try_put_for v q =
     (let to = \<not> put_ready q
      in if to \<or> is_closed q then (False, q) else (True, q\<lparr>que := que q @ [v]\<rparr>))"

definition get :: "'a thread_queue \<Rightarrow> (queue_error + 'a \<times> 'a thread_queue) option" where
  "get q =
     (if \<not> get_ready q then None
      else case que q of
        [] \<Rightarrow> Some (Inl Queue_closed)
      | v # vs \<Rightarrow> Some (Inr (v, q\<lparr>que := vs\<rparr>)))"

text \<open>\<open>get(val)\<close> and its non-blocking and timed variants; \<open>null\<close> says that \<open>val\<close> is a null pointer.\<close>

definition try_get_for :: "bool \<Rightarrow> 'a thread_queue \<Rightarrow> 'a option \<times> 'a thread_queue" where
  "try_get_for null q =
     (if null then (None, q) else case que q of [] \<Rightarrow> (None, q) | v # vs \<Rightarrow> (Some v, q\<lparr>que := vs\<rparr>))"

definition get_into :: "bool \<Rightarrow> 'a thread_queue \<Rightarrow> ('a option \<times> 'a thread_queue) option" where
  "get_into null q =
     (if null then Some (None, q)
      else if \<not> get_ready q then None
      else case que q of [] \<Rightarrow> Some (None, q) | v # vs \<Rightarrow> Some (Some v, q\<lparr>que := vs\<rparr>))"

definition try_get :: "bool \<Rightarrow> 'a thread_queue \<Rightarrow> 'a option \<times> 'a thread_queue" where
  "try_get null q =
     (if null then (None, q) else case que q of [] \<Rightarrow> (None, q) | v # vs \<Rightarrow> (Some v, q\<lparr>que := vs\<rparr>))"

lemmas queue_defs = put_ready_def get_ready_def put_def try_put_def try_put_for_def get_def get_into_def
  try_get_def try_get_for_def set_capacity_def close_queue_def clear_queue_def is_done_def

text \<open>The timed put differs from the plain attempt only in when it looks.\<close>

lemma try_put_for_eq: "try_put_for v q = try_put v q"
  by (auto simp: queue_defs Let_def)

lemma try_put_eq: "try_put v q = (case put v q of Some (Inr q') \<Rightarrow> (True, q') | _ \<Rightarrow> (False, q))"
  by (auto simp: queue_defs)

lemma try_get_for_eq: "try_get_for null q = try_get null q"
  by (simp add: queue_defs)

lemma try_get_eq: "try_get False q = (case get q of Some (Inr (v, q')) \<Rightarrow> (Some v, q') | _ \<Rightarrow> (None, q))"
  by (auto simp: queue_defs split: list.split)

lemma get_into_eq: "get_into False q = (case get q of None \<Rightarrow> None | Some (Inl _) \<Rightarrow> Some (None, q)
    | Some (Inr (v, q')) \<Rightarrow> Some (Some v, q'))"
  by (auto simp: queue_defs split: list.split)

section \<open>Threads\<close>

text \<open>
  The threads asleep on \<open>notFullCond_\<close> (with the value they want to put) and on \<open>notEmptyCond_\<close>, and those
  that were notified and have not yet run again. \<open>put_log\<close> lists the values accepted, \<open>gone\<close> those that
  left, oldest first, with whether a consumer got them (or \<open>clear\<close> threw them away).
\<close>

record 'a queue_world =
  tq :: "'a thread_queue"
  put_wait :: "(nat \<times> 'a) list"
  put_woken :: "(nat \<times> 'a) list"
  get_wait :: "nat list"
  get_woken :: "nat list"
  put_log :: "'a list"
  gone :: "('a \<times> bool) list"

definition init_world :: "'a thread_queue \<Rightarrow> 'a queue_world" where
  "init_world q = \<lparr>tq = q, put_wait = [], put_woken = [], get_wait = [], get_woken = [], put_log = [], gone = []\<rparr>"

text \<open>\<open>notify_one\<close> wakes some waiter if there is one; \<open>notify_all\<close> all of them.\<close>

inductive wake_one :: "'t list \<Rightarrow> 't list \<Rightarrow> 't list \<Rightarrow> 't list \<Rightarrow> bool" where
  nobody: "wake_one [] woken [] woken"
| some: "x \<in> set waiting \<Longrightarrow> wake_one waiting woken (remove1 x waiting) (x # woken)"

text \<open>The critical section of \<open>put\<close> and \<open>get\<close> once the predicate holds, with the notification.\<close>

inductive do_put :: "'a \<Rightarrow> 'a queue_world \<Rightarrow> 'a queue_world \<Rightarrow> bool" where
  closed: "put v (tq w) = Some (Inl e) \<Longrightarrow> do_put v w w"
| accepted: "put v (tq w) = Some (Inr q) \<Longrightarrow> wake_one (get_wait w) (get_woken w) ws wk
    \<Longrightarrow> do_put v w (w\<lparr>tq := q, put_log := put_log w @ [v], get_wait := ws, get_woken := wk\<rparr>)"

inductive do_get :: "'a queue_world \<Rightarrow> 'a queue_world \<Rightarrow> bool" where
  closed: "get (tq w) = Some (Inl e) \<Longrightarrow> do_get w w"
| taken: "get (tq w) = Some (Inr (v, q)) \<Longrightarrow> wake_one (put_wait w) (put_woken w) ws wk
    \<Longrightarrow> do_get w (w\<lparr>tq := q, gone := gone w @ [(v, True)], put_wait := ws, put_woken := wk\<rparr>)"

text \<open>
  The steps: a call that finds its predicate true, a call that goes to sleep, a notified thread that
  runs, goes back to sleep or gives up (timed variants), a sleeping thread that runs without
  notification (a timeout or a spurious wake-up) or gives up, and the operations that notify everybody.
\<close>

inductive queue_step :: "'a queue_world \<Rightarrow> 'a queue_world \<Rightarrow> bool" where
  put_now: "do_put v w w' \<Longrightarrow> queue_step w w'"
| put_sleep: "\<not> put_ready (tq w) \<Longrightarrow> queue_step w (w\<lparr>put_wait := (t, v) # put_wait w\<rparr>)"
| put_resume: "x \<in> set (put_woken w) \<Longrightarrow> do_put (snd x) (w\<lparr>put_woken := remove1 x (put_woken w)\<rparr>) w' \<Longrightarrow> queue_step w w'"
| put_again: "x \<in> set (put_woken w) \<Longrightarrow> \<not> put_ready (tq w)
    \<Longrightarrow> queue_step w (w\<lparr>put_woken := remove1 x (put_woken w), put_wait := x # put_wait w\<rparr>)"
| put_give_up: "\<not> put_ready (tq w)
    \<Longrightarrow> queue_step w (w\<lparr>put_woken := remove1 x (put_woken w), put_wait := remove1 y (put_wait w)\<rparr>)"
| put_unnotified: "x \<in> set (put_wait w) \<Longrightarrow> do_put (snd x) (w\<lparr>put_wait := remove1 x (put_wait w)\<rparr>) w' \<Longrightarrow> queue_step w w'"
| get_now: "do_get w w' \<Longrightarrow> queue_step w w'"
| get_sleep: "\<not> get_ready (tq w) \<Longrightarrow> queue_step w (w\<lparr>get_wait := t # get_wait w\<rparr>)"
| get_resume: "t \<in> set (get_woken w) \<Longrightarrow> do_get (w\<lparr>get_woken := remove1 t (get_woken w)\<rparr>) w' \<Longrightarrow> queue_step w w'"
| get_again: "t \<in> set (get_woken w) \<Longrightarrow> \<not> get_ready (tq w)
    \<Longrightarrow> queue_step w (w\<lparr>get_woken := remove1 t (get_woken w), get_wait := t # get_wait w\<rparr>)"
| get_give_up: "\<not> get_ready (tq w)
    \<Longrightarrow> queue_step w (w\<lparr>get_woken := remove1 t (get_woken w), get_wait := remove1 u (get_wait w)\<rparr>)"
| get_unnotified: "t \<in> set (get_wait w) \<Longrightarrow> do_get (w\<lparr>get_wait := remove1 t (get_wait w)\<rparr>) w' \<Longrightarrow> queue_step w w'"
| capacity: "q = set_capacity c (tq w) \<Longrightarrow> queue_step w (if length (que q) < cap q
    then w\<lparr>tq := q, put_wait := [], put_woken := put_wait w @ put_woken w\<rparr> else w\<lparr>tq := q\<rparr>)"
| clear: "queue_step w (w\<lparr>tq := clear_queue (tq w), gone := gone w @ map (\<lambda>v. (v, False)) (que (tq w)),
    put_wait := [], put_woken := put_wait w @ put_woken w\<rparr>)"
| close: "queue_step w (w\<lparr>tq := close_queue (tq w), put_wait := [], put_woken := put_wait w @ put_woken w,
    get_wait := [], get_woken := get_wait w @ get_woken w\<rparr>)"

inductive queue_reachable :: "'a queue_world \<Rightarrow> bool" where
  start: "que q = [] \<Longrightarrow> 0 < cap q \<Longrightarrow> queue_reachable (init_world q)"
| step: "queue_reachable w \<Longrightarrow> queue_step w w' \<Longrightarrow> queue_reachable w'"

text \<open>
  The invariant: a thread sleeps only while the queue is open and there are no more items (free places)
  than notified consumers (producers) to take them.
\<close>

definition wake_inv :: "'a queue_world \<Rightarrow> bool" where
  "wake_inv w \<longleftrightarrow>
     (get_wait w \<noteq> [] \<longrightarrow> \<not> is_closed (tq w) \<and> length (que (tq w)) \<le> length (get_woken w))
     \<and> (put_wait w \<noteq> [] \<longrightarrow> \<not> is_closed (tq w) \<and> cap (tq w) - length (que (tq w)) \<le> length (put_woken w))"

definition log_inv :: "'a queue_world \<Rightarrow> bool" where
  "log_inv w \<longleftrightarrow> put_log w = map fst (gone w) @ que (tq w)"

text \<open>Leaving aside the thread that runs: one slack for a producer or a consumer.\<close>

definition slack_inv :: "nat \<Rightarrow> nat \<Rightarrow> 'a queue_world \<Rightarrow> bool" where
  "slack_inv p g w \<longleftrightarrow>
     (get_wait w \<noteq> [] \<longrightarrow> \<not> is_closed (tq w) \<and> length (que (tq w)) \<le> length (get_woken w) + g)
     \<and> (put_wait w \<noteq> [] \<longrightarrow> \<not> is_closed (tq w) \<and> cap (tq w) - length (que (tq w)) \<le> length (put_woken w) + p)"

lemma wake_inv_slack: "wake_inv w \<longleftrightarrow> slack_inv 0 0 w"
  by (simp add: wake_inv_def slack_inv_def)

lemma do_put_inv: "do_put v w w' \<Longrightarrow> slack_inv 1 0 w \<Longrightarrow> wake_inv w'"
proof (induction rule: do_put.induct)
  case (closed v w e)
  then show ?case by (auto simp: slack_inv_def wake_inv_def put_def split: if_splits)
next
  case (accepted v w q ws wk)
  from accepted(1) have q: "q = (tq w)\<lparr>que := que (tq w) @ [v]\<rparr>" "\<not> is_closed (tq w)" "length (que (tq w)) < cap (tq w)"
    by (auto simp: queue_defs split: if_splits)
  from accepted(2) have "ws \<noteq> [] \<longrightarrow> get_wait w \<noteq> [] \<and> length wk = Suc (length (get_woken w))"
    by (induction rule: wake_one.induct) auto
  with q accepted(3) show ?case by (auto simp: slack_inv_def wake_inv_def)
qed

lemma do_get_inv: "do_get w w' \<Longrightarrow> slack_inv 0 1 w \<Longrightarrow> wake_inv w'"
proof (induction rule: do_get.induct)
  case (closed w e)
  then show ?case by (auto simp: slack_inv_def wake_inv_def queue_defs split: if_splits list.splits)
next
  case (taken w v q ws wk)
  from taken(1) have q: "que (tq w) = v # que q" "q = (tq w)\<lparr>que := que q\<rparr>"
    by (auto simp: queue_defs split: if_splits list.splits)
  from taken(2) have "ws \<noteq> [] \<longrightarrow> put_wait w \<noteq> [] \<and> length wk = Suc (length (put_woken w))"
    by (induction rule: wake_one.induct) auto
  moreover have "is_closed q = is_closed (tq w)" "cap q = cap (tq w)" by (subst q(2), simp)+
  ultimately show ?case using taken(3) q(1) by (auto simp: slack_inv_def wake_inv_def)
qed

lemma length_remove1_le: "length xs \<le> length (remove1 x xs) + 1"
  by (auto simp: length_remove1)

lemma remove1_ne: "remove1 x xs \<noteq> [] \<Longrightarrow> xs \<noteq> []"
  by auto

lemma queue_step_wake: "queue_step w w' \<Longrightarrow> wake_inv w \<Longrightarrow> wake_inv w'"
proof (induction rule: queue_step.induct)
  case (put_now v w w')
  then show ?case by (elim do_put_inv) (auto simp: wake_inv_def slack_inv_def)
next
  case (put_resume x w w')
  show ?case
    by (rule do_put_inv [OF put_resume(2)])
      (use put_resume(3) length_remove1_le [of "put_woken w" x] in \<open>auto simp: wake_inv_def slack_inv_def\<close>)
next
  case (put_unnotified x w w')
  show ?case
    by (rule do_put_inv [OF put_unnotified(2)])
      (use put_unnotified(3) remove1_ne [of x "put_wait w"] in \<open>auto simp: wake_inv_def slack_inv_def\<close>)
next
  case (get_now w w')
  then show ?case by (elim do_get_inv) (auto simp: wake_inv_def slack_inv_def)
next
  case (get_resume t w w')
  show ?case
    by (rule do_get_inv [OF get_resume(2)])
      (use get_resume(3) length_remove1_le [of "get_woken w" t] in \<open>auto simp: wake_inv_def slack_inv_def\<close>)
next
  case (get_unnotified t w w')
  show ?case
    by (rule do_get_inv [OF get_unnotified(2)])
      (use get_unnotified(3) remove1_ne [of t "get_wait w"] in \<open>auto simp: wake_inv_def slack_inv_def\<close>)
next
  case (put_give_up w x y)
  then show ?case using remove1_ne [of y "put_wait w"] by (auto simp: wake_inv_def queue_defs)
next
  case (get_give_up w t u)
  then show ?case using remove1_ne [of u "get_wait w"] by (auto simp: wake_inv_def queue_defs)
qed (auto simp: wake_inv_def queue_defs)

lemma do_put_log: "do_put v w w' \<Longrightarrow> log_inv w \<Longrightarrow> log_inv w'"
  by (induction rule: do_put.induct) (auto simp: log_inv_def queue_defs split: if_splits)

lemma do_get_log: "do_get w w' \<Longrightarrow> log_inv w \<Longrightarrow> log_inv w'"
  by (induction rule: do_get.induct) (auto simp: log_inv_def queue_defs split: if_splits list.splits)

lemma queue_step_log: "queue_step w w' \<Longrightarrow> log_inv w \<Longrightarrow> log_inv w'"
proof (induction rule: queue_step.induct)
  case (put_now v w w')
  then show ?case by (blast intro: do_put_log)
next
  case (put_resume x w w')
  then show ?case by (elim do_put_log) (simp add: log_inv_def)
next
  case (put_unnotified x w w')
  then show ?case by (elim do_put_log) (simp add: log_inv_def)
next
  case (get_now w w')
  then show ?case by (blast intro: do_get_log)
next
  case (get_resume t w w')
  then show ?case by (elim do_get_log) (simp add: log_inv_def)
next
  case (get_unnotified t w w')
  then show ?case by (elim do_get_log) (simp add: log_inv_def)
qed (auto simp: log_inv_def queue_defs comp_def)

lemma queue_reachable_inv: "queue_reachable w \<Longrightarrow> wake_inv w \<and> log_inv w"
proof (induction rule: queue_reachable.induct)
  case (start q)
  then show ?case by (simp add: init_world_def wake_inv_def log_inv_def)
qed (blast intro: queue_step_wake queue_step_log)

text \<open>C19: the queue is first in, first out. Whatever the threads do, the values accepted are those that left,
  in the order in which they were put, followed by those still queued; what consumers got is a
  subsequence of what producers put, and all of it when nothing was cleared.\<close>

theorem queue_is_fifo:
  assumes "queue_reachable w"
  shows "put_log w = map fst (gone w) @ que (tq w)
    \<and> subseq (map fst (filter snd (gone w))) (put_log w)
    \<and> (list_all snd (gone w) \<longrightarrow> put_log w = map fst (filter snd (gone w)) @ que (tq w))"
proof -
  have log: "put_log w = map fst (gone w) @ que (tq w)"
    using queue_reachable_inv [OF assms] by (simp add: log_inv_def)
  have "subseq (map fst (filter snd (gone w))) (map fst (gone w))" by (intro subseq_map subseq_filter_left)
  moreover have "subseq (map fst (gone w)) (put_log w)" unfolding log by (intro prefix_imp_subseq) simp
  ultimately have "subseq (map fst (filter snd (gone w))) (put_log w)" by (rule subseq_order.trans)
  moreover have "list_all snd (gone w) \<Longrightarrow> filter snd (gone w) = gone w" by (simp add: list_all_iff filter_id_conv)
  ultimately show ?thesis using log by auto
qed

text \<open>A queue of capacity one: a put, a second producer that goes to sleep, a get that wakes it.\<close>

definition sample_world :: "nat queue_world" where
  "sample_world = \<lparr>tq = \<lparr>cap = 1, is_closed = False, que = []\<rparr>, put_wait = [], put_woken = [(7, 20)],
    get_wait = [], get_woken = [], put_log = [10], gone = [(10, True)]\<rparr>"

lemma sample_world_reachable: "queue_reachable sample_world"
proof -
  define w0 :: "nat queue_world" where "w0 = init_world (bounded_queue 0)"
  define w1 where "w1 = w0\<lparr>tq := \<lparr>cap = 1, is_closed = False, que = [10]\<rparr>, put_log := [10]\<rparr>"
  define w2 where "w2 = w1\<lparr>put_wait := [(7, 20)]\<rparr>"
  note w = w0_def w1_def w2_def init_world_def bounded_queue_def sample_world_def
  have r0: "queue_reachable w0" unfolding w0_def by (rule queue_reachable.start) (simp_all add: bounded_queue_def)
  have "do_put 10 w0 (w0\<lparr>tq := \<lparr>cap = 1, is_closed = False, que = [10]\<rparr>, put_log := put_log w0 @ [10],
      get_wait := [], get_woken := []\<rparr>)"
    by (rule do_put.accepted) (simp_all add: w queue_defs wake_one.nobody)
  then have "do_put 10 w0 w1" by (simp add: w)
  then have "queue_step w0 w1" by (rule queue_step.put_now)
  with r0 have r1: "queue_reachable w1" by (rule queue_reachable.step)
  have "queue_step w1 (w1\<lparr>put_wait := (7, 20) # put_wait w1\<rparr>)"
    by (rule queue_step.put_sleep) (simp add: w queue_defs)
  then have "queue_step w1 w2" by (simp add: w)
  with r1 have r2: "queue_reachable w2" by (rule queue_reachable.step)
  have wk: "wake_one [(7, 20)] [] (remove1 (7, 20) [(7, 20)]) [(7::nat, 20::nat)]" by (rule wake_one.some) simp
  have "do_get w2 (w2\<lparr>tq := \<lparr>cap = 1, is_closed = False, que = []\<rparr>, gone := gone w2 @ [(10, True)],
      put_wait := [], put_woken := [(7, 20)]\<rparr>)"
    by (rule do_get.taken) (use wk in \<open>simp_all add: w queue_defs\<close>)
  then have "do_get w2 sample_world" by (simp add: w)
  then have "queue_step w2 sample_world" by (rule queue_step.get_now)
  with r2 show ?thesis by (rule queue_reachable.step)
qed

theorem queue_is_fifo_witness:
  "put_log sample_world = [10] \<and> subseq [10] (put_log sample_world)"
  using queue_is_fifo [OF sample_world_reachable] by (simp add: sample_world_def)

text \<open>C18: no wake-up is lost. In every reachable state in which a consumer sleeps although there is an item,
  a notified consumer is about to run; in which a producer sleeps although there is room, a notified
  producer is; and nobody sleeps on a closed queue.\<close>

theorem no_wakeup_is_lost:
  assumes "queue_reachable w"
  shows "(get_wait w = [] \<or> que (tq w) = [] \<or> get_woken w \<noteq> [])
    \<and> (put_wait w = [] \<or> cap (tq w) \<le> length (que (tq w)) \<or> put_woken w \<noteq> [])
    \<and> (is_closed (tq w) \<longrightarrow> get_wait w = [] \<and> put_wait w = [])"
  using queue_reachable_inv [OF assms] by (auto simp: wake_inv_def)

theorem no_wakeup_is_lost_witness:
  "put_wait sample_world = [] \<or> cap (tq sample_world) \<le> length (que (tq sample_world)) \<or> put_woken sample_world \<noteq> []"
  using no_wakeup_is_lost [OF sample_world_reachable] by blast

end
