(* ===== verification/Mqtt_Message.thy ===== *)
theory Mqtt_Message
  imports Std_Map
begin

text \<open>
  The values the MQTT client passes to the C library below it (\<open>controller/deps/paho.mqtt.cpp\<close>): the exceptions
  of \<open>exception.h\<close>, a message (\<open>message.h\<close>, \<open>message.cpp\<close>) and the string collections
  (\<open>string_collection.h\<close>, \<open>string_collection.cpp\<close>). Each keeps a C structure beside its C++ members; the
  invariants say that the two describe the same value. The C library itself is a parameter.
\<close>

section \<open>Exceptions\<close>

text \<open>\<open>MQTTAsync_strerror\<close> and \<open>MQTTReasonCode_toString\<close>; either may return a null pointer.\<close>

record c_lib =
  strerror :: "int \<Rightarrow> string option"
  reason_string :: "int \<Rightarrow> string option"

text \<open>The return codes of the C library that the sources name, with their documented values.\<close>

abbreviation (input) MQTTASYNC_SUCCESS :: int where "MQTTASYNC_SUCCESS \<equiv> 0"
abbreviation (input) MQTTASYNC_FAILURE :: int where "MQTTASYNC_FAILURE \<equiv> -1"
abbreviation (input) MQTTASYNC_BAD_QOS :: int where "MQTTASYNC_BAD_QOS \<equiv> -9"

text \<open>\<open>ReasonCode\<close>: the values the code compares with.\<close>

abbreviation (input) RC_SUCCESS :: int where "RC_SUCCESS \<equiv> 0"
abbreviation (input) UNSPECIFIED_ERROR :: int where "UNSPECIFIED_ERROR \<equiv> 128"

record mqtt_exception =
  e_rc :: int
  e_reason :: int
  e_msg :: string
  e_what :: string

definition reason_code :: "int \<Rightarrow> int \<Rightarrow> int" where
  "reason_code rc r = (if r = RC_SUCCESS \<and> UNSPECIFIED_ERROR \<le> rc then rc else r)"

definition to_string_or_empty :: "string option \<Rightarrow> string" where
  "to_string_or_empty s = (case s of None \<Rightarrow> [] | Some t \<Rightarrow> t)"

definition error_str :: "c_lib \<Rightarrow> int \<Rightarrow> string" where
  "error_str lib rc = to_string_or_empty (strerror lib rc)"

definition reason_code_str :: "c_lib \<Rightarrow> int \<Rightarrow> string" where
  "reason_code_str lib r = to_string_or_empty (reason_string lib r)"

definition printable_error :: "c_lib \<Rightarrow> int \<Rightarrow> int \<Rightarrow> string \<Rightarrow> string" where
  "printable_error lib rc r msg =
     (let r = reason_code rc r
      in ''MQTT error ['' @ int_to_string rc @ '']''
         @ (if msg \<noteq> [] then '': '' @ msg else [])
         @ (if r \<noteq> RC_SUCCESS then ''. '' @ reason_code_str lib r else []))"

definition mqtt_exception3 :: "c_lib \<Rightarrow> int \<Rightarrow> int \<Rightarrow> string \<Rightarrow> mqtt_exception" where
  "mqtt_exception3 lib rc r msg =
     \<lparr>e_rc = rc, e_reason = reason_code rc r, e_msg = msg, e_what = printable_error lib rc r msg\<rparr>"

definition mqtt_exception_rc :: "c_lib \<Rightarrow> int \<Rightarrow> mqtt_exception" where
  "mqtt_exception_rc lib rc = mqtt_exception3 lib rc RC_SUCCESS (error_str lib rc)"

definition mqtt_exception_msg :: "c_lib \<Rightarrow> int \<Rightarrow> string \<Rightarrow> mqtt_exception" where
  "mqtt_exception_msg lib rc msg = mqtt_exception3 lib rc RC_SUCCESS msg"

definition missing_response :: "c_lib \<Rightarrow> string \<Rightarrow> mqtt_exception" where
  "missing_response lib rsp = mqtt_exception_msg lib MQTTASYNC_FAILURE (''Missing '' @ rsp @ '' response'')"

definition timeout_error :: "c_lib \<Rightarrow> mqtt_exception" where
  "timeout_error lib = mqtt_exception_msg lib MQTTASYNC_FAILURE ''Timeout''"

text \<open>What the client's functions throw. \<open>Null_deref\<close> is undefined behaviour, not an exception.\<close>

datatype mqtt_error = Mqtt_error mqtt_exception | Bad_cast | Invalid_argument string | Null_deref

section \<open>Messages\<close>

text \<open>
  A \<open>string_ref\<close> or \<open>binary_ref\<close> is a shared pointer to an immutable string, null or not. \<open>c_payload\<close> is
  what \<open>msg_.payload\<close> points at. \<open>'p\<close> is the type of a property of MQTT 5. The record \<open>message\<close> is what a reader
  of the message sees; below, \<open>message_object\<close> adds the array in memory that each of the two property lists
  has, which matters where messages are copied, moved and assigned.
\<close>

record 'p message =
  m_topic :: "string option"
  m_payload :: "string option"
  m_props :: "'p list"
  c_payload :: "string option"
  c_payloadlen :: int
  c_qos :: int
  c_retained :: int
  c_dup :: int
  c_props :: "'p list"

definition to_int :: "bool \<Rightarrow> int" where
  "to_int b = (if b then 1 else 0)"

definition to_bool :: "int \<Rightarrow> bool" where
  "to_bool n \<longleftrightarrow> n \<noteq> 0"

definition new_message :: "'p message" where
  "new_message = \<lparr>m_topic = None, m_payload = None, m_props = [], c_payload = None, c_payloadlen = 0,
     c_qos = 0, c_retained = 0, c_dup = 0, c_props = []\<rparr>"

definition set_topic :: "string option \<Rightarrow> ('p, 'z) message_scheme \<Rightarrow> ('p, 'z) message_scheme" where
  "set_topic t m = m\<lparr>m_topic := (case t of None \<Rightarrow> Some [] | Some s \<Rightarrow> Some s)\<rparr>"

definition get_topic :: "('p, 'z) message_scheme \<Rightarrow> string" where
  "get_topic m = to_string_or_empty (m_topic m)"

definition get_payload :: "('p, 'z) message_scheme \<Rightarrow> string" where
  "get_payload m = to_string_or_empty (m_payload m)"

definition clear_payload :: "('p, 'z) message_scheme \<Rightarrow> ('p, 'z) message_scheme" where
  "clear_payload m = m\<lparr>m_payload := None, c_payload := None, c_payloadlen := 0\<rparr>"

definition set_payload :: "string option \<Rightarrow> ('p, 'z) message_scheme \<Rightarrow> ('p, 'z) message_scheme" where
  "set_payload p m =
     (let m = m\<lparr>m_payload := p\<rparr>
      in case p of
        None \<Rightarrow> m\<lparr>c_payload := None, c_payloadlen := 0\<rparr>
      | Some s \<Rightarrow>
          (if s = [] then m\<lparr>c_payload := None, c_payloadlen := 0\<rparr>
           else m\<lparr>c_payload := Some s, c_payloadlen := to_int32 (int (length s))\<rparr>))"

definition validate_qos :: "c_lib \<Rightarrow> int \<Rightarrow> mqtt_error + unit" where
  "validate_qos lib q =
     (if q < 0 \<or> 2 < q then Inl (Mqtt_error (mqtt_exception_msg lib MQTTASYNC_BAD_QOS ''Bad QoS'')) else Inr ())"

definition set_qos :: "c_lib \<Rightarrow> int \<Rightarrow> ('p, 'z) message_scheme \<Rightarrow> mqtt_error + ('p, 'z) message_scheme" where
  "set_qos lib q m = sbind (validate_qos lib q) (\<lambda>_. Inr (m\<lparr>c_qos := q\<rparr>))"

definition set_retained :: "bool \<Rightarrow> ('p, 'z) message_scheme \<Rightarrow> ('p, 'z) message_scheme" where
  "set_retained b m = m\<lparr>c_retained := to_int b\<rparr>"

definition is_retained :: "('p, 'z) message_scheme \<Rightarrow> bool" where
  "is_retained m = to_bool (c_retained m)"

definition set_duplicate :: "bool \<Rightarrow> ('p, 'z) message_scheme \<Rightarrow> ('p, 'z) message_scheme" where
  "set_duplicate b m = m\<lparr>c_dup := to_int b\<rparr>"

definition is_duplicate :: "('p, 'z) message_scheme \<Rightarrow> bool" where
  "is_duplicate m = to_bool (c_dup m)"

definition set_properties :: "'p list \<Rightarrow> 'p message \<Rightarrow> 'p message" where
  "set_properties ps m = m\<lparr>m_props := ps, c_props := ps\<rparr>"

text \<open>The constructors from the parts and from a C message, as a reader of the message sees them.\<close>

definition make_message :: "c_lib \<Rightarrow> string option \<Rightarrow> string option \<Rightarrow> int \<Rightarrow> bool \<Rightarrow> 'p list \<Rightarrow> mqtt_error + 'p message" where
  "make_message lib t p q retained ps =
     (let m = set_payload p (new_message\<lparr>m_topic := t\<rparr>)
      in sbind (set_qos lib q m) (\<lambda>m.
         Inr (set_properties ps (set_retained retained m))))"

definition message_from_c :: "string option \<Rightarrow> string \<Rightarrow> int \<Rightarrow> int \<Rightarrow> int \<Rightarrow> 'p list \<Rightarrow> 'p message" where
  "message_from_c t p q retained dup ps =
     (let m = new_message\<lparr>m_topic := t, m_props := ps, c_qos := q, c_retained := retained, c_dup := dup\<rparr>;
          m = set_payload (Some p) m
      in m\<lparr>c_props := m_props m\<rparr>)"

subsection \<open>Messages in memory\<close>

text \<open>
  A list of properties is a structure with a pointer to an array that it owns; an empty one has no array.
  \<open>m_array\<close> is the array of the member \<open>props_\<close> and \<open>c_array\<close> the one that \<open>msg_.properties\<close> points at. Copying a list
  (\<open>MQTTProperties_copy\<close>) makes a new array, at the address \<open>a\<close> below; moving one hands its array over.
\<close>

record 'p message_object = "'p message" +
  m_array :: "nat option"
  c_array :: "nat option"

definition array_copy :: "nat \<Rightarrow> 'p list \<Rightarrow> nat option" where
  "array_copy a ps = (if ps = [] then None else Some a)"

definition new_object :: "'p message_object" where
  "new_object = message.extend new_message \<lparr>m_array = None, c_array = None\<rparr>"

definition object_set_properties :: "nat \<Rightarrow> 'p list \<Rightarrow> 'p message_object \<Rightarrow> 'p message_object" where
  "object_set_properties a ps m =
     (let m = m\<lparr>m_props := ps, m_array := array_copy a ps\<rparr>
      in m\<lparr>c_props := m_props m, c_array := m_array m\<rparr>)"

text \<open>The other \<open>set_properties\<close> takes over the array \<open>r\<close> of the list it is given.\<close>

definition object_take_properties :: "nat option \<Rightarrow> 'p list \<Rightarrow> 'p message_object \<Rightarrow> 'p message_object" where
  "object_take_properties r ps m =
     (let m = m\<lparr>m_props := ps, m_array := r\<rparr>
      in m\<lparr>c_props := m_props m, c_array := m_array m\<rparr>)"

definition object_make ::
  "c_lib \<Rightarrow> nat \<Rightarrow> string option \<Rightarrow> string option \<Rightarrow> int \<Rightarrow> bool \<Rightarrow> 'p list \<Rightarrow> mqtt_error + 'p message_object" where
  "object_make lib a t p q retained ps =
     (let m = set_payload p (new_object\<lparr>m_topic := t\<rparr>)
      in sbind (set_qos lib q m) (\<lambda>m.
         Inr (object_set_properties a ps (set_retained retained m))))"

text \<open>A C message comes with its own array of properties, at \<open>theirs\<close>; the quality of service is not checked.\<close>

definition object_from_c ::
  "nat \<Rightarrow> nat option \<Rightarrow> string option \<Rightarrow> string \<Rightarrow> int \<Rightarrow> int \<Rightarrow> int \<Rightarrow> 'p list \<Rightarrow> 'p message_object" where
  "object_from_c a theirs t p q retained dup ps =
     (let m = new_object\<lparr>c_qos := q, c_retained := retained, c_dup := dup, c_props := ps, c_array := theirs,
            m_topic := t, m_props := ps, m_array := array_copy a ps\<rparr>;
          m = set_payload (Some p) m
      in m\<lparr>c_props := m_props m, c_array := m_array m\<rparr>)"

text \<open>Each starts from the C structure of the other message, pointer included. A move also gives what is left of
  its source.\<close>

definition copy_message :: "nat \<Rightarrow> 'p message_object \<Rightarrow> 'p message_object" where
  "copy_message a other =
     (let m = other\<lparr>m_array := array_copy a (m_props other)\<rparr>;
          m = set_payload (m_payload other) m
      in m\<lparr>c_props := m_props m, c_array := m_array m\<rparr>)"

definition move_message :: "'p message_object \<Rightarrow> 'p message_object \<times> 'p message_object" where
  "move_message other =
     (let m = set_payload (m_payload other) other
      in (m\<lparr>c_props := m_props m, c_array := m_array m\<rparr>,
          other\<lparr>m_topic := None, m_props := [], m_array := None, m_payload := None,
            c_payloadlen := 0, c_payload := None\<rparr>))"

definition assign_message :: "nat \<Rightarrow> 'p message_object \<Rightarrow> 'p message_object \<Rightarrow> 'p message_object" where
  "assign_message a m rhs =
     (let m = m\<lparr>c_payload := c_payload rhs, c_payloadlen := c_payloadlen rhs, c_qos := c_qos rhs,
         c_retained := c_retained rhs, c_dup := c_dup rhs, c_props := c_props rhs, c_array := c_array rhs,
         m_topic := m_topic rhs\<rparr>
      in object_set_properties a (m_props rhs) (set_payload (m_payload rhs) m))"

definition move_assign_message :: "'p message_object \<Rightarrow> 'p message_object \<Rightarrow> 'p message_object \<times> 'p message_object" where
  "move_assign_message m rhs =
     (let m = m\<lparr>c_payload := c_payload rhs, c_payloadlen := c_payloadlen rhs, c_qos := c_qos rhs,
         c_retained := c_retained rhs, c_dup := c_dup rhs, c_props := c_props rhs, c_array := c_array rhs,
         m_topic := m_topic rhs\<rparr>
      in (object_take_properties (m_array rhs) (m_props rhs) (set_payload (m_payload rhs) m), new_object))"

text \<open>
  The messages a program can hold: built by a constructor, changed by a setter, copied, moved or assigned, and
  also what a move leaves behind. The first flag says that the message was moved from and has had no
  properties since, the second that its quality of service is one that a C message came with.
\<close>

inductive built :: "c_lib \<Rightarrow> bool \<Rightarrow> bool \<Rightarrow> 'p message_object \<Rightarrow> bool" for lib :: c_lib where
  empty: "built lib False False new_object"
| parts: "object_make lib a t p q r ps = Inr m \<Longrightarrow> built lib False False m"
| from_c: "built lib False True (object_from_c a theirs t p q r d ps)"
| topic: "built lib g f m \<Longrightarrow> built lib g f (set_topic t m)"
| payload: "built lib g f m \<Longrightarrow> built lib g f (set_payload p m)"
| cleared: "built lib g f m \<Longrightarrow> built lib g f (clear_payload m)"
| qos: "built lib g f m \<Longrightarrow> set_qos lib q m = Inr m' \<Longrightarrow> built lib g False m'"
| retained: "built lib g f m \<Longrightarrow> built lib g f (set_retained b m)"
| duplicate: "built lib g f m \<Longrightarrow> built lib g f (set_duplicate b m)"
| properties: "built lib g f m \<Longrightarrow> built lib False f (object_set_properties a ps m)"
| taken: "built lib g f m \<Longrightarrow> built lib False f (object_take_properties r ps m)"
| copied: "built lib g f m \<Longrightarrow> built lib False f (copy_message a m)"
| moved: "built lib g f m \<Longrightarrow> built lib False f (fst (move_message m))"
| left: "built lib g f m \<Longrightarrow> built lib True f (snd (move_message m))"
| assigned: "built lib g f m \<Longrightarrow> built lib g' f' r \<Longrightarrow> built lib False f' (assign_message a m r)"
| move_assigned: "built lib g f m \<Longrightarrow> built lib g' f' r \<Longrightarrow> built lib False f' (fst (move_assign_message m r))"
| reset: "built lib g f r \<Longrightarrow> built lib False False (snd (move_assign_message m r))"

definition payload_ok :: "('p, 'z) message_scheme \<Rightarrow> bool" where
  "payload_ok m \<longleftrightarrow>
     c_payload m = (if get_payload m = [] then None else Some (get_payload m))
     \<and> c_payloadlen m = to_int32 (int (length (get_payload m)))"

definition props_ok :: "bool \<Rightarrow> 'p message_object \<Rightarrow> bool" where
  "props_ok g m \<longleftrightarrow>
     (if g then m_props m = [] \<and> m_array m = None else c_props m = m_props m \<and> c_array m = m_array m)"

lemmas message_defs = new_message_def set_topic_def set_payload_def clear_payload_def set_qos_def validate_qos_def
  set_retained_def set_duplicate_def set_properties_def make_message_def message_from_c_def
  get_payload_def get_topic_def to_string_or_empty_def Let_def

lemmas object_defs = new_object_def new_message_def message.extend_def object_set_properties_def object_take_properties_def
  object_from_c_def copy_message_def move_message_def assign_message_def move_assign_message_def array_copy_def Let_def

lemma to_int32_0 [simp]: "to_int32 0 = 0"
  by (simp add: to_int32_def)

lemma set_payload_fields [simp]:
  "m_payload (set_payload p m) = p"
  "c_payload (set_payload p m) = (if to_string_or_empty p = [] then None else p)"
  "c_payloadlen (set_payload p m) = to_int32 (int (length (to_string_or_empty p)))"
  "c_qos (set_payload p m) = c_qos m" "c_props (set_payload p m) = c_props m"
  "m_props (set_payload p m) = m_props m"
  by (cases p; simp add: set_payload_def to_string_or_empty_def Let_def)+

lemma set_payload_arrays [simp]:
  "m_array (set_payload p m) = m_array m" "c_array (set_payload p m) = c_array m"
  by (cases p; simp add: set_payload_def Let_def)+

lemma not_empty_Some: "to_string_or_empty p \<noteq> [] \<Longrightarrow> Some (to_string_or_empty p) = p"
  by (cases p) (simp_all add: to_string_or_empty_def)

lemma set_payload_ok: "payload_ok (set_payload p m)"
  by (simp add: payload_ok_def get_payload_def not_empty_Some)

lemma payload_ok_cong:
  "m_payload m' = m_payload m \<Longrightarrow> c_payload m' = c_payload m \<Longrightarrow> c_payloadlen m' = c_payloadlen m
    \<Longrightarrow> payload_ok m' = payload_ok m"
  by (simp add: payload_ok_def get_payload_def)

lemma set_qos_Inr: "set_qos lib q m = Inr m' \<longleftrightarrow> q \<in> {0, 1, 2} \<and> m' = m\<lparr>c_qos := q\<rparr>"
  by (auto simp: set_qos_def validate_qos_def split: if_splits)

lemma make_message_Inr:
  "make_message lib t p q r ps = Inr m \<longleftrightarrow> q \<in> {0, 1, 2}
    \<and> m = (set_payload p (new_message\<lparr>m_topic := t\<rparr>))\<lparr>c_qos := q, c_retained := to_int r, m_props := ps, c_props := ps\<rparr>"
  by (auto simp: make_message_def set_qos_Inr Let_def set_retained_def set_properties_def)

lemma object_make_Inr:
  "object_make lib a t p q r ps = Inr m \<longleftrightarrow> q \<in> {0, 1, 2}
    \<and> m = object_set_properties a ps (set_retained r ((set_payload p (new_object\<lparr>m_topic := t\<rparr>))\<lparr>c_qos := q\<rparr>))"
  by (auto simp: object_make_def set_qos_Inr Let_def)

text \<open>What a reader sees of the objects is what the definitions above say.\<close>

lemma objects_as_messages:
  "message.truncate new_object = new_message"
  "message.truncate (object_set_properties a ps m) = set_properties ps (message.truncate m)"
  "map_sum id message.truncate (object_make lib a t p q r ps) = make_message lib t p q r ps"
  "message.truncate (object_from_c a theirs t s q i d ps) = message_from_c t s q i d ps"
  by (cases p;
      simp add: object_defs message_defs message.truncate_def object_make_def set_properties_def split: sum.split)+

text \<open>The parts of the invariant. Every operation on the payload or the list sets the C structure anew.\<close>

lemma built_payload: "built lib g f m \<Longrightarrow> payload_ok m"
proof (induction rule: built.induct)
  case (parts a t p q r ps m)
  then show ?case
    by (auto simp: object_make_Inr object_set_properties_def set_retained_def Let_def payload_ok_def get_payload_def not_empty_Some)
next
  case (qos g f m q m')
  then show ?case by (auto simp: set_qos_Inr payload_ok_def get_payload_def)
qed (simp_all add: set_payload_ok,
    simp_all add: object_defs set_topic_def clear_payload_def set_retained_def set_duplicate_def payload_ok_def
      get_payload_def not_empty_Some, simp_all add: to_string_or_empty_def)

lemma built_props: "built lib g f m \<Longrightarrow> props_ok g m"
proof (induction rule: built.induct)
  case (parts a t p q r ps m)
  then show ?case by (auto simp: object_make_Inr object_set_properties_def Let_def props_ok_def)
next
  case (qos g f m q m')
  then show ?case by (auto simp: set_qos_Inr props_ok_def)
qed (simp_all add: object_defs set_topic_def clear_payload_def set_retained_def set_duplicate_def props_ok_def)

lemma built_qos: "built lib g f m \<Longrightarrow> \<not> f \<Longrightarrow> c_qos m \<in> {0, 1, 2}"
proof (induction rule: built.induct)
  case (parts a t p q r ps m)
  then show ?case by (auto simp: object_make_Inr object_set_properties_def set_retained_def Let_def)
next
  case (qos g f m q m')
  then show ?case by (auto simp: set_qos_Inr)
qed (simp_all add: object_defs set_topic_def clear_payload_def set_retained_def set_duplicate_def)

text \<open>C37: whatever constructors, setters, copies, moves and assignments made a message, its C structure has the
  payload of the message: the pointer is null exactly for an empty payload, and the length is exact below
  two gigabytes. Its properties are the message's own, in content and in the array they point at, unless the
  message was moved from and has had no properties since; then the message owns none. Its quality of
  service is 0, 1 or 2 unless it is the one a C message came with, which nothing checks.\<close>

theorem message_struct_agrees:
  assumes "built lib given_away from_c m"
  shows "c_payload m = (if get_payload m = [] then None else Some (get_payload m))
    \<and> (int (length (get_payload m)) \<le> int32_max \<longrightarrow> c_payloadlen m = int (length (get_payload m)))
    \<and> (if given_away then m_props m = [] \<and> m_array m = None else c_props m = m_props m \<and> c_array m = m_array m)
    \<and> (from_c \<or> c_qos m \<in> {0, 1, 2})"
  using built_payload [OF assms] built_props [OF assms] built_qos [OF assms]
  by (auto simp: payload_ok_def props_ok_def to_int32_id)

text \<open>A C message with two properties, at 5; its object has them at 6, the copy of what it leaves after a move none,
  and a copy of the object at 7.\<close>

definition sample_object :: "nat message_object" where
  "sample_object = object_from_c 6 (Some 5) (Some ''t'') ''on'' 7 0 0 [1, 2]"

theorem message_struct_agrees_witness:
  "c_array (copy_message 7 sample_object) = Some 7 \<and> c_payloadlen (copy_message 7 sample_object) = 2
    \<and> c_array (copy_message 8 (snd (move_message sample_object))) = None
    \<and> m_props (snd (move_message sample_object)) = []"
proof -
  fix lib :: c_lib
  have "built lib False True sample_object" unfolding sample_object_def by (rule built.from_c)
  then have built: "built lib False True (copy_message 7 sample_object)" "built lib True True (snd (move_message sample_object))"
    "built lib False True (copy_message 8 (snd (move_message sample_object)))"
    by (blast intro: built.copied built.left)+
  from message_struct_agrees [OF built(1)] have "c_array (copy_message 7 sample_object) = Some 7"
    "c_payloadlen (copy_message 7 sample_object) = 2"
    by (simp_all add: sample_object_def object_defs get_payload_def to_string_or_empty_def)
  moreover from message_struct_agrees [OF built(3)] have "c_array (copy_message 8 (snd (move_message sample_object))) = None"
    by (simp add: sample_object_def object_defs)
  moreover from message_struct_agrees [OF built(2)] have "m_props (snd (move_message sample_object)) = []"
    by simp
  ultimately show ?thesis by blast
qed

text \<open>A copy has its own array; a move keeps the array and leaves the source pointing at it, with the properties it
  gave away; move assignment resets the source instead.\<close>

lemma copy_has_its_own_array:
  "m_props m \<noteq> [] \<Longrightarrow> m_array m \<noteq> Some a \<Longrightarrow> c_array (copy_message a m) = Some a \<and> c_array (copy_message a m) \<noteq> m_array m"
  by (simp add: copy_message_def array_copy_def Let_def)

lemma moved_from_struct_is_stale:
  "m_props (snd (move_message m)) = [] \<and> c_props (snd (move_message m)) = c_props m
    \<and> c_array (snd (move_message m)) = c_array m \<and> m_array (fst (move_message m)) = m_array m
    \<and> c_props (snd (move_assign_message m' m)) = []"
  by (simp add: object_defs)

text \<open>A rejected quality of service is reported as such, and the message stays as it was.\<close>

lemma make_message_rejects:
  "q \<notin> {0, 1, 2} \<Longrightarrow> make_message lib t p q r ps = Inl (Mqtt_error \<lparr>e_rc = -9, e_reason = 0, e_msg = ''Bad QoS'',
     e_what = ''MQTT error [-9]: Bad QoS''\<rparr>)"
proof -
  assume "q \<notin> {0, 1, 2}"
  then have "q < 0 \<or> 2 < q" by auto
  moreover have "int_to_string (-9) = ''-9''" by code_simp
  ultimately show ?thesis
    by (simp add: make_message_def set_qos_def validate_qos_def Let_def mqtt_exception_msg_def mqtt_exception3_def
        reason_code_def printable_error_def)
qed

section \<open>String collections\<close>

text \<open>A vector of strings with the array of pointers to them; a pointer is what it points at, up to its NUL.\<close>

record string_collection =
  coll :: "string list"
  c_arr :: "string list"

definition update_c_arr :: "string_collection \<Rightarrow> string_collection" where
  "update_c_arr c = c\<lparr>c_arr := map c_str_copy (coll c)\<rparr>"

definition collection_of :: "string list \<Rightarrow> string_collection" where
  "collection_of ss = update_c_arr \<lparr>coll = ss, c_arr = []\<rparr>"

definition collection_of_c_strings :: "string list \<Rightarrow> string_collection" where
  "collection_of_c_strings ss = update_c_arr (foldl (\<lambda>c s. c\<lparr>coll := coll c @ [c_str_copy s]\<rparr>) \<lparr>coll = [], c_arr = []\<rparr> ss)"

definition assign_collection :: "string_collection \<Rightarrow> string_collection \<Rightarrow> string_collection" where
  "assign_collection c rhs = update_c_arr (c\<lparr>coll := coll rhs\<rparr>)"

definition push_back :: "string \<Rightarrow> string_collection \<Rightarrow> string_collection" where
  "push_back s c = update_c_arr (c\<lparr>coll := coll c @ [s]\<rparr>)"

definition clear_collection :: "string_collection \<Rightarrow> string_collection" where
  "clear_collection c = c\<lparr>coll := [], c_arr := []\<rparr>"

inductive collection_built :: "string_collection \<Rightarrow> bool" where
  empty: "collection_built \<lparr>coll = [], c_arr = []\<rparr>"
| strings: "collection_built (collection_of ss)"
| c_strings: "collection_built (collection_of_c_strings ss)"
| assign: "collection_built c \<Longrightarrow> collection_built r \<Longrightarrow> collection_built (assign_collection c r)"
| push: "collection_built c \<Longrightarrow> collection_built (push_back s c)"
| clear: "collection_built c \<Longrightarrow> collection_built (clear_collection c)"

lemma collection_c_arr: "collection_built c \<Longrightarrow> c_arr c = map c_str_copy (coll c)"
  by (induction rule: collection_built.induct)
    (simp_all add: collection_of_def collection_of_c_strings_def assign_collection_def push_back_def
      clear_collection_def update_c_arr_def)

text \<open>Names and values, in the order of the names, with the array that a null pair ends.\<close>

record name_value_collection =
  nv_map :: "(string \<times> string) list"
  nv_arr :: "(string \<times> string) option list"

definition nv_update_c_arr :: "name_value_collection \<Rightarrow> name_value_collection" where
  "nv_update_c_arr c = c\<lparr>nv_arr := map (\<lambda>(n, v). Some (c_str_copy n, c_str_copy v)) (nv_map c) @ [None]\<rparr>"

definition new_nv :: name_value_collection where
  "new_nv = \<lparr>nv_map = [], nv_arr = []\<rparr>"

definition nv_insert :: "string \<Rightarrow> string \<Rightarrow> name_value_collection \<Rightarrow> bool \<times> name_value_collection" where
  "nv_insert n v c =
     (if n \<in> fst ` set (nv_map c) then (False, c) else (True, nv_update_c_arr (c\<lparr>nv_map := map_put n v (nv_map c)\<rparr>)))"

definition nv_clear :: "name_value_collection \<Rightarrow> name_value_collection" where
  "nv_clear c = nv_update_c_arr (c\<lparr>nv_map := []\<rparr>)"

text \<open>Every update writes the terminating pair; the array of a fresh collection has none.\<close>

lemma nv_terminated_after_update: "nv_insert n v c = (True, c') \<Longrightarrow> last (nv_arr c') = None"
  by (auto simp: nv_insert_def nv_update_c_arr_def split: if_splits)

lemma fresh_nv_is_not_terminated: "nv_arr new_nv = [] \<and> nv_arr (nv_clear new_nv) = [None]"
  by (simp add: new_nv_def nv_clear_def nv_update_c_arr_def)

end
