(* ===== verification/Mqtt_Buffer.thy ===== *)
theory Mqtt_Buffer
  imports Mqtt_Message
begin

text \<open>
  \<open>buffer_ref.h\<close> of \<open>controller/deps/paho.mqtt.cpp\<close>: a reference to an immutable string that several objects share.
  The strings live in a store, a reference is an address or null. What can be read through a reference is a
  \<^typ>\<open>string option\<close>, as the messages and the options of this development have it; the lemmas show that the
  operations refine that, and that no operation on one reference changes what another one reads.
\<close>

section \<open>The store\<close>

text \<open>A string that no reference reaches is freed, which nobody can observe; the store only grows.\<close>

type_synonym blobs = "string list"

type_synonym buffer_ref = "nat option"

definition buffer_null :: buffer_ref where
  "buffer_null = None"

definition buffer_new :: "string \<Rightarrow> blobs \<Rightarrow> buffer_ref \<times> blobs" where
  "buffer_new b st = (Some (length st), st @ [b])"

text \<open>From \<open>n\<close> bytes, and from a C string.\<close>

definition buffer_of_bytes :: "string \<Rightarrow> nat \<Rightarrow> blobs \<Rightarrow> buffer_ref \<times> blobs" where
  "buffer_of_bytes buf n st = buffer_new (take n buf) st"

definition buffer_of_cstr :: "string \<Rightarrow> blobs \<Rightarrow> buffer_ref \<times> blobs" where
  "buffer_of_cstr buf st = buffer_of_bytes buf (length (c_str_copy buf)) st"

definition buffer_copy :: "buffer_ref \<Rightarrow> buffer_ref" where
  "buffer_copy b = b"

text \<open>The new reference and what the old one is left with.\<close>

definition buffer_move :: "buffer_ref \<Rightarrow> buffer_ref \<times> buffer_ref" where
  "buffer_move b = (b, None)"

definition buffer_assign_blob :: "string \<Rightarrow> blobs \<Rightarrow> buffer_ref \<times> blobs" where
  "buffer_assign_blob b st = buffer_new b st"

definition buffer_assign_cstr :: "string \<Rightarrow> blobs \<Rightarrow> buffer_ref \<times> blobs" where
  "buffer_assign_cstr s st = buffer_new (c_str_copy s) st"

definition buffer_reset :: "buffer_ref \<Rightarrow> buffer_ref" where
  "buffer_reset b = None"

section \<open>Reading\<close>

definition buffer_is_null :: "buffer_ref \<Rightarrow> bool" where
  "buffer_is_null b \<longleftrightarrow> b = None"

definition buffer_str :: "blobs \<Rightarrow> buffer_ref \<Rightarrow> mqtt_error + string" where
  "buffer_str st b = (case b of None \<Rightarrow> Inl Null_deref | Some a \<Rightarrow> Inr (st ! a))"

definition buffer_empty :: "blobs \<Rightarrow> buffer_ref \<Rightarrow> bool" where
  "buffer_empty st b \<longleftrightarrow> (case b of None \<Rightarrow> True | Some a \<Rightarrow> st ! a = [])"

definition buffer_size :: "blobs \<Rightarrow> buffer_ref \<Rightarrow> mqtt_error + nat" where
  "buffer_size st b = (case b of None \<Rightarrow> Inl Null_deref | Some a \<Rightarrow> Inr (length (st ! a)))"

text \<open>The bytes at \<open>c_str()\<close>, as a C function reads them.\<close>

definition buffer_c_str :: "blobs \<Rightarrow> buffer_ref \<Rightarrow> mqtt_error + string" where
  "buffer_c_str st b = sbind (buffer_str st b) (\<lambda>s. Inr (c_str_copy s))"

text \<open>A constant string can be indexed at its size, where it has its terminator; beyond, it is undefined.\<close>

definition buffer_index :: "blobs \<Rightarrow> buffer_ref \<Rightarrow> nat \<Rightarrow> mqtt_error + char" where
  "buffer_index st b i =
     sbind (buffer_str st b) (\<lambda>s.
       if i < length s then Inr (s ! i) else if i = length s then Inr (CHR 0x00) else Inl Null_deref)"

text \<open>Assignment from a buffer of another character type of the same size: a copy of its bytes.\<close>

definition buffer_assign_other :: "buffer_ref \<Rightarrow> blobs \<Rightarrow> mqtt_error + buffer_ref \<times> blobs" where
  "buffer_assign_other rhs st = sbind (buffer_str st rhs) (\<lambda>s. Inr (buffer_new s st))"

definition buffer_print :: "blobs \<Rightarrow> buffer_ref \<Rightarrow> string" where
  "buffer_print st b = (if \<not> buffer_empty st b then (case b of None \<Rightarrow> [] | Some a \<Rightarrow> st ! a) else [])"

section \<open>What a reference stands for\<close>

definition buffer_ok :: "blobs \<Rightarrow> buffer_ref \<Rightarrow> bool" where
  "buffer_ok st b \<longleftrightarrow> (case b of None \<Rightarrow> True | Some a \<Rightarrow> a < length st)"

definition buffer_abs :: "blobs \<Rightarrow> buffer_ref \<Rightarrow> string option" where
  "buffer_abs st b = map_option ((!) st) b"

lemmas buffer_defs = buffer_ok_def buffer_abs_def buffer_null_def buffer_new_def buffer_of_bytes_def buffer_of_cstr_def
  buffer_copy_def buffer_move_def buffer_assign_blob_def buffer_assign_cstr_def buffer_reset_def

text \<open>Every operation that makes a reference.\<close>

inductive makes_buffer :: "blobs \<Rightarrow> string option \<Rightarrow> buffer_ref \<times> blobs \<Rightarrow> bool" for st where
  null: "makes_buffer st None (buffer_null, st)"
| new: "makes_buffer st (Some b) (buffer_new b st)"
| bytes: "makes_buffer st (Some (take n buf)) (buffer_of_bytes buf n st)"
| cstr: "makes_buffer st (Some (c_str_copy s)) (buffer_of_cstr s st)"
| copied: "buffer_ok st b \<Longrightarrow> makes_buffer st (buffer_abs st b) (buffer_copy b, st)"
| moved: "buffer_ok st b \<Longrightarrow> makes_buffer st (buffer_abs st b) (fst (buffer_move b), st)"
| emptied: "makes_buffer st None (snd (buffer_move b), st)"
| assigned: "makes_buffer st (Some b) (buffer_assign_blob b st)"
| assigned_cstr: "makes_buffer st (Some (c_str_copy s)) (buffer_assign_cstr s st)"
| assigned_other: "buffer_ok st b \<Longrightarrow> buffer_assign_other b st = Inr r \<Longrightarrow> makes_buffer st (buffer_abs st b) r"
| released: "makes_buffer st None (buffer_reset b, st)"

lemma take_c_str: "take (length (c_str_copy s)) s = c_str_copy s"
  by (simp add: c_str_copy_def takeWhile_eq_take [symmetric])

text \<open>The reference made reads what it should, and every other reference reads what it did before.\<close>

lemma buffer_made:
  "makes_buffer st v (b, st') \<Longrightarrow> buffer_ok st' b \<and> buffer_abs st' b = v
    \<and> (buffer_ok st c \<longrightarrow> buffer_ok st' c \<and> buffer_abs st' c = buffer_abs st c)"
  by (erule makes_buffer.cases)
    (auto simp: buffer_defs take_c_str nth_append buffer_assign_other_def buffer_str_def split: option.splits)

text \<open>Reading is reading the string; through a null reference it is undefined, except for the two tests and the printer.\<close>

lemma buffer_reads:
  "buffer_is_null b \<longleftrightarrow> buffer_abs st b = None"
  "buffer_empty st b \<longleftrightarrow> to_string_or_empty (buffer_abs st b) = []"
  "buffer_print st b = to_string_or_empty (buffer_abs st b)"
  "buffer_str st b = (case buffer_abs st b of None \<Rightarrow> Inl Null_deref | Some s \<Rightarrow> Inr s)"
  "buffer_size st b = (case buffer_abs st b of None \<Rightarrow> Inl Null_deref | Some s \<Rightarrow> Inr (length s))"
  by (auto simp: buffer_abs_def buffer_is_null_def buffer_empty_def buffer_print_def buffer_str_def buffer_size_def
      to_string_or_empty_def split: option.split)

text \<open>What the C library reads through \<open>c_str\<close> is the whole string exactly when it holds no NUL.\<close>

lemma buffer_c_str_whole:
  "buffer_abs st b = Some s \<Longrightarrow> buffer_c_str st b = Inr s \<longleftrightarrow> CHR 0x00 \<notin> set s"
  by (auto simp: buffer_c_str_def buffer_reads c_str_copy_def takeWhile_eq_all_conv)

lemma buffer_index_in_range:
  "buffer_abs st b = Some s \<Longrightarrow> (\<exists>c. buffer_index st b i = Inr c) \<longleftrightarrow> i \<le> length s"
  by (auto simp: buffer_index_def buffer_reads)

end
