(* ===== verification/Mqtt_Properties.thy ===== *)
theory Mqtt_Properties
  imports Mqtt_Message
begin

text \<open>
  The class \<open>property\<close> of \<open>properties.h\<close> and \<open>properties.cpp\<close> (\<open>controller/deps/paho.mqtt.cpp\<close>): one property
  of an MQTT 5 packet, kept in a C structure with a union. Which kind of value a code has is told by the
  C library (\<open>MQTTProperty_getType\<close>), here the argument \<open>ty\<close>.
\<close>

section \<open>The structure\<close>

datatype prop_kind =
    Kind_byte | Kind_two_byte | Kind_four_byte | Kind_variable_byte | Kind_binary | Kind_string | Kind_pair | Kind_other

text \<open>A pointer of the structure: null, to a buffer the property owns, or never initialised.\<close>

datatype buffer = Null | Owned string | Uninit

text \<open>
  The union overlays the integers with the length of the first string: \<open>v_word\<close> is both, read at its low
  end for the shorter integers (the machine is little-endian).
\<close>

record mqtt_property =
  p_code :: int
  v_word :: "32 word"
  v_data :: buffer
  v_len2 :: "32 word"
  v_data2 :: buffer

definition raw_property :: "int \<Rightarrow> mqtt_property" where
  "raw_property c = \<lparr>p_code = c, v_word = 0, v_data = Uninit, v_len2 = 0, v_data2 = Uninit\<rparr>"

definition zero_property :: mqtt_property where
  "zero_property = \<lparr>p_code = 0, v_word = 0, v_data = Null, v_len2 = 0, v_data2 = Null\<rparr>"

section \<open>Constructors, copies and the destructor\<close>

text \<open>An integer for a code that has no integer kind leaves the union as it was.\<close>

definition property_int :: "(int \<Rightarrow> prop_kind) \<Rightarrow> int \<Rightarrow> int \<Rightarrow> mqtt_property" where
  "property_int ty c v =
     (let p = raw_property c
      in case ty c of
           Kind_byte \<Rightarrow> p\<lparr>v_word := ucast (word_of_int v :: 8 word)\<rparr>
         | Kind_two_byte \<Rightarrow> p\<lparr>v_word := ucast (word_of_int v :: 16 word)\<rparr>
         | Kind_four_byte \<Rightarrow> p\<lparr>v_word := word_of_int v\<rparr>
         | Kind_variable_byte \<Rightarrow> p\<lparr>v_word := word_of_int v\<rparr>
         | _ \<Rightarrow> p)"

definition property_string :: "int \<Rightarrow> string \<Rightarrow> mqtt_property" where
  "property_string c s = (raw_property c)\<lparr>v_word := word_of_nat (length s), v_data := Owned s\<rparr>"

definition property_pair :: "int \<Rightarrow> string \<Rightarrow> string \<Rightarrow> mqtt_property" where
  "property_pair c n s = (raw_property c)\<lparr>v_word := word_of_nat (length n), v_data := Owned n,
     v_len2 := word_of_nat (length s), v_data2 := Owned s\<rparr>"

text \<open>\<open>copy\<close> duplicates the strings that the kind says are there. \<^term>\<open>None\<close>: it reads through a bad pointer,
  or past the end (a length is an \<open>int\<close>: from \<open>2 ^ 31\<close> on it is negative, and a huge \<open>size_t\<close>).\<close>

fun copy_buffer :: "buffer \<Rightarrow> 32 word \<Rightarrow> buffer option" where
  "copy_buffer (Owned s) n = (if unat n < 2 ^ 31 \<and> unat n \<le> length s then Some (Owned (take (unat n) s)) else None)"
| "copy_buffer Null n = (if n = 0 then Some (Owned []) else None)"
| "copy_buffer Uninit n = None"

definition property_copy :: "(int \<Rightarrow> prop_kind) \<Rightarrow> mqtt_property \<Rightarrow> mqtt_property option" where
  "property_copy ty q =
     (let data = (\<lambda>p. map_option (\<lambda>b. p\<lparr>v_data := b\<rparr>) (copy_buffer (v_data q) (v_word q)))
      in case ty (p_code q) of
           Kind_pair \<Rightarrow>
             (case copy_buffer (v_data2 q) (v_len2 q) of None \<Rightarrow> None | Some b \<Rightarrow> data (q\<lparr>v_data2 := b\<rparr>))
         | Kind_binary \<Rightarrow> data q
         | Kind_string \<Rightarrow> data q
         | _ \<Rightarrow> Some q)"

text \<open>The move constructor takes the pointers and zeroes the source.\<close>

definition property_move :: "mqtt_property \<Rightarrow> mqtt_property \<times> mqtt_property" where
  "property_move q = (q, zero_property)"

text \<open>The destructor frees what the kind says is there: whether it is defined.\<close>

definition free_ok :: "buffer \<Rightarrow> bool" where
  "free_ok b \<longleftrightarrow> b \<noteq> Uninit"

definition destroy_ok :: "(int \<Rightarrow> prop_kind) \<Rightarrow> mqtt_property \<Rightarrow> bool" where
  "destroy_ok ty p \<longleftrightarrow>
     (case ty (p_code p) of
        Kind_pair \<Rightarrow> free_ok (v_data2 p) \<and> free_ok (v_data p)
      | Kind_binary \<Rightarrow> free_ok (v_data p)
      | Kind_string \<Rightarrow> free_ok (v_data p)
      | _ \<Rightarrow> True)"

section \<open>Reading\<close>

definition get_u8 :: "mqtt_property \<Rightarrow> 8 word" where
  "get_u8 p = ucast (v_word p)"

definition get_u16 :: "mqtt_property \<Rightarrow> 16 word" where
  "get_u16 p = ucast (v_word p)"

definition get_i16 :: "mqtt_property \<Rightarrow> int" where
  "get_i16 p = sint (ucast (v_word p) :: 16 word)"

definition get_u32 :: "mqtt_property \<Rightarrow> 32 word" where
  "get_u32 p = v_word p"

definition get_i32 :: "mqtt_property \<Rightarrow> int" where
  "get_i32 p = sint (v_word p)"

text \<open>\<open>std::string(data, len)\<close>; \<^term>\<open>None\<close>: the buffer is shorter, or the pointer was never set.\<close>

fun read_buffer :: "buffer \<Rightarrow> 32 word \<Rightarrow> string option" where
  "read_buffer Null n = Some []"
| "read_buffer (Owned s) n = (if unat n < 2 ^ 31 \<and> unat n \<le> length s then Some (take (unat n) s) else None)"
| "read_buffer Uninit n = None"

definition get_string :: "mqtt_property \<Rightarrow> string option" where
  "get_string p = read_buffer (v_data p) (v_word p)"

definition get_pair :: "mqtt_property \<Rightarrow> (string \<times> string) option" where
  "get_pair p =
     (case read_buffer (v_data p) (v_word p) of None \<Rightarrow> None
      | Some n \<Rightarrow> map_option (\<lambda>v. (n, v)) (read_buffer (v_data2 p) (v_len2 p)))"

section \<open>Names and printing\<close>

definition TYPE_NAME :: "(int \<times> string) list" where
  "TYPE_NAME = [(1, ''PayloadFormatIndicator''), (2, ''MessageExpiryInterval''), (3, ''ContentType''), (8, ''ResponseTopic''),
     (9, ''CorrelationData''), (11, ''SubscriptionIdentifier''), (17, ''SessionExpiryInterval''),
     (18, ''AssignedClientIdentifer''), (19, ''ServerKeepAlive''), (21, ''AuthenticationMethod''),
     (22, ''AuthenticationData''), (23, ''RequestProblemInformation''), (24, ''WillDelayInterval''),
     (25, ''RequestResponseInformation''), (26, ''ResponseInformation''), (28, ''ServerReference''), (31, ''ReasonString''),
     (33, ''ReceiveMaximum''), (34, ''TopicAliasMaximum''), (35, ''TopicAlias''), (36, ''MaximumQos''), (37, ''RetainAvailable''),
     (38, ''UserProperty''), (39, ''MaximumPacketSize''), (40, ''WildcardSubscriptionAvailable''),
     (41, ''SubscriptionIdentifiersAvailable''), (42, ''SharedSubscriptionAvailable'')]"

definition type_name :: "mqtt_property \<Rightarrow> string" where
  "type_name p = (case map_of TYPE_NAME (p_code p) of None \<Rightarrow> ''Unknown'' | Some s \<Rightarrow> s)"

definition hex_char :: "nat \<Rightarrow> char" where
  "hex_char d = char_of (if d < 10 then 48 + d else 87 + d)"

fun hex_string :: "nat \<Rightarrow> string" where
  "hex_string n = (if n < 16 then [hex_char n] else hex_string (n div 16) @ [hex_char (n mod 16)])"

declare hex_string.simps [simp del]

text \<open>\<open>unsigned(bin[i])\<close>: a \<open>char\<close> is signed, and converts to 32 bits with its sign.\<close>

definition byte_text :: "char \<Rightarrow> string" where
  "byte_text ch = ''0x'' @ hex_string (unat (scast (word_of_nat (of_char ch) :: 8 word) :: 32 word))"

definition binary_text :: "string \<Rightarrow> string" where
  "binary_text bs =
     ''['' @ (if bs = [] then [] else concat (map (\<lambda>ch. byte_text ch @ '', '') (butlast bs)) @ byte_text (last bs)) @ '']''"

definition print_property :: "(int \<Rightarrow> prop_kind) \<Rightarrow> mqtt_property \<Rightarrow> string option" where
  "print_property ty p =
     map_option (\<lambda>s. type_name p @ '': '' @ s)
       (case ty (p_code p) of
          Kind_byte \<Rightarrow> Some (nat_to_string (unat (get_u8 p)))
        | Kind_two_byte \<Rightarrow> Some (nat_to_string (unat (get_u16 p)))
        | Kind_four_byte \<Rightarrow> Some (nat_to_string (unat (get_u32 p)))
        | Kind_variable_byte \<Rightarrow> Some (nat_to_string (unat (get_u32 p)))
        | Kind_binary \<Rightarrow> map_option binary_text (get_string p)
        | Kind_string \<Rightarrow> get_string p
        | Kind_pair \<Rightarrow> map_option (\<lambda>(n, v). ''('' @ n @ '','' @ v @ '')'') (get_pair p)
        | Kind_other \<Rightarrow> Some [])"

section \<open>Facts\<close>

text \<open>What was put in comes out: integers modulo the width of their kind, strings as they are.\<close>

lemma ucast_up_down:
  "ucast (ucast (w :: 8 word) :: 32 word) = w"
  "ucast (ucast (x :: 16 word) :: 32 word) = x"
  by (simp_all add: is_up is_down ucast_up_ucast_id)

lemma int_roundtrip:
  "ty c = Kind_byte \<Longrightarrow> get_u8 (property_int ty c v) = word_of_int v"
  "ty c = Kind_two_byte \<Longrightarrow> get_u16 (property_int ty c v) = word_of_int v"
  "ty c = Kind_four_byte \<Longrightarrow> get_u32 (property_int ty c v) = word_of_int v"
  "ty c = Kind_variable_byte \<Longrightarrow> get_u32 (property_int ty c v) = word_of_int v"
  by (simp_all only: property_int_def get_u8_def get_u16_def get_u32_def Let_def raw_property_def ucast_up_down
      prop_kind.case mqtt_property.simps)

lemma unat_length:
  assumes "length s < 2 ^ 31"
  shows "unat (word_of_nat (length s) :: 32 word) = length s"
proof -
  have "length s < 2 ^ 32" using assms by simp
  then show ?thesis by (simp add: unat_of_nat take_bit_nat_eq_self)
qed

lemma string_roundtrip: "length s < 2 ^ 31 \<Longrightarrow> get_string (property_string c s) = Some s"
  by (simp add: get_string_def property_string_def unat_length del: power_numeral)

lemma pair_roundtrip:
  "length n < 2 ^ 31 \<Longrightarrow> length s < 2 ^ 31 \<Longrightarrow> get_pair (property_pair c n s) = Some (n, s)"
  by (simp add: get_pair_def property_pair_def unat_length del: power_numeral)

text \<open>A property that owns what its kind needs can be copied, and the copy reads the same; it can be
  destroyed, and so can what a move leaves behind.\<close>

definition owns :: "buffer \<Rightarrow> 32 word \<Rightarrow> bool" where
  "owns b n \<longleftrightarrow> (case b of Owned s \<Rightarrow> unat n = length s \<and> unat n < 2 ^ 31 | _ \<Rightarrow> False)"

definition property_ok :: "(int \<Rightarrow> prop_kind) \<Rightarrow> mqtt_property \<Rightarrow> bool" where
  "property_ok ty p \<longleftrightarrow>
     (case ty (p_code p) of
        Kind_pair \<Rightarrow> owns (v_data p) (v_word p) \<and> owns (v_data2 p) (v_len2 p)
      | Kind_binary \<Rightarrow> owns (v_data p) (v_word p)
      | Kind_string \<Rightarrow> owns (v_data p) (v_word p)
      | _ \<Rightarrow> True)"

lemma copy_owned: "owns b n \<Longrightarrow> copy_buffer b n = Some b"
  by (cases b) (simp_all add: owns_def)

lemma property_copy_same: "property_ok ty p \<Longrightarrow> property_copy ty p = Some p"
  by (auto simp: property_ok_def property_copy_def copy_owned split: prop_kind.splits)

lemma property_destroyed: "property_ok ty p \<Longrightarrow> destroy_ok ty p"
  by (auto simp: property_ok_def destroy_ok_def free_ok_def owns_def split: prop_kind.splits buffer.splits)

lemma moved_from_destroyed: "destroy_ok ty (snd (property_move p))"
  by (auto simp: property_move_def zero_property_def destroy_ok_def free_ok_def split: prop_kind.split)

lemma owns_fresh: "length s < 2 ^ 31 \<Longrightarrow> owns (Owned s) (word_of_nat (length s))"
  by (simp only: owns_def buffer.case unat_length simp_thms)

lemma built_property_ok:
  "ty c \<in> {Kind_byte, Kind_two_byte, Kind_four_byte, Kind_variable_byte} \<Longrightarrow> property_ok ty (property_int ty c v)"
  "length s < 2 ^ 31 \<Longrightarrow> ty c \<noteq> Kind_pair \<Longrightarrow> property_ok ty (property_string c s)"
  "length n < 2 ^ 31 \<Longrightarrow> length s < 2 ^ 31 \<Longrightarrow> property_ok ty (property_pair c n s)"
  subgoal by (auto simp: property_ok_def property_int_def raw_property_def)
  subgoal using owns_fresh[of s]
    by (cases "ty c") (simp_all only: property_ok_def property_string_def raw_property_def prop_kind.case mqtt_property.simps simp_thms)
  subgoal using owns_fresh[of s] owns_fresh[of n]
    by (cases "ty c") (simp_all only: property_ok_def property_pair_def raw_property_def prop_kind.case mqtt_property.simps simp_thms)
  done

text \<open>An integer given for a code of a string kind makes a property whose destructor frees a pointer that was
  never set, and whose copy reads through it.\<close>

lemma wrong_kind_is_undefined:
  assumes "ty c \<in> {Kind_binary, Kind_string, Kind_pair}"
  shows "\<not> destroy_ok ty (property_int ty c v) \<and> property_copy ty (property_int ty c v) = None"
  using assms by (auto simp: property_int_def raw_property_def destroy_ok_def free_ok_def property_copy_def Let_def)

text \<open>A byte from 0x80 on is printed with its sign extended.\<close>

lemma sign_extended_80: "unat (scast (0x80 :: 8 word) :: 32 word) = 4294967168"
  by simp

lemma hex_char_digits: "hex_char 8 = CHR ''8''" "hex_char 0 = CHR ''0''" "hex_char 15 = CHR ''f''"
  by code_simp+

lemma high_byte_text: "byte_text (CHR 0x80) = ''0xffffff80''"
  by (simp add: byte_text_def sign_extended_80 hex_char_digits hex_string.simps)

end
