(* ===== verification/Mqtt_Property_Memory.thy ===== *)
theory Mqtt_Property_Memory
  imports Mqtt_Properties
begin

text \<open>
  The rest of the class \<open>property\<close> (\<open>properties.h\<close>, \<open>properties.cpp\<close> of \<open>controller/deps/paho.mqtt.cpp\<close>): the codes,
  the type a property's value has, and the assignments with the memory they lose. A string that a property
  owns is freed by its destructor and by nothing else.
\<close>

section \<open>Codes\<close>

datatype property_code = Payload_format_indicator | Message_expiry_interval | Content_type | Response_topic | Correlation_data
  | Subscription_identifier | Session_expiry_interval | Assigned_client_identifier | Server_keep_alive
  | Authentication_method | Authentication_data | Request_problem_information | Will_delay_interval
  | Request_response_information | Response_information | Server_reference | Reason_string | Receive_maximum
  | Topic_alias_maximum | Topic_alias | Maximum_qos | Retain_available | User_property | Maximum_packet_size
  | Wildcard_subscription_available | Subscription_identifiers_available | Shared_subscription_available

fun code_number :: "property_code \<Rightarrow> int" where
  "code_number Payload_format_indicator = 1"
| "code_number Message_expiry_interval = 2"
| "code_number Content_type = 3"
| "code_number Response_topic = 8"
| "code_number Correlation_data = 9"
| "code_number Subscription_identifier = 11"
| "code_number Session_expiry_interval = 17"
| "code_number Assigned_client_identifier = 18"
| "code_number Server_keep_alive = 19"
| "code_number Authentication_method = 21"
| "code_number Authentication_data = 22"
| "code_number Request_problem_information = 23"
| "code_number Will_delay_interval = 24"
| "code_number Request_response_information = 25"
| "code_number Response_information = 26"
| "code_number Server_reference = 28"
| "code_number Reason_string = 31"
| "code_number Receive_maximum = 33"
| "code_number Topic_alias_maximum = 34"
| "code_number Topic_alias = 35"
| "code_number Maximum_qos = 36"
| "code_number Retain_available = 37"
| "code_number User_property = 38"
| "code_number Maximum_packet_size = 39"
| "code_number Wildcard_subscription_available = 40"
| "code_number Subscription_identifiers_available = 41"
| "code_number Shared_subscription_available = 42"

lemma code_number_inject: "code_number c = code_number c' \<longleftrightarrow> c = c'"
  by (cases c; cases c') simp_all

text \<open>The table of names has every code, once.\<close>

lemma names_are_complete: "distinct (map fst TYPE_NAME) \<and> code_number c \<in> set (map fst TYPE_NAME)"
  by (cases c) (simp_all add: TYPE_NAME_def)

section \<open>Types of values\<close>

datatype value_type = Type_uint8 | Type_uint16 | Type_uint32 | Type_binary | Type_string | Type_string_pair | Type_int

fun kind_type :: "prop_kind \<Rightarrow> value_type" where
  "kind_type Kind_byte = Type_uint8"
| "kind_type Kind_two_byte = Type_uint16"
| "kind_type Kind_four_byte = Type_uint32"
| "kind_type Kind_variable_byte = Type_uint32"
| "kind_type Kind_binary = Type_binary"
| "kind_type Kind_string = Type_string"
| "kind_type Kind_pair = Type_string_pair"
| "kind_type Kind_other = Type_int"

definition value_type_id :: "(int \<Rightarrow> prop_kind) \<Rightarrow> mqtt_property \<Rightarrow> value_type" where
  "value_type_id ty p = kind_type (ty (p_code p))"

section \<open>Assignments\<close>

text \<open>The buffers that the destructor would free.\<close>

fun buffers_of :: "buffer \<Rightarrow> string list" where
  "buffers_of (Owned s) = [s]"
| "buffers_of Null = []"
| "buffers_of Uninit = []"

definition held :: "(int \<Rightarrow> prop_kind) \<Rightarrow> mqtt_property \<Rightarrow> string list" where
  "held ty p =
     (case ty (p_code p) of
        Kind_pair \<Rightarrow> buffers_of (v_data2 p) @ buffers_of (v_data p)
      | Kind_binary \<Rightarrow> buffers_of (v_data p)
      | Kind_string \<Rightarrow> buffers_of (v_data p)
      | _ \<Rightarrow> [])"

text \<open>\<open>same\<close> says that both sides are one object. The last component is what is lost: buffers that no property
  points at any more and that were not freed.\<close>

definition property_assign ::
  "(int \<Rightarrow> prop_kind) \<Rightarrow> bool \<Rightarrow> mqtt_property \<Rightarrow> mqtt_property \<Rightarrow> (mqtt_property \<times> string list) option" where
  "property_assign ty same p q =
     (if same then Some (p, []) else map_option (\<lambda>r. (r, held ty p)) (property_copy ty q))"

definition property_move_assign ::
  "(int \<Rightarrow> prop_kind) \<Rightarrow> bool \<Rightarrow> mqtt_property \<Rightarrow> mqtt_property \<Rightarrow> mqtt_property \<times> mqtt_property \<times> string list" where
  "property_move_assign ty same p q = (if same then (p, q, []) else (q, zero_property, held ty p))"

text \<open>An assignment gives a property equal to its source, and loses what the target held; a property that held no
  string loses nothing.\<close>

lemma property_assign_outcome:
  assumes "property_ok ty q"
  shows "property_assign ty False p q = Some (q, held ty p)"
  using property_copy_same [OF assms] by (simp add: property_assign_def)

lemma integers_lose_nothing:
  "ty (p_code p) \<notin> {Kind_pair, Kind_binary, Kind_string} \<Longrightarrow> held ty p = []"
  by (cases "ty (p_code p)") (simp_all add: held_def)

text \<open>The iterator over a list assigns each element, as a temporary copy, to the one property it refers to: it loses
  every value but the last.\<close>

fun assign_all :: "(int \<Rightarrow> prop_kind) \<Rightarrow> mqtt_property list \<Rightarrow> mqtt_property \<Rightarrow> (mqtt_property \<times> string list) option" where
  "assign_all ty [] p = Some (p, [])"
| "assign_all ty (q # qs) p =
     (case property_copy ty q of
        None \<Rightarrow> None
      | Some t \<Rightarrow>
          (case property_move_assign ty False p t of
             (r, _, lost) \<Rightarrow> map_option (map_prod (\<lambda>r. r) (\<lambda>more. lost @ more)) (assign_all ty qs r)))"

lemma assignments_lose_all_but_last:
  "(\<forall>q \<in> set qs. property_ok ty q) \<Longrightarrow> qs \<noteq> [] \<Longrightarrow>
    assign_all ty qs p = Some (last qs, held ty p @ concat (map (held ty) (butlast qs)))"
proof (induction qs arbitrary: p)
  case (Cons q qs)
  show ?case
  proof (cases qs)
    case Nil
    then show ?thesis using Cons.prems by (simp add: property_copy_same property_move_assign_def)
  next
    case (Cons q' qs')
    have rest: "assign_all ty qs q = Some (last qs, held ty q @ concat (map (held ty) (butlast qs)))"
      using Cons.IH [of q] Cons.prems Cons by auto
    have "assign_all ty (q # qs) p = map_option (map_prod (\<lambda>r. r) (\<lambda>more. held ty p @ more)) (assign_all ty qs q)"
      using Cons.prems by (simp add: property_copy_same property_move_assign_def)
    then show ?thesis unfolding rest by (simp add: Cons)
  qed
qed simp

text \<open>A move assignment leaves a source that can be destroyed.\<close>

lemma move_assigned_source_ok: "destroy_ok ty (fst (snd (property_move_assign ty False p q)))"
  using moved_from_destroyed [of ty q] by (simp add: property_move_assign_def property_move_def)

end
