(* ===== verification/Mqtt_Property_List.thy ===== *)
theory Mqtt_Property_List
  imports Mqtt_Properties
begin

text \<open>
  The class \<open>properties\<close> of \<open>properties.h\<close> (\<open>controller/deps/paho.mqtt.cpp\<close>): the list of the properties of a packet.
  The list itself is a structure of the C library, which its functions allocate, copy and search; they
  are the argument \<open>lib\<close>, and \<open>props_lib_ok\<close> states what their documentation promises.
\<close>

section \<open>The C library's lists\<close>

record 'c props_lib =
  pl_initializer :: 'c
  pl_add :: "mqtt_property \<Rightarrow> 'c \<Rightarrow> 'c"
  pl_copy :: "'c \<Rightarrow> 'c"
  pl_free :: "'c \<Rightarrow> 'c"
  pl_count :: "'c \<Rightarrow> nat"
  pl_array :: "'c \<Rightarrow> nat \<Rightarrow> mqtt_property"
  pl_has :: "int \<Rightarrow> 'c \<Rightarrow> bool"
  pl_property_count :: "int \<Rightarrow> 'c \<Rightarrow> nat"
  pl_get_at :: "int \<Rightarrow> int \<Rightarrow> 'c \<Rightarrow> mqtt_property option"

section \<open>The class\<close>

datatype props_error = Props_bad_cast | Props_out_of_range | Props_undefined

definition props_new :: "'c props_lib \<Rightarrow> 'c" where
  "props_new lib = pl_initializer lib"

definition props_of :: "'c props_lib \<Rightarrow> mqtt_property list \<Rightarrow> 'c" where
  "props_of lib ps = fold (pl_add lib) ps (props_new lib)"

definition props_copy :: "'c props_lib \<Rightarrow> 'c \<Rightarrow> 'c" where
  "props_copy lib c = pl_copy lib c"

text \<open>The move constructor and what it leaves: a structure of zeros, which is the initialiser's value.\<close>

definition props_move :: "'c props_lib \<Rightarrow> 'c \<Rightarrow> 'c \<times> 'c" where
  "props_move lib c = (c, pl_initializer lib)"

text \<open>\<open>same\<close>: an object is assigned to itself. Whatever was there is freed first.\<close>

definition props_assign :: "'c props_lib \<Rightarrow> bool \<Rightarrow> 'c \<Rightarrow> 'c \<Rightarrow> 'c" where
  "props_assign lib same c rhs = (if same then c else pl_copy lib rhs)"

definition props_move_assign :: "'c props_lib \<Rightarrow> bool \<Rightarrow> 'c \<Rightarrow> 'c \<Rightarrow> 'c \<times> 'c" where
  "props_move_assign lib same c rhs = (if same then (c, c) else (rhs, pl_initializer lib))"

definition props_add :: "'c props_lib \<Rightarrow> mqtt_property \<Rightarrow> 'c \<Rightarrow> 'c" where
  "props_add lib p c = pl_add lib p c"

definition props_clear :: "'c props_lib \<Rightarrow> 'c \<Rightarrow> 'c" where
  "props_clear lib c = pl_free lib c"

definition props_size :: "'c props_lib \<Rightarrow> 'c \<Rightarrow> nat" where
  "props_size lib c = pl_count lib c"

definition props_empty :: "'c props_lib \<Rightarrow> 'c \<Rightarrow> bool" where
  "props_empty lib c \<longleftrightarrow> pl_count lib c = 0"

definition props_contains :: "'c props_lib \<Rightarrow> int \<Rightarrow> 'c \<Rightarrow> bool" where
  "props_contains lib code c = pl_has lib code c"

definition props_count :: "'c props_lib \<Rightarrow> int \<Rightarrow> 'c \<Rightarrow> nat" where
  "props_count lib code c = pl_property_count lib code c"

text \<open>A property that is handed out is a copy: \<open>property{prop}\<close>.\<close>

definition copied :: "(int \<Rightarrow> prop_kind) \<Rightarrow> mqtt_property \<Rightarrow> props_error + mqtt_property" where
  "copied ty p = (case property_copy ty p of None \<Rightarrow> Inl Props_undefined | Some q \<Rightarrow> Inr q)"

definition props_index :: "'c props_lib \<Rightarrow> (int \<Rightarrow> prop_kind) \<Rightarrow> nat \<Rightarrow> 'c \<Rightarrow> props_error + mqtt_property" where
  "props_index lib ty i c = (if i < pl_count lib c then copied ty (pl_array lib c i) else Inl Props_undefined)"

definition props_at :: "'c props_lib \<Rightarrow> (int \<Rightarrow> prop_kind) \<Rightarrow> nat \<Rightarrow> 'c \<Rightarrow> props_error + mqtt_property" where
  "props_at lib ty i c = (if i < pl_count lib c then copied ty (pl_array lib c i) else Inl Props_out_of_range)"

text \<open>\<open>get\<close>: the index becomes an \<open>int\<close>.\<close>

definition props_get :: "'c props_lib \<Rightarrow> (int \<Rightarrow> prop_kind) \<Rightarrow> int \<Rightarrow> nat \<Rightarrow> 'c \<Rightarrow> props_error + mqtt_property" where
  "props_get lib ty code idx c =
     (case pl_get_at lib code (to_int32 (int idx)) c of None \<Rightarrow> Inl Props_bad_cast | Some p \<Rightarrow> copied ty p)"

text \<open>The function template \<open>get<T>\<close>, for a reading \<open>f\<close> of one property.\<close>

definition props_get_as ::
  "'c props_lib \<Rightarrow> (int \<Rightarrow> prop_kind) \<Rightarrow> (mqtt_property \<Rightarrow> 'a option) \<Rightarrow> int \<Rightarrow> nat \<Rightarrow> 'c \<Rightarrow> props_error + 'a" where
  "props_get_as lib ty f code idx c =
     sbind (props_get lib ty code idx c) (\<lambda>p. case f p of None \<Rightarrow> Inl Props_undefined | Some x \<Rightarrow> Inr x)"

text \<open>What a loop from \<open>begin()\<close> to \<open>end()\<close> sees: a copy of each element.\<close>

definition props_iterate :: "'c props_lib \<Rightarrow> (int \<Rightarrow> prop_kind) \<Rightarrow> 'c \<Rightarrow> (props_error + mqtt_property) list" where
  "props_iterate lib ty c = map (\<lambda>i. copied ty (pl_array lib c i)) [0..<pl_count lib c]"

section \<open>What the C library promises\<close>

text \<open>A property that the library takes: it owns what its kind needs, and its code has a kind.\<close>

definition valid_property :: "(int \<Rightarrow> prop_kind) \<Rightarrow> mqtt_property \<Rightarrow> bool" where
  "valid_property ty p \<longleftrightarrow> property_ok ty p \<and> ty (p_code p) \<noteq> Kind_other"

text \<open>\<open>rep\<close> is the list of properties that a structure holds, in the order in which they were added. Adding a valid
  property is taken to succeed. \<open>MQTTProperties_add\<close> can also fail, for lack of memory or of room in a packet;
  \<open>properties::add\<close> ignores its result, so the property is then missing and nobody is told, which the
  theorems here do not cover.\<close>

definition props_lib_ok :: "'c props_lib \<Rightarrow> (int \<Rightarrow> prop_kind) \<Rightarrow> ('c \<Rightarrow> mqtt_property list) \<Rightarrow> bool" where
  "props_lib_ok lib ty rep \<longleftrightarrow>
     rep (pl_initializer lib) = []
     \<and> (\<forall>p c. valid_property ty p \<longrightarrow> rep (pl_add lib p c) = rep c @ [p])
     \<and> (\<forall>c. list_all (valid_property ty) (rep c) \<longrightarrow> rep (pl_copy lib c) = rep c)
     \<and> (\<forall>c. rep (pl_free lib c) = [])
     \<and> (\<forall>c. pl_count lib c = length (rep c))
     \<and> (\<forall>c i. i < length (rep c) \<longrightarrow> pl_array lib c i = rep c ! i)
     \<and> (\<forall>code c. pl_has lib code c = (code \<in> p_code ` set (rep c)))
     \<and> (\<forall>code c. pl_property_count lib code c = length (filter (\<lambda>p. p_code p = code) (rep c)))
     \<and> (\<forall>code i c. 0 \<le> i \<longrightarrow> pl_get_at lib code i c =
          (let ps = filter (\<lambda>p. p_code p = code) (rep c) in if nat i < length ps then Some (ps ! nat i) else None))"

lemma copied_valid: "valid_property ty p \<Longrightarrow> copied ty p = Inr p"
  by (simp add: copied_def valid_property_def property_copy_same)

lemma fold_add_rep:
  "props_lib_ok lib ty rep \<Longrightarrow> list_all (valid_property ty) ps \<Longrightarrow> rep (fold (pl_add lib) ps c) = rep c @ ps"
proof (induction ps arbitrary: c)
  case (Cons p ps)
  then have "rep (pl_add lib p c) = rep c @ [p]" by (simp add: props_lib_ok_def)
  with Cons show ?case by simp
qed simp

lemma props_of_rep: "props_lib_ok lib ty rep \<Longrightarrow> list_all (valid_property ty) ps \<Longrightarrow> rep (props_of lib ps) = ps"
  using fold_add_rep [of lib ty rep ps "props_new lib"] by (simp add: props_of_def props_new_def props_lib_ok_def)

text \<open>The operations, on the list that the structure stands for.\<close>

lemma props_ops_rep:
  assumes "props_lib_ok lib ty rep" and "list_all (valid_property ty) (rep c)"
  shows "rep (props_copy lib c) = rep c" "rep (fst (props_move lib c)) = rep c" "rep (snd (props_move lib c)) = []"
    "rep (props_assign lib False c' c) = rep c" "rep (fst (props_move_assign lib False c' c)) = rep c"
    "rep (props_clear lib c) = []" "valid_property ty p \<Longrightarrow> rep (props_add lib p c) = rep c @ [p]"
  using assms
  by (simp_all add: props_lib_ok_def props_copy_def props_move_def props_assign_def props_move_assign_def props_clear_def
      props_add_def)

lemma props_at_rep:
  assumes "props_lib_ok lib ty rep" and "list_all (valid_property ty) (rep c)"
  shows "props_at lib ty i c = (if i < length (rep c) then Inr (rep c ! i) else Inl Props_out_of_range)"
proof (cases "i < length (rep c)")
  case True
  then have "valid_property ty (rep c ! i)" using assms(2) by (simp add: list_all_length)
  with True assms(1) show ?thesis by (simp add: props_at_def props_lib_ok_def copied_valid)
qed (use assms(1) in \<open>simp add: props_at_def props_lib_ok_def\<close>)

lemma props_iterate_rep:
  assumes "props_lib_ok lib ty rep" and "list_all (valid_property ty) (rep c)"
  shows "props_iterate lib ty c = map Inr (rep c)"
proof (rule nth_equalityI)
  show "length (props_iterate lib ty c) = length (map Inr (rep c))"
    using assms(1) by (simp add: props_iterate_def props_lib_ok_def)
  fix i assume "i < length (props_iterate lib ty c)"
  then have "i < length (rep c)" using assms(1) by (simp add: props_iterate_def props_lib_ok_def)
  then show "props_iterate lib ty c ! i = map Inr (rep c) ! i"
    using assms by (simp add: props_iterate_def props_lib_ok_def copied_valid list_all_length)
qed

lemma props_counted:
  assumes "props_lib_ok lib ty rep"
  shows "props_contains lib code c \<longleftrightarrow> 0 < props_count lib code c" "props_empty lib c \<longleftrightarrow> props_size lib c = 0"
  using assms by (auto simp: props_lib_ok_def props_contains_def props_count_def props_empty_def props_size_def filter_empty_conv)

lemma to_int32_small: "n < 2 ^ 31 \<Longrightarrow> to_int32 (int n) = int n"
  by (simp add: to_int32_id)

text \<open>\<open>get\<close> finds the properties of a code in the order in which they were added, and throws behind the last.\<close>

lemma props_get_rep:
  assumes "props_lib_ok lib ty rep" and "list_all (valid_property ty) (rep c)" and "idx < 2 ^ 31"
  shows "props_get lib ty code idx c =
    (let ps = filter (\<lambda>p. p_code p = code) (rep c) in if idx < length ps then Inr (ps ! idx) else Inl Props_bad_cast)"
proof -
  let ?ps = "filter (\<lambda>p. p_code p = code) (rep c)"
  have at: "pl_get_at lib code (int idx) c = (if idx < length ?ps then Some (?ps ! idx) else None)"
    using assms(1) by (simp add: props_lib_ok_def Let_def)
  have "valid_property ty (?ps ! idx)" if "idx < length ?ps"
    using nth_mem [OF that] assms(2) by (auto simp: list_all_iff)
  then show ?thesis using at by (simp add: props_get_def to_int32_small [OF assms(3)] copied_valid Let_def)
qed

text \<open>A text that was put in comes out of every copy of the list, as a string.\<close>

lemma string_in_list:
  assumes "props_lib_ok lib ty rep" and "ty code = Kind_string" and "length s < 2 ^ 31"
  shows "props_get_as lib ty get_string code 0 (props_copy lib (props_of lib [property_string code s])) = Inr s"
proof -
  have "property_ok ty (property_string code s)" using assms(2,3) by (intro built_property_ok) simp_all
  then have ok: "list_all (valid_property ty) [property_string code s]"
    using assms(2) by (simp add: valid_property_def property_string_def raw_property_def)
  let ?c = "props_copy lib (props_of lib [property_string code s])"
  have rep: "rep ?c = [property_string code s]"
    using props_ops_rep(1) [OF assms(1)] props_of_rep [OF assms(1) ok] ok by simp
  have "props_get lib ty code 0 ?c = Inr (property_string code s)"
    using props_get_rep [OF assms(1), of ?c 0 code] rep ok by (simp add: property_string_def raw_property_def)
  then show ?thesis using string_roundtrip [OF assms(3), of code] by (simp add: props_get_as_def)
qed

text \<open>The promises can be kept: by lists.\<close>

definition list_props_lib :: "mqtt_property list props_lib" where
  "list_props_lib =
     \<lparr>pl_initializer = [], pl_add = (\<lambda>p c. c @ [p]), pl_copy = (\<lambda>c. c), pl_free = (\<lambda>_. []), pl_count = length,
      pl_array = (\<lambda>c i. c ! i), pl_has = (\<lambda>code c. code \<in> p_code ` set c),
      pl_property_count = (\<lambda>code c. length (filter (\<lambda>p. p_code p = code) c)),
      pl_get_at = (\<lambda>code i c. let ps = filter (\<lambda>p. p_code p = code) c
         in if 0 \<le> i \<and> nat i < length ps then Some (ps ! nat i) else None)\<rparr>"

lemma list_props_lib_ok: "props_lib_ok list_props_lib ty (\<lambda>c. c)"
  by (simp add: props_lib_ok_def list_props_lib_def)

text \<open>C32: a list of properties gives back what was added to it: by position, by code and number in the order
  of adding, in a loop, and through copies; behind the last one it throws.\<close>

theorem properties_keep_what_was_added:
  assumes "props_lib_ok lib ty rep" and "list_all (valid_property ty) ps" and "idx < 2 ^ 31"
    and "c = props_copy lib (props_of lib ps)"
  shows "props_get lib ty code idx c =
      (let qs = filter (\<lambda>p. p_code p = code) ps in if idx < length qs then Inr (qs ! idx) else Inl Props_bad_cast)
    \<and> props_at lib ty idx c = (if idx < length ps then Inr (ps ! idx) else Inl Props_out_of_range)
    \<and> props_iterate lib ty c = map Inr ps \<and> props_size lib c = length ps"
proof -
  have "rep c = ps"
    using assms props_of_rep [OF assms(1,2)] props_ops_rep(1) [OF assms(1), of "props_of lib ps"] by simp
  with assms show ?thesis
    using props_get_rep [OF assms(1), of c idx code] props_at_rep [OF assms(1), of c idx] props_iterate_rep [OF assms(1), of c]
    by (simp add: props_size_def props_lib_ok_def)
qed

theorem properties_keep_what_was_added_witness:
  "props_iterate list_props_lib (\<lambda>_. Kind_string)
      (props_copy list_props_lib (props_of list_props_lib [property_string 3 ''text'', property_string 8 ''reply'']))
    = [Inr (property_string 3 ''text''), Inr (property_string 8 ''reply'')]"
proof -
  have "list_all (valid_property (\<lambda>_. Kind_string)) [property_string 3 ''text'', property_string 8 ''reply'']"
    by (simp add: valid_property_def built_property_ok)
  from properties_keep_what_was_added [OF list_props_lib_ok this, of 0 _ 3] show ?thesis by simp
qed

end
