(* ===== verification/Mqtt_Persistence.thy ===== *)
theory Mqtt_Persistence
  imports Mqtt_Message
begin

text \<open>
  \<open>iclient_persistence.h\<close> and \<open>iclient_persistence.cpp\<close> of \<open>controller/deps/paho.mqtt.cpp\<close>: the C library keeps
  the messages in flight in a store of the user's, through static functions that turn exceptions into
  error codes. The locale \<open>key_store\<close> says what a store promises; it is interpreted on the in-memory
  store of \<open>examples/sync_publish.cpp\<close>.
\<close>

section \<open>The glue\<close>

text \<open>A store is an object of the user's class; each operation may throw, and returns the object's new state.\<close>

record 's persistence =
  p_open :: "string \<Rightarrow> string \<Rightarrow> 's \<Rightarrow> (mqtt_error + unit) \<times> 's"
  p_close :: "'s \<Rightarrow> (mqtt_error + unit) \<times> 's"
  p_clear :: "'s \<Rightarrow> (mqtt_error + unit) \<times> 's"
  p_contains_key :: "string \<Rightarrow> 's \<Rightarrow> (mqtt_error + bool) \<times> 's"
  p_keys :: "'s \<Rightarrow> (mqtt_error + string list) \<times> 's"
  p_put :: "string \<Rightarrow> string list \<Rightarrow> 's \<Rightarrow> (mqtt_error + unit) \<times> 's"
  p_get :: "string \<Rightarrow> 's \<Rightarrow> (mqtt_error + string) \<times> 's"
  p_remove :: "string \<Rightarrow> 's \<Rightarrow> (mqtt_error + unit) \<times> 's"

abbreviation (input) MQTTCLIENT_PERSISTENCE_ERROR :: int where "MQTTCLIENT_PERSISTENCE_ERROR \<equiv> -2"

text \<open>The body of each function once its pointers are known not to be null.\<close>

definition guarded :: "bool \<Rightarrow> ('s \<Rightarrow> (mqtt_error + 'a) \<times> 's) \<Rightarrow> 's \<Rightarrow> int \<times> 'a option \<times> 's" where
  "guarded ok f s =
     (if \<not> ok then (MQTTCLIENT_PERSISTENCE_ERROR, None, s)
      else case f s of
        (Inr x, s') \<Rightarrow> (MQTTASYNC_SUCCESS, Some x, s')
      | (Inl e, s') \<Rightarrow> (MQTTCLIENT_PERSISTENCE_ERROR, None, s'))"

text \<open>The pointers are options, null or what they point at; \<open>bufs\<close> are the buffers with their lengths.\<close>

definition persistence_open ::
  "'s persistence \<Rightarrow> bool \<Rightarrow> string option \<Rightarrow> string option \<Rightarrow> bool \<Rightarrow> 's \<Rightarrow> int \<times> 's" where
  "persistence_open impl handle client_id uri context s =
     (case guarded (handle \<and> client_id \<noteq> None \<and> uri \<noteq> None \<and> context)
             (p_open impl (c_str_copy (the client_id)) (c_str_copy (the uri))) s of
        (rc, _, s') \<Rightarrow> (rc, s'))"

definition persistence_close :: "'s persistence \<Rightarrow> bool \<Rightarrow> 's \<Rightarrow> int \<times> 's" where
  "persistence_close impl handle s = (case guarded handle (p_close impl) s of (rc, _, s') \<Rightarrow> (rc, s'))"

definition persistence_put :: "'s persistence \<Rightarrow> bool \<Rightarrow> string \<Rightarrow> string list option \<Rightarrow> bool \<Rightarrow> 's \<Rightarrow> int \<times> 's" where
  "persistence_put impl handle key bufs lens s =
     (case guarded (handle \<and> (case bufs of None \<Rightarrow> False | Some bs \<Rightarrow> 0 < length bs) \<and> lens)
             (p_put impl (c_str_copy key) (the bufs)) s of
        (rc, _, s') \<Rightarrow> (rc, s'))"

definition persistence_get :: "'s persistence \<Rightarrow> bool \<Rightarrow> string option \<Rightarrow> bool \<Rightarrow> 's \<Rightarrow> int \<times> string option \<times> 's" where
  "persistence_get impl handle key outs s =
     guarded (handle \<and> key \<noteq> None \<and> outs) (p_get impl (c_str_copy (the key))) s"

definition persistence_remove :: "'s persistence \<Rightarrow> bool \<Rightarrow> string option \<Rightarrow> 's \<Rightarrow> int \<times> 's" where
  "persistence_remove impl handle key s =
     (case guarded (handle \<and> key \<noteq> None) (p_remove impl (c_str_copy (the key))) s of (rc, _, s') \<Rightarrow> (rc, s'))"

text \<open>The keys are handed over as NUL-terminated copies; no array is allocated for none.\<close>

definition persistence_keys :: "'s persistence \<Rightarrow> bool \<Rightarrow> bool \<Rightarrow> 's \<Rightarrow> int \<times> string list option \<times> 's" where
  "persistence_keys impl handle outs s =
     (case guarded (handle \<and> outs) (p_keys impl) s of
        (rc, ks, s') \<Rightarrow> (rc, map_option (map c_str_copy) ks, s'))"

definition persistence_clear :: "'s persistence \<Rightarrow> bool \<Rightarrow> 's \<Rightarrow> int \<times> 's" where
  "persistence_clear impl handle s = (case guarded handle (p_clear impl) s of (rc, _, s') \<Rightarrow> (rc, s'))"

definition persistence_containskey :: "'s persistence \<Rightarrow> bool \<Rightarrow> string option \<Rightarrow> 's \<Rightarrow> int \<times> 's" where
  "persistence_containskey impl handle key s =
     (case guarded (handle \<and> key \<noteq> None) (p_contains_key impl (c_str_copy (the key))) s of
        (rc, found, s') \<Rightarrow> (if found = Some True then MQTTASYNC_SUCCESS else MQTTCLIENT_PERSISTENCE_ERROR, s'))"

section \<open>The sample store\<close>

text \<open>\<open>sample_mem_persistence\<close> of the example; what it prints is left out.\<close>

record mem_store =
  mem_open :: bool
  mem_map :: "(string \<times> string) list"

definition new_mem_store :: mem_store where
  "new_mem_store = \<lparr>mem_open = False, mem_map = []\<rparr>"

definition mem_persistence :: "c_lib \<Rightarrow> mem_store persistence" where
  "mem_persistence lib = \<lparr>
     p_open = (\<lambda>cid uri s. (Inr (), s\<lparr>mem_open := True\<rparr>)),
     p_close = (\<lambda>s. (Inr (), s\<lparr>mem_open := False\<rparr>)),
     p_clear = (\<lambda>s. (Inr (), s\<lparr>mem_map := []\<rparr>)),
     p_contains_key = (\<lambda>k s. (Inr (map_of (mem_map s) k \<noteq> None), s)),
     p_keys = (\<lambda>s. (Inr (coll (foldl (\<lambda>c x. push_back (fst x) c) \<lparr>coll = [], c_arr = []\<rparr> (mem_map s))), s)),
     p_put = (\<lambda>k bs s. (Inr (), s\<lparr>mem_map := map_put k (foldl (@) [] bs) (mem_map s)\<rparr>)),
     p_get = (\<lambda>k s. (case map_of (mem_map s) k of
        None \<Rightarrow> (Inl (Mqtt_error (mqtt_exception_rc lib MQTTCLIENT_PERSISTENCE_ERROR)), s) | Some v \<Rightarrow> (Inr v, s))),
     p_remove = (\<lambda>k s. (case map_of (mem_map s) k of
        None \<Rightarrow> (Inl (Mqtt_error (mqtt_exception_rc lib MQTTCLIENT_PERSISTENCE_ERROR)), s)
      | Some v \<Rightarrow> (Inr (), s\<lparr>mem_map := map_erase k (mem_map s)\<rparr>)))\<rparr>"

section \<open>What a store promises\<close>

text \<open>
  A store stands for a map from keys to contents. The C library's calls through the glue are a list of
  \<open>store_call\<close>s, on a map they do what \<open>map_call\<close> says: putting joins the buffers, a missing key is an
  error and changes nothing.
\<close>

datatype store_call =
    Put string "string list"
  | Get string
  | Remove string
  | Clear
  | Contains string
  | Keys

fun glue_call :: "'s persistence \<Rightarrow> store_call \<Rightarrow> 's \<Rightarrow> (int \<times> string option) \<times> 's" where
  "glue_call impl (Put k bs) s = (case persistence_put impl True k (Some bs) True s of (rc, s') \<Rightarrow> ((rc, None), s'))"
| "glue_call impl (Get k) s = (case persistence_get impl True (Some k) True s of (rc, v, s') \<Rightarrow> ((rc, v), s'))"
| "glue_call impl (Remove k) s = (case persistence_remove impl True (Some k) s of (rc, s') \<Rightarrow> ((rc, None), s'))"
| "glue_call impl Clear s = (case persistence_clear impl True s of (rc, s') \<Rightarrow> ((rc, None), s'))"
| "glue_call impl (Contains k) s = (case persistence_containskey impl True (Some k) s of (rc, s') \<Rightarrow> ((rc, None), s'))"
| "glue_call impl Keys s = (case persistence_keys impl True True s of (rc, ks, s') \<Rightarrow> ((rc, None), s'))"

fun map_call :: "store_call \<Rightarrow> (string \<rightharpoonup> string) \<Rightarrow> (int \<times> string option) \<times> (string \<rightharpoonup> string)" where
  "map_call (Put k bs) m = (if bs = [] then ((-2, None), m) else ((0, None), m(c_str_copy k \<mapsto> concat bs)))"
| "map_call (Get k) m = (case m (c_str_copy k) of None \<Rightarrow> ((-2, None), m) | Some v \<Rightarrow> ((0, Some v), m))"
| "map_call (Remove k) m =
     (case m (c_str_copy k) of None \<Rightarrow> ((-2, None), m) | Some v \<Rightarrow> ((0, None), m(c_str_copy k := None)))"
| "map_call Clear m = ((0, None), Map.empty)"
| "map_call (Contains k) m = ((if m (c_str_copy k) = None then -2 else 0, None), m)"
| "map_call Keys m = ((0, None), m)"

fun run_calls :: "(store_call \<Rightarrow> 'm \<Rightarrow> 'r \<times> 'm) \<Rightarrow> store_call list \<Rightarrow> 'm \<Rightarrow> 'r list \<times> 'm" where
  "run_calls f [] m = ([], m)"
| "run_calls f (c # cs) m = (case f c m of (r, m') \<Rightarrow> (case run_calls f cs m' of (rs, m'') \<Rightarrow> (r # rs, m'')))"

locale key_store =
  fixes impl :: "'s persistence"
    and rep :: "'s \<Rightarrow> (string \<rightharpoonup> string)"
    and ok :: "'s \<Rightarrow> bool"
  assumes put_law: "ok s \<Longrightarrow> \<exists>s'. p_put impl k bs s = (Inr (), s') \<and> ok s' \<and> rep s' = (rep s)(k \<mapsto> concat bs)"
    and get_law: "ok s \<Longrightarrow> \<exists>r s'. p_get impl k s = (r, s') \<and> ok s' \<and> rep s' = rep s
      \<and> (case rep s k of None \<Rightarrow> \<exists>e. r = Inl e | Some v \<Rightarrow> r = Inr v)"
    and remove_law: "ok s \<Longrightarrow> \<exists>r s'. p_remove impl k s = (r, s') \<and> ok s' \<and> rep s' = (rep s)(k := None)
      \<and> (case rep s k of None \<Rightarrow> \<exists>e. r = Inl e | Some v \<Rightarrow> r = Inr ())"
    and clear_law: "ok s \<Longrightarrow> \<exists>s'. p_clear impl s = (Inr (), s') \<and> ok s' \<and> rep s' = Map.empty"
    and contains_law: "ok s \<Longrightarrow> \<exists>s'. p_contains_key impl k s = (Inr (rep s k \<noteq> None), s') \<and> ok s' \<and> rep s' = rep s"
    and keys_law: "ok s \<Longrightarrow> \<exists>ks s'. p_keys impl s = (Inr ks, s') \<and> ok s' \<and> rep s' = rep s
      \<and> set ks = dom (rep s) \<and> distinct ks"
begin

lemma call_refines: "ok s \<Longrightarrow> \<exists>s'. glue_call impl c s = (fst (map_call c (rep s)), s') \<and> ok s' \<and> rep s' = snd (map_call c (rep s))"
proof (cases c)
  case (Put k bs)
  assume "ok s"
  from put_law [OF this, of "c_str_copy k" bs] show ?thesis using Put \<open>ok s\<close>
    by (auto simp: persistence_put_def guarded_def)
next
  case (Get k)
  assume "ok s"
  from get_law [OF this, of "c_str_copy k"] show ?thesis using Get
    by (auto simp: persistence_get_def guarded_def split: option.splits)
next
  case (Remove k)
  assume "ok s"
  from remove_law [OF this, of "c_str_copy k"] show ?thesis using Remove
    by (auto simp: persistence_remove_def guarded_def fun_upd_idem split: option.splits)
next
  case Clear
  assume "ok s"
  from clear_law [OF this] show ?thesis using Clear by (auto simp: persistence_clear_def guarded_def)
next
  case (Contains k)
  assume "ok s"
  from contains_law [OF this, of "c_str_copy k"] show ?thesis using Contains
    by (auto simp: persistence_containskey_def guarded_def)
next
  case Keys
  assume "ok s"
  from keys_law [OF this] show ?thesis using Keys by (auto simp: persistence_keys_def guarded_def)
qed

lemma calls_refine:
  "ok s \<Longrightarrow> fst (run_calls (glue_call impl) cs s) = fst (run_calls map_call cs (rep s))
    \<and> rep (snd (run_calls (glue_call impl) cs s)) = snd (run_calls map_call cs (rep s))"
proof (induction cs arbitrary: s)
  case (Cons c cs)
  from call_refines [OF Cons.prems, of c] obtain s' where
    "glue_call impl c s = (fst (map_call c (rep s)), s')" "ok s'" "rep s' = snd (map_call c (rep s))" by blast
  with Cons.IH [of s'] show ?case by (auto split: prod.splits)
qed simp

lemma keys_listed:
  "ok s \<Longrightarrow> \<exists>ks s'. persistence_keys impl True True s = (0, Some ks, s') \<and> set ks = c_str_copy ` dom (rep s) \<and> rep s' = rep s"
  using keys_law [of s] by (auto simp: persistence_keys_def guarded_def)

end

section \<open>The sample store keeps the promise\<close>

abbreviation mem_rep :: "mem_store \<Rightarrow> (string \<rightharpoonup> string)" where
  "mem_rep s \<equiv> map_of (mem_map s)"

definition mem_ok :: "mem_store \<Rightarrow> bool" where
  "mem_ok s \<longleftrightarrow> sorted_wrt (<) (map fst (mem_map s))"

lemma foldl_push_back: "coll (foldl (\<lambda>c x. push_back (fst x) c) c xs) = coll c @ map fst xs"
  by (induction xs arbitrary: c) (simp_all add: push_back_def update_c_arr_def)

lemma foldl_append_concat: "foldl (@) acc bs = acc @ concat bs"
  by (induction bs arbitrary: acc) simp_all

interpretation mem: key_store "mem_persistence lib" mem_rep mem_ok for lib
proof
  fix s :: mem_store and k :: string and bs :: "string list"
  assume ok: "mem_ok s"
  show "\<exists>s'. p_put (mem_persistence lib) k bs s = (Inr (), s') \<and> mem_ok s' \<and> mem_rep s' = (mem_rep s)(k \<mapsto> concat bs)"
    using ok by (simp add: mem_persistence_def mem_ok_def sorted_map_put foldl_append_concat)
  show "\<exists>r s'. p_get (mem_persistence lib) k s = (r, s') \<and> mem_ok s' \<and> mem_rep s' = mem_rep s
      \<and> (case mem_rep s k of None \<Rightarrow> \<exists>e. r = Inl e | Some v \<Rightarrow> r = Inr v)"
    using ok by (simp add: mem_persistence_def split: option.split)
  show "\<exists>r s'. p_remove (mem_persistence lib) k s = (r, s') \<and> mem_ok s' \<and> mem_rep s' = (mem_rep s)(k := None)
      \<and> (case mem_rep s k of None \<Rightarrow> \<exists>e. r = Inl e | Some v \<Rightarrow> r = Inr ())"
    using ok by (simp add: mem_persistence_def mem_ok_def sorted_map_erase fun_upd_idem split: option.split)
  show "\<exists>s'. p_clear (mem_persistence lib) s = (Inr (), s') \<and> mem_ok s' \<and> mem_rep s' = Map.empty"
    by (simp add: mem_persistence_def mem_ok_def)
  show "\<exists>s'. p_contains_key (mem_persistence lib) k s = (Inr (mem_rep s k \<noteq> None), s') \<and> mem_ok s' \<and> mem_rep s' = mem_rep s"
    using ok by (simp add: mem_persistence_def)
  show "\<exists>ks s'. p_keys (mem_persistence lib) s = (Inr ks, s') \<and> mem_ok s' \<and> mem_rep s' = mem_rep s
      \<and> set ks = dom (mem_rep s) \<and> distinct ks"
    using ok sorted_keys_distinct [of "mem_map s"]
    by (simp add: mem_persistence_def mem_ok_def foldl_push_back dom_map_of_conv_image_fst)
qed

text \<open>Through the glue, the sample store answers every sequence of calls as a map does.\<close>

lemma store_calls_refine_map:
  "fst (run_calls (glue_call (mem_persistence lib)) cs new_mem_store) = fst (run_calls map_call cs Map.empty)"
proof -
  have "mem_ok new_mem_store" by (simp add: mem_ok_def new_mem_store_def)
  from mem.calls_refine [OF this, of lib cs] show ?thesis by (simp add: new_mem_store_def)
qed

text \<open>No exception of a store gets past the glue: it is the error code, whatever the store did.\<close>

lemma store_exception_is_code:
  "p_put impl (c_str_copy k) bs s = (Inl e, s') \<Longrightarrow> bs \<noteq> [] \<Longrightarrow> persistence_put impl True k (Some bs) True s = (-2, s')"
  by (simp add: persistence_put_def guarded_def)

end
