(* ===== verification/Mqtt_Token.thy ===== *)
theory Mqtt_Token
  imports Mqtt_Message
begin

text \<open>
  \<open>token.h\<close>, \<open>token.cpp\<close>, \<open>delivery_token.h\<close> and \<open>server_response.h\<close>, \<open>server_response.cpp\<close> of
  \<open>controller/deps/paho.mqtt.cpp\<close>: what tracks one asynchronous operation of the MQTT client. The C library
  completes a token through one of four callbacks; threads wait for it or register a listener.
\<close>

section \<open>Responses of the broker\<close>

record 'p connect_response =
  cr_props :: "'p list"
  cr_server_uri :: string
  cr_version :: int
  cr_session :: bool

text \<open>\<open>subscribe_response\<close> and \<open>unsubscribe_response\<close> have the same members.\<close>

record 'p codes_response =
  rsp_props :: "'p list"
  rsp_codes :: "int list"

text \<open>
  The C library's structures, with the union members under their own names. A pointer to an array is
  null or a function of the index: the library promises as many elements as it was asked for.
\<close>

record success_data =
  sd_token :: int
  sd_qos :: int
  sd_qos_list :: "(nat \<Rightarrow> int) option"
  sd_uri :: string
  sd_version :: int
  sd_session :: int

record 'p success_data5 =
  s5_token :: int
  s5_reason :: int
  s5_props :: "'p list"
  s5_count :: int
  s5_codes :: "(nat \<Rightarrow> int) option"
  s5_uri :: string
  s5_version :: int
  s5_session :: int

record failure_data =
  fd_token :: int
  fd_code :: int
  fd_message :: "string option"

record failure_data5 = failure_data +
  f5_reason :: int

definition connect_response5 :: "'p success_data5 \<Rightarrow> 'p connect_response" where
  "connect_response5 d = \<lparr>cr_props = s5_props d, cr_server_uri = s5_uri d, cr_version = s5_version d,
     cr_session = to_bool (s5_session d)\<rparr>"

definition connect_response3 :: "success_data \<Rightarrow> 'p connect_response" where
  "connect_response3 d = \<lparr>cr_props = [], cr_server_uri = sd_uri d, cr_version = sd_version d,
     cr_session = to_bool (sd_session d)\<rparr>"

definition subscribe_response5 :: "'p success_data5 \<Rightarrow> 'p codes_response" where
  "subscribe_response5 d = \<lparr>rsp_props = s5_props d,
     rsp_codes =
       (if s5_count d \<le> 1 then [s5_reason d]
        else case s5_codes d of None \<Rightarrow> [] | Some a \<Rightarrow> map a [0..<nat (s5_count d)])\<rparr>"

definition subscribe_response3 :: "nat \<Rightarrow> success_data \<Rightarrow> 'p codes_response" where
  "subscribe_response3 n d = \<lparr>rsp_props = [],
     rsp_codes =
       (if n \<le> 1 then [sd_qos d] else case sd_qos_list d of None \<Rightarrow> [] | Some a \<Rightarrow> map a [0..<n])\<rparr>"

definition unsubscribe_response5 :: "'p success_data5 \<Rightarrow> 'p codes_response" where
  "unsubscribe_response5 d = \<lparr>rsp_props = s5_props d,
     rsp_codes =
       (if s5_count d \<le> 1 then [s5_reason d]
        else case s5_codes d of None \<Rightarrow> [] | Some a \<Rightarrow> map a [0..<nat (s5_count d)])\<rparr>"

definition unsubscribe_response3 :: "success_data \<Rightarrow> 'p codes_response" where
  "unsubscribe_response3 d = \<lparr>rsp_props = [], rsp_codes = []\<rparr>"

section \<open>The token\<close>

datatype token_type = CONNECT | SUBSCRIBE | PUBLISH | UNSUBSCRIBE | DISCONNECT

text \<open>\<open>t_message\<close> is the member that \<open>delivery_token\<close> adds, null in the other tokens. Listeners and user
  contexts are addresses.\<close>

record 'p token =
  t_type :: token_type
  t_rc :: int
  t_reason :: int
  t_err_msg :: string
  t_msg_id :: int
  t_topics :: "string list option"
  t_user_context :: "nat option"
  t_listener :: "nat option"
  t_num_expected :: nat
  t_complete :: bool
  t_conn_rsp :: "'p connect_response option"
  t_sub_rsp :: "'p codes_response option"
  t_unsub_rsp :: "'p codes_response option"
  t_message :: "'p message option"

definition new_token :: "token_type \<Rightarrow> string list option \<Rightarrow> (nat option \<times> nat) option \<Rightarrow> 'p token" where
  "new_token typ topics cb = \<lparr>t_type = typ, t_rc = 0, t_reason = RC_SUCCESS, t_err_msg = [], t_msg_id = 0,
     t_topics = topics, t_user_context = (case cb of None \<Rightarrow> None | Some (c, l) \<Rightarrow> c),
     t_listener = map_option snd cb, t_num_expected = 0, t_complete = False, t_conn_rsp = None,
     t_sub_rsp = None, t_unsub_rsp = None, t_message = None\<rparr>"

definition new_delivery_token :: "'p message \<Rightarrow> (nat option \<times> nat) option \<Rightarrow> 'p token" where
  "new_delivery_token m cb = (new_token PUBLISH (Some [get_topic m]) cb)\<lparr>t_message := Some m\<rparr>"

definition set_message_id :: "int \<Rightarrow> 'p token \<Rightarrow> 'p token" where
  "set_message_id i t = t\<lparr>t_msg_id := i\<rparr>"

definition set_num_expected :: "nat \<Rightarrow> 'p token \<Rightarrow> 'p token" where
  "set_num_expected n t = t\<lparr>t_num_expected := n\<rparr>"

definition check_ret :: "c_lib \<Rightarrow> 'p token \<Rightarrow> mqtt_error + unit" where
  "check_ret lib t =
     (if t_rc t \<noteq> MQTTASYNC_SUCCESS \<or> 128 \<le> t_reason t
      then Inl (Mqtt_error (mqtt_exception3 lib (t_rc t) (t_reason t) (t_err_msg t))) else Inr ())"

definition token_ok :: "'p token \<Rightarrow> bool" where
  "token_ok t \<longleftrightarrow> t_rc t = MQTTASYNC_SUCCESS \<and> t_reason t < 128"

subsection \<open>The callbacks\<close>

text \<open>The locked part of each, with the listener it calls afterwards and whether it is told of success.\<close>

type_synonym calls = "(nat \<times> bool) list"

definition notify_listener :: "'p token \<Rightarrow> bool \<Rightarrow> calls" where
  "notify_listener t ok = (case t_listener t of None \<Rightarrow> [] | Some l \<Rightarrow> [(l, ok)])"

definition on_success :: "success_data option \<Rightarrow> 'p token \<Rightarrow> 'p token \<times> calls" where
  "on_success rsp t =
     (let t1 = (case rsp of None \<Rightarrow> t
        | Some d \<Rightarrow>
            (let t = t\<lparr>t_msg_id := sd_token d\<rparr>
             in case t_type t of
                  CONNECT \<Rightarrow> t\<lparr>t_conn_rsp := Some (connect_response3 d)\<rparr>
                | SUBSCRIBE \<Rightarrow> t\<lparr>t_sub_rsp := Some (subscribe_response3 (t_num_expected t) d)\<rparr>
                | UNSUBSCRIBE \<Rightarrow> t\<lparr>t_unsub_rsp := Some (unsubscribe_response3 d)\<rparr>
                | _ \<Rightarrow> t))
      in (t1\<lparr>t_rc := MQTTASYNC_SUCCESS, t_complete := True\<rparr>, notify_listener t True))"

definition on_success5 :: "'p success_data5 option \<Rightarrow> 'p token \<Rightarrow> 'p token \<times> calls" where
  "on_success5 rsp t =
     (let t1 = (case rsp of None \<Rightarrow> t
        | Some d \<Rightarrow>
            (let t = t\<lparr>t_msg_id := s5_token d, t_reason := s5_reason d\<rparr>
             in case t_type t of
                  CONNECT \<Rightarrow> t\<lparr>t_conn_rsp := Some (connect_response5 d)\<rparr>
                | SUBSCRIBE \<Rightarrow> t\<lparr>t_sub_rsp := Some (subscribe_response5 d)\<rparr>
                | UNSUBSCRIBE \<Rightarrow> t\<lparr>t_unsub_rsp := Some (unsubscribe_response5 d)\<rparr>
                | _ \<Rightarrow> t))
      in (t1\<lparr>t_rc := MQTTASYNC_SUCCESS, t_complete := True\<rparr>, notify_listener t True))"

definition on_failure :: "failure_data option \<Rightarrow> 'p token \<Rightarrow> 'p token \<times> calls" where
  "on_failure rsp t =
     (let t1 = (case rsp of None \<Rightarrow> t\<lparr>t_rc := -1\<rparr>
        | Some d \<Rightarrow>
            (let t = t\<lparr>t_msg_id := fd_token d, t_rc := fd_code d, t_reason := RC_SUCCESS\<rparr>
             in case fd_message d of None \<Rightarrow> t | Some s \<Rightarrow> t\<lparr>t_err_msg := s\<rparr>))
      in (t1\<lparr>t_complete := True\<rparr>, notify_listener t False))"

definition on_failure5 :: "failure_data5 option \<Rightarrow> 'p token \<Rightarrow> 'p token \<times> calls" where
  "on_failure5 rsp t =
     (let t1 = (case rsp of None \<Rightarrow> t\<lparr>t_rc := -1\<rparr>
        | Some d \<Rightarrow>
            (let t = t\<lparr>t_msg_id := fd_token d, t_reason := f5_reason d, t_rc := fd_code d\<rparr>
             in case fd_message d of None \<Rightarrow> t | Some s \<Rightarrow> t\<lparr>t_err_msg := s\<rparr>))
      in (t1\<lparr>t_complete := True\<rparr>, notify_listener t False))"

subsection \<open>The operations of the program\<close>

definition token_reset :: "'p token \<Rightarrow> 'p token" where
  "token_reset t = t\<lparr>t_complete := False, t_rc := MQTTASYNC_SUCCESS, t_reason := RC_SUCCESS, t_err_msg := []\<rparr>"

definition set_action_callback :: "nat \<Rightarrow> 'p token \<Rightarrow> 'p token \<times> calls" where
  "set_action_callback l t =
     (let t = t\<lparr>t_listener := Some l\<rparr>
      in (t, if t_complete t then [(l, t_rc t = MQTTASYNC_SUCCESS)] else []))"

text \<open>\<^term>\<open>None\<close>: the caller blocks. \<open>try_wait\<close> does not; \<open>wait_for\<close> and \<open>wait_until\<close> return false when their time is
  over and the token still incomplete.\<close>

definition wait :: "c_lib \<Rightarrow> 'p token \<Rightarrow> (mqtt_error + unit) option" where
  "wait lib t = (if \<not> t_complete t then None else Some (check_ret lib t))"

definition try_wait :: "c_lib \<Rightarrow> 'p token \<Rightarrow> mqtt_error + bool" where
  "try_wait lib t =
     sbind (if t_complete t then check_ret lib t else Inr ()) (\<lambda>_. Inr (t_complete t))"

definition wait_for :: "c_lib \<Rightarrow> 'p token \<Rightarrow> mqtt_error + bool" where
  "wait_for lib t =
     (if \<not> t_complete t then Inr False else sbind (check_ret lib t) (\<lambda>_. Inr True))"

definition wait_until :: "c_lib \<Rightarrow> 'p token \<Rightarrow> mqtt_error + bool" where
  "wait_until lib t =
     (if \<not> t_complete t then Inr False else sbind (check_ret lib t) (\<lambda>_. Inr True))"

definition get_connect_response :: "c_lib \<Rightarrow> 'p token \<Rightarrow> (mqtt_error + 'p connect_response) option" where
  "get_connect_response lib t =
     (if t_type t \<noteq> CONNECT then Some (Inl Bad_cast)
      else if \<not> t_complete t then None
      else Some (sbind (check_ret lib t) (\<lambda>_.
        case t_conn_rsp t of None \<Rightarrow> Inl (Mqtt_error (missing_response lib ''connect'')) | Some r \<Rightarrow> Inr r)))"

definition get_subscribe_response :: "c_lib \<Rightarrow> 'p token \<Rightarrow> (mqtt_error + 'p codes_response) option" where
  "get_subscribe_response lib t =
     (if t_type t \<noteq> SUBSCRIBE then Some (Inl Bad_cast)
      else if \<not> t_complete t then None
      else Some (sbind (check_ret lib t) (\<lambda>_.
        case t_sub_rsp t of None \<Rightarrow> Inl (Mqtt_error (missing_response lib ''subscribe'')) | Some r \<Rightarrow> Inr r)))"

definition get_unsubscribe_response :: "c_lib \<Rightarrow> 'p token \<Rightarrow> (mqtt_error + 'p codes_response) option" where
  "get_unsubscribe_response lib t =
     (if t_type t \<noteq> UNSUBSCRIBE then Some (Inl Bad_cast)
      else if \<not> t_complete t then None
      else Some (sbind (check_ret lib t) (\<lambda>_.
        case t_unsub_rsp t of None \<Rightarrow> Inl (Mqtt_error (missing_response lib ''unsubscribe'')) | Some r \<Rightarrow> Inr r)))"

section \<open>Completion\<close>

datatype 'p completion =
    Success "success_data option"
  | Success5 "'p success_data5 option"
  | Failure "failure_data option"
  | Failure5 "failure_data5 option"

fun complete_token :: "'p completion \<Rightarrow> 'p token \<Rightarrow> 'p token \<times> calls" where
  "complete_token (Success d) t = on_success d t"
| "complete_token (Success5 d) t = on_success5 d t"
| "complete_token (Failure d) t = on_failure d t"
| "complete_token (Failure5 d) t = on_failure5 d t"

fun is_success :: "'p completion \<Rightarrow> bool" where
  "is_success (Success d) = True"
| "is_success (Success5 d) = True"
| "is_success (Failure d) = False"
| "is_success (Failure5 d) = False"

text \<open>What a caller is to see of a completion: the return code, the reason code and the text.\<close>

fun verdict :: "'p completion \<Rightarrow> int \<times> int \<times> string" where
  "verdict (Success d) = (0, 0, [])"
| "verdict (Success5 d) = (0, case d of None \<Rightarrow> 0 | Some d \<Rightarrow> s5_reason d, [])"
| "verdict (Failure d) = (case d of None \<Rightarrow> (-1, 0, []) | Some d \<Rightarrow> (fd_code d, 0, to_string_or_empty (fd_message d)))"
| "verdict (Failure5 d) = (case d of None \<Rightarrow> (-1, 0, [])
    | Some d \<Rightarrow> (fd_code d, f5_reason d, to_string_or_empty (fd_message d)))"

definition outcome :: "c_lib \<Rightarrow> 'p completion \<Rightarrow> mqtt_error + unit" where
  "outcome lib c =
     (case verdict c of (rc, r, msg) \<Rightarrow>
        if rc = 0 \<and> r < 128 then Inr () else Inl (Mqtt_error (mqtt_exception3 lib rc r msg)))"

definition fresh_token :: "'p token \<Rightarrow> bool" where
  "fresh_token t \<longleftrightarrow> \<not> t_complete t \<and> t_rc t = 0 \<and> t_reason t = 0 \<and> t_err_msg t = []"

lemma fresh_new_token [simp]: "fresh_token (new_token typ topics cb)" "fresh_token (new_delivery_token m cb)"
  by (simp_all add: fresh_token_def new_token_def new_delivery_token_def)

lemma fresh_token_reset [simp]: "fresh_token (token_reset t)"
  by (simp add: fresh_token_def token_reset_def)

lemmas callback_defs = on_success_def on_success5_def on_failure_def on_failure5_def Let_def

text \<open>A callback changes nothing about who the token is.\<close>

lemma complete_token_frame:
  "t_type (fst (complete_token c t)) = t_type t" "t_listener (fst (complete_token c t)) = t_listener t"
  "t_message (fst (complete_token c t)) = t_message t" "t_complete (fst (complete_token c t))"
  "t_num_expected (fst (complete_token c t)) = t_num_expected t"
  "snd (complete_token c t) = notify_listener t (is_success c)"
  by (cases c; auto simp: callback_defs split: option.split token_type.split)+

lemma complete_token_verdict:
  assumes "fresh_token t"
  shows "(t_rc (fst (complete_token c t)), t_reason (fst (complete_token c t)), t_err_msg (fst (complete_token c t)))
    = verdict c"
  using assms by (cases c) (auto simp: fresh_token_def callback_defs to_string_or_empty_def
      split: option.split token_type.split)

lemma complete_token_check_ret: "fresh_token t \<Longrightarrow> check_ret lib (fst (complete_token c t)) = outcome lib c"
  using complete_token_verdict [of t c] by (auto simp: check_ret_def outcome_def split: prod.splits)

text \<open>C27: a token reports its operation. Before completion every wait blocks, or times out with false; after
  it \<open>wait\<close>, \<open>try_wait\<close> and \<open>wait_for\<close> return normally exactly when the return code is success and the broker's reason
  code is below 0x80, and otherwise throw the code, the reason and the library's message; the listener
  is called once.\<close>

theorem token_reports_outcome:
  assumes "fresh_token t"
  shows "wait lib t = None \<and> try_wait lib t = Inr False \<and> wait_for lib t = Inr False
    \<and> (let (t', told) = complete_token c t
       in wait lib t' = Some (outcome lib c) \<and> try_wait lib t' = sbind (outcome lib c) (\<lambda>_. Inr True)
          \<and> wait_for lib t' = try_wait lib t' \<and> token_ok t' = (outcome lib c = Inr ())
          \<and> told = notify_listener t (is_success c))"
proof -
  obtain t' told where c: "complete_token c t = (t', told)" by fastforce
  have ret: "check_ret lib t' = outcome lib c" using complete_token_check_ret [OF assms, of lib c] c by simp
  have fin: "t_complete t'" "told = notify_listener t (is_success c)"
    using complete_token_frame(4,6) [of c t] c by simp_all
  have "token_ok t' = (check_ret lib t' = Inr ())" by (auto simp: token_ok_def check_ret_def)
  with assms c ret fin show ?thesis
    by (simp add: wait_def try_wait_def wait_for_def fresh_token_def)
qed

theorem token_reports_outcome_witness:
  "\<exists>e. wait \<lparr>strerror = \<lambda>_. None, reason_string = \<lambda>_. Some ''Not authorized''\<rparr>
      (fst (on_success5 (Some \<lparr>s5_token = 1, s5_reason = 135, s5_props = [] :: nat list, s5_count = 0, s5_codes = None,
        s5_uri = [], s5_version = 5, s5_session = 0\<rparr>) (new_token SUBSCRIBE (Some [''a'']) None)))
    = Some (Inl (Mqtt_error e)) \<and> e_reason e = 135 \<and> e_what e = ''MQTT error [0]. Not authorized''"
proof -
  let ?lib = "\<lparr>strerror = \<lambda>_. None, reason_string = \<lambda>_. Some ''Not authorized''\<rparr>"
  let ?d = "\<lparr>s5_token = 1, s5_reason = 135, s5_props = [] :: nat list, s5_count = 0, s5_codes = None,
        s5_uri = [], s5_version = 5, s5_session = 0\<rparr>"
  have zero: "int_to_string 0 = ''0''" by code_simp
  show ?thesis
    using token_reports_outcome [OF fresh_new_token(1), of ?lib SUBSCRIBE "Some [''a'']" None "Success5 (Some ?d)"] zero
    by (auto simp: outcome_def mqtt_exception3_def printable_error_def reason_code_def reason_code_str_def
        to_string_or_empty_def split: prod.splits)
qed

text \<open>Whether what the library reports shows in the return code: a failure with another code than
  success. Under MQTT 5 a refusal may carry the code of success and only its reason code tell.\<close>

definition coded :: "'p completion \<Rightarrow> bool" where
  "coded c \<longleftrightarrow> is_success c \<or> fst (verdict c) \<noteq> 0"

lemma complete_token_listener:
  "complete_token c (t\<lparr>t_listener := x\<rparr>)
    = ((fst (complete_token c t))\<lparr>t_listener := x\<rparr>, notify_listener (t\<lparr>t_listener := x\<rparr>) (is_success c))"
  by (cases c) (auto simp: callback_defs split: option.split token_type.split)

text \<open>C26: registering a listener commutes with the completion of the operation: whatever the library
  reports, the token ends up the same in whichever order the two threads take the token's lock, and the
  listener is called exactly once. A listener registered before is told which callback ran, one
  registered after is told whether the return code is that of success; the two agree except for a
  failure that carries the code of success, which the later listener is told as a success.\<close>

theorem register_commutes_with_completion:
  assumes "fresh_token t" and "t_listener t = None"
  shows "(let (t1, n1) = set_action_callback l t; (t2, n2) = complete_token c t1;
              (t3, n3) = complete_token c t; (t4, n4) = set_action_callback l t3
          in t2 = t4 \<and> n1 @ n2 = [(l, is_success c)] \<and> n3 @ n4 = [(l, fst (verdict c) = 0)]
             \<and> (n1 @ n2 = n3 @ n4 \<longleftrightarrow> coded c))"
proof -
  let ?t3 = "fst (complete_token c t)"
  have rc: "t_rc ?t3 = fst (verdict c)" by (metis complete_token_verdict [OF assms(1)] fst_conv)
  have ok: "is_success c \<Longrightarrow> fst (verdict c) = 0" by (cases c) simp_all
  have "complete_token c t = (?t3, [])"
    using complete_token_frame(6) [of c t] assms(2) by (simp add: prod_eq_iff notify_listener_def)
  moreover have "t_complete ?t3" by (simp add: complete_token_frame)
  ultimately show ?thesis
    using assms(1) rc ok
    by (auto simp: set_action_callback_def complete_token_listener Let_def notify_listener_def fresh_token_def coded_def)
qed

text \<open>A refusal by a broker of version 5: the code of success, and reason 135, not authorised.\<close>

theorem register_commutes_with_completion_witness:
  "(let t = new_token SUBSCRIBE (Some [''a'']) None :: nat token;
        c = Failure5 (Some \<lparr>fd_token = 1, fd_code = 0, fd_message = None, f5_reason = 135\<rparr>);
        (t1, n1) = set_action_callback 7 t; (t2, n2) = complete_token c t1;
        (t3, n3) = complete_token c t; (t4, n4) = set_action_callback 7 t3
    in t2 = t4 \<and> n1 @ n2 = [(7, False)] \<and> n3 @ n4 = [(7, True)])"
proof -
  have "fresh_token (new_token SUBSCRIBE (Some [''a'']) None :: nat token)"
    "t_listener (new_token SUBSCRIBE (Some [''a'']) None :: nat token) = None"
    by (simp, simp add: new_token_def)
  from register_commutes_with_completion [OF this, of 7
      "Failure5 (Some \<lparr>fd_token = 1, fd_code = 0, fd_message = None, f5_reason = 135\<rparr>)"]
  show ?thesis by (auto simp: Let_def split: prod.splits)
qed

text \<open>A failure that carries the code of success is told to a waiting thread as a success too, unless its
  reason code shows it.\<close>

lemma uncoded_failure_looks_like_success:
  assumes "fresh_token t" and "fd_code d = 0"
  shows "wait lib (fst (on_failure (Some d) t)) = Some (Inr ())
    \<and> snd (set_action_callback l (fst (on_failure (Some d) t))) = [(l, True)]"
  using assms by (auto simp: on_failure_def Let_def wait_def check_ret_def set_action_callback_def fresh_token_def
      split: option.split)

text \<open>A success without data, as \<open>on_connected\<close> reports it, keeps the reason code of an earlier refusal.\<close>

lemma plain_success_keeps_reason:
  "128 \<le> t_reason t \<Longrightarrow> \<exists>e. wait lib (fst (on_success None t)) = Some (Inl e)"
  by (simp add: on_success_def Let_def wait_def check_ret_def)

text \<open>The codes of a subscription: one for one filter, otherwise one for each filter asked for.\<close>

definition codes_of :: "nat \<Rightarrow> int \<Rightarrow> (nat \<Rightarrow> int) option \<Rightarrow> int list" where
  "codes_of n one many = (if n \<le> 1 then [one] else case many of None \<Rightarrow> [] | Some a \<Rightarrow> map a [0..<n])"

text \<open>A subscription returns what the broker granted: under MQTT 3 one quality of service for each filter of
  the request, under MQTT 5 one reason code for each that the broker counted; a success without data is
  reported as a missing response, and asking a token of another kind is an error at once.\<close>

lemma subscription_codes_returned:
  assumes "fresh_token t" and "t_sub_rsp t = None"
  shows "get_subscribe_response lib (fst (on_success d t))
      = (if t_type t \<noteq> SUBSCRIBE then Some (Inl Bad_cast)
         else case d of None \<Rightarrow> Some (Inl (Mqtt_error (missing_response lib ''subscribe'')))
           | Some d \<Rightarrow> Some (Inr \<lparr>rsp_props = [], rsp_codes = codes_of (t_num_expected t) (sd_qos d) (sd_qos_list d)\<rparr>))
    \<and> (t_type t = SUBSCRIBE \<and> s5_reason d5 < 128 \<longrightarrow>
        get_subscribe_response lib (fst (on_success5 (Some d5) t))
        = Some (Inr \<lparr>rsp_props = s5_props d5, rsp_codes = codes_of (nat (s5_count d5)) (s5_reason d5) (s5_codes d5)\<rparr>))
    \<and> (t_type t = SUBSCRIBE \<longrightarrow> get_subscribe_response lib t = None)"
  using assms
  by (auto simp: get_subscribe_response_def on_success_def on_success5_def Let_def check_ret_def fresh_token_def
      subscribe_response3_def subscribe_response5_def codes_of_def split: option.split token_type.split)

lemma subscription_codes_returned_example:
  "\<forall>lib. get_subscribe_response lib (fst (on_success (Some \<lparr>sd_token = 4, sd_qos = 0, sd_qos_list = Some (\<lambda>i. if i = 0 then 1 else 128),
      sd_uri = [], sd_version = 4, sd_session = 0\<rparr>) (set_num_expected 2 (new_token SUBSCRIBE (Some [''a'', ''b'']) None :: nat token))))
    = Some (Inr \<lparr>rsp_props = [], rsp_codes = [1, 128]\<rparr>)"
proof
  fix lib :: c_lib
  let ?t = "set_num_expected 2 (new_token SUBSCRIBE (Some [''a'', ''b'']) None :: nat token)"
  have "fresh_token ?t" "t_sub_rsp ?t = None" by (simp_all add: fresh_token_def set_num_expected_def new_token_def)
  from subscription_codes_returned [OF this, of lib "Some \<lparr>sd_token = 4, sd_qos = 0, sd_qos_list = Some (\<lambda>i. if i = 0 then 1 else 128),
      sd_uri = [], sd_version = 4, sd_session = 0\<rparr>"]
  show "get_subscribe_response lib (fst (on_success (Some \<lparr>sd_token = 4, sd_qos = 0, sd_qos_list = Some (\<lambda>i. if i = 0 then 1 else 128),
      sd_uri = [], sd_version = 4, sd_session = 0\<rparr>) ?t)) = Some (Inr \<lparr>rsp_props = [], rsp_codes = [1, 128]\<rparr>)"
    by (simp add: set_num_expected_def new_token_def codes_of_def upt_rec)
qed

section \<open>Waiting threads\<close>

text \<open>
  A token shared by threads: those asleep in a wait, and the callbacks that have released the lock and not
  yet reached \<open>notify_all\<close>. A woken thread tests \<open>complete_\<close> again, so it either returns or falls asleep by the
  same step as a new one; a timed wait may also give up. A reconnect resets its token.
\<close>

record 'p token_world =
  w_token :: "'p token"
  w_asleep :: "nat list"
  w_notifying :: nat

inductive token_step :: "'p token_world \<Rightarrow> 'p token_world \<Rightarrow> bool" where
  sleep: "\<not> t_complete (w_token w) \<Longrightarrow> token_step w (w\<lparr>w_asleep := th # w_asleep w\<rparr>)"
| give_up: "token_step w (w\<lparr>w_asleep := remove1 th (w_asleep w)\<rparr>)"
| completed: "token_step w (w\<lparr>w_token := fst (complete_token c (w_token w)), w_notifying := Suc (w_notifying w)\<rparr>)"
| notified: "w_notifying w = Suc n \<Longrightarrow> token_step w (w\<lparr>w_notifying := n, w_asleep := []\<rparr>)"
| listen: "token_step w (w\<lparr>w_token := fst (set_action_callback l (w_token w))\<rparr>)"
| message_id: "token_step w (w\<lparr>w_token := set_message_id i (w_token w)\<rparr>)"
| reset: "token_step w (w\<lparr>w_token := token_reset (w_token w)\<rparr>)"

inductive token_reachable :: "'p token_world \<Rightarrow> bool" where
  start: "token_reachable \<lparr>w_token = new_token typ topics cb, w_asleep = [], w_notifying = 0\<rparr>"
| step: "token_reachable w \<Longrightarrow> token_step w w' \<Longrightarrow> token_reachable w'"

definition waiters_inv :: "'p token_world \<Rightarrow> bool" where
  "waiters_inv w \<longleftrightarrow> t_complete (w_token w) \<longrightarrow> w_asleep w = [] \<or> 0 < w_notifying w"

lemma token_step_waiters: "token_step w w' \<Longrightarrow> waiters_inv w \<Longrightarrow> waiters_inv w'"
  by (induction rule: token_step.induct)
    (auto simp: waiters_inv_def set_action_callback_def set_message_id_def token_reset_def Let_def)

text \<open>Nobody waits for a completed operation in vain. In every reachable state in which a token is complete
  and a thread sleeps on it, a callback is about to notify all sleepers, and that notification wakes
  them; a thread that calls \<open>wait\<close> then does not sleep at all.\<close>

lemma no_waiter_is_forgotten:
  assumes "token_reachable w" and "t_complete (w_token w)"
  shows "(w_asleep w = [] \<or> (\<exists>n w'. w_notifying w = Suc n \<and> w' = w\<lparr>w_notifying := n, w_asleep := []\<rparr> \<and> token_step w w'))
    \<and> (\<exists>r. wait lib (w_token w) = Some r)"
proof -
  from assms(1) have "waiters_inv w"
  proof (induction rule: token_reachable.induct)
    case (start ty topics cb)
    show ?case by (simp add: waiters_inv_def)
  qed (rule token_step_waiters)
  with assms(2) have "w_asleep w = [] \<or> (\<exists>n. w_notifying w = Suc n)"
    by (auto simp: waiters_inv_def gr0_conv_Suc)
  with assms(2) show ?thesis by (auto simp: wait_def intro: token_step.notified)
qed

definition waiting_world :: "nat token_world" where
  "waiting_world = \<lparr>w_token = fst (complete_token (Success None) (new_token PUBLISH None None)), w_asleep = [3], w_notifying = 1\<rparr>"

lemma no_waiter_is_forgotten_example:
  "\<exists>w'. token_step waiting_world w' \<and> w_asleep w' = []"
proof -
  let ?w0 = "\<lparr>w_token = new_token PUBLISH None None, w_asleep = [], w_notifying = 0\<rparr> :: nat token_world"
  let ?w1 = "?w0\<lparr>w_asleep := 3 # w_asleep ?w0\<rparr>"
  have "token_step ?w0 ?w1" by (rule token_step.sleep) (simp add: new_token_def)
  then have r1: "token_reachable ?w1" by (rule token_reachable.step [OF token_reachable.start])
  have "token_step ?w1 (?w1\<lparr>w_token := fst (complete_token (Success None) (w_token ?w1)), w_notifying := Suc (w_notifying ?w1)\<rparr>)"
    by (rule token_step.completed)
  then have "token_step ?w1 waiting_world" by (simp add: waiting_world_def)
  with r1 have r2: "token_reachable waiting_world" by (rule token_reachable.step)
  have "t_complete (w_token waiting_world)" by (simp add: waiting_world_def on_success_def Let_def)
  from no_waiter_is_forgotten [OF r2 this, of undefined] show ?thesis
    by (auto simp: waiting_world_def)
qed

end
