(* ===== verification/Mqtt_Client.thy ===== *)
theory Mqtt_Client
  imports Mqtt_Token Thread_Queue
begin

text \<open>
  \<open>async_client.h\<close>, \<open>async_client.cpp\<close>, \<open>event.h\<close> and the options' \<open>set_token\<close> of
  \<open>controller/deps/paho.mqtt.cpp\<close>: the client's operations, the tokens it keeps for those in flight, and the
  callbacks through which the C library reports completions, connections and messages.

  Tokens live at addresses. An operation has two parts: \<open>\<dots>_begin\<close> up to the call of the C library, whose
  arguments are a \<open>request\<close>, and \<open>\<dots>_end\<close> with the code that call returned; between them, and later, the
  library's threads run the callbacks.
\<close>

section \<open>Events\<close>

text \<open>A message event holds a pointer, null in a default-constructed event.\<close>

datatype 'p event =
    Message_event "'p message option"
  | Connected_event string
  | Connection_lost_event string
  | Disconnected_event "'p list" int
  | Shutdown_event

definition new_event :: "'p event" where
  "new_event = Message_event None"

fun is_message :: "'p event \<Rightarrow> bool" where
  "is_message (Message_event _) = True" | "is_message _ = False"

fun is_connected :: "'p event \<Rightarrow> bool" where
  "is_connected (Connected_event _) = True" | "is_connected _ = False"

fun is_connection_lost :: "'p event \<Rightarrow> bool" where
  "is_connection_lost (Connection_lost_event _) = True" | "is_connection_lost _ = False"

fun is_disconnected :: "'p event \<Rightarrow> bool" where
  "is_disconnected (Disconnected_event _ _) = True" | "is_disconnected _ = False"

text \<open>As written: it tests for the alternative of \<open>is_disconnected\<close>.\<close>

fun is_shutdown :: "'p event \<Rightarrow> bool" where
  "is_shutdown (Disconnected_event _ _) = True" | "is_shutdown _ = False"

fun is_any_disconnect :: "'p event \<Rightarrow> bool" where
  "is_any_disconnect (Connection_lost_event _) = True"
| "is_any_disconnect (Disconnected_event _ _) = True"
| "is_any_disconnect Shutdown_event = True"
| "is_any_disconnect _ = False"

fun get_message :: "'p event \<Rightarrow> mqtt_error + 'p message option" where
  "get_message (Message_event m) = Inr m" | "get_message _ = Inl Bad_cast"

fun get_message_if :: "'p event \<Rightarrow> 'p message option option" where
  "get_message_if (Message_event m) = Some m" | "get_message_if _ = None"

fun get_disconnected_if :: "'p event \<Rightarrow> ('p list \<times> int) option" where
  "get_disconnected_if (Disconnected_event ps r) = Some (ps, r)" | "get_disconnected_if _ = None"

section \<open>What the C library is given\<close>

text \<open>The callbacks installed in a structure of options, and the context they are called with.\<close>

record callbacks =
  cb_success :: bool
  cb_failure :: bool
  cb_success5 :: bool
  cb_failure5 :: bool
  cb_context :: "nat option"

abbreviation (input) no_callbacks :: callbacks where
  "no_callbacks \<equiv> \<lparr>cb_success = False, cb_failure = False, cb_success5 = False, cb_failure5 = False, cb_context = None\<rparr>"

definition set_mqtt_version :: "int \<Rightarrow> callbacks \<Rightarrow> callbacks" where
  "set_mqtt_version v cbs =
     (if v < 5 then cbs\<lparr>cb_success := True, cb_failure := True, cb_success5 := False, cb_failure5 := False\<rparr>
      else cbs\<lparr>cb_success5 := True, cb_failure5 := True, cb_success := False, cb_failure := False\<rparr>)"

text \<open>\<open>response_options\<close> through its builder, with the properties and the options of the subscriptions.\<close>

record ('p, 'o) response_options =
  ro_callbacks :: callbacks
  ro_props :: "'p list"
  ro_sub_opts :: "'o list"

definition new_response_options :: "int \<Rightarrow> ('p, 'o) response_options" where
  "new_response_options v = \<lparr>ro_callbacks = set_mqtt_version v no_callbacks, ro_props = [], ro_sub_opts = []\<rparr>"

definition ro_set_token :: "nat \<Rightarrow> ('p, 'o) response_options \<Rightarrow> ('p, 'o) response_options" where
  "ro_set_token a r = r\<lparr>ro_callbacks := (ro_callbacks r)\<lparr>cb_context := Some a\<rparr>\<rparr>"

definition ro_set_subscribe_options :: "'o list \<Rightarrow> ('p, 'o) response_options \<Rightarrow> ('p, 'o) response_options" where
  "ro_set_subscribe_options os r = r\<lparr>ro_sub_opts := os\<rparr>"

definition ro_set_properties :: "'p list \<Rightarrow> ('p, 'o) response_options \<Rightarrow> ('p, 'o) response_options" where
  "ro_set_properties ps r = r\<lparr>ro_props := ps\<rparr>"

definition delivery_response_options :: "nat \<Rightarrow> int \<Rightarrow> callbacks" where
  "delivery_response_options a v =
     (let cbs = (if v < 5 then no_callbacks\<lparr>cb_success := True, cb_failure := True\<rparr>
               else no_callbacks\<lparr>cb_success5 := True, cb_failure5 := True\<rparr>)
      in cbs\<lparr>cb_context := Some a\<rparr>)"

record connect_options =
  co_version :: int
  co_cleanstart :: int
  co_cleansession :: int
  co_callbacks :: callbacks

definition connect_set_token :: "nat option \<Rightarrow> connect_options \<Rightarrow> connect_options" where
  "connect_set_token tok c =
     (let cbs = (co_callbacks c)\<lparr>cb_context := tok, cb_success := False, cb_failure := False,
                 cb_success5 := False, cb_failure5 := False\<rparr>;
          cbs = (if tok = None then cbs
               else if co_version c < 5 then cbs\<lparr>cb_success := True, cb_failure := True\<rparr>
               else cbs\<lparr>cb_success5 := True, cb_failure5 := True\<rparr>)
      in c\<lparr>co_callbacks := cbs\<rparr>)"

definition disconnect_set_token :: "nat option \<Rightarrow> int \<Rightarrow> callbacks \<Rightarrow> callbacks" where
  "disconnect_set_token tok v cbs =
     (let cbs = cbs\<lparr>cb_context := tok, cb_success := False, cb_failure := False, cb_success5 := False, cb_failure5 := False\<rparr>
      in if tok = None then cbs
         else if 5 \<le> v then cbs\<lparr>cb_success5 := True, cb_failure5 := True\<rparr>
         else cbs\<lparr>cb_success := True, cb_failure := True\<rparr>)"

datatype ('p, 'o) request =
    Req_connect connect_options
  | Req_reconnect
  | Req_disconnect callbacks
  | Req_send string "'p message" callbacks
  | Req_subscribe string int "('p, 'o) response_options"
  | Req_subscribe_many "string list" "int list" "('p, 'o) response_options"
  | Req_unsubscribe string "('p, 'o) response_options"
  | Req_unsubscribe_many "string list" "('p, 'o) response_options"

section \<open>The client\<close>

text \<open>Which of the client's static callbacks the C library has been given.\<close>

record installed =
  i_connected :: bool
  i_lost :: bool
  i_message :: bool
  i_disconnected :: bool

record 'p async_client =
  a_version :: int
  a_installed :: installed
  a_user_callback :: bool
  a_conn_handler :: bool
  a_conn_lost_handler :: bool
  a_disconnected_handler :: bool
  a_msg_handler :: bool
  a_conn_opts :: connect_options
  a_conn_tok :: "nat option"
  a_pending :: "nat list"
  a_pending_delivery :: "nat list"
  a_que :: "'p event thread_queue option"
  a_tokens :: "nat \<Rightarrow> 'p token"
  a_next :: nat

text \<open>What the client calls in the program: the user's callback object, the handlers, and the listeners of tokens.\<close>

datatype 'p user_call =
    Cb_connected string
  | Cb_connection_lost string
  | Cb_message_arrived "'p message"
  | Cb_delivery_complete nat
  | Handler_connected string
  | Handler_connection_lost string
  | Handler_disconnected "'p list" int
  | Handler_message "'p message"
  | Listener nat nat bool

text \<open>A token is allocated at the next free address.\<close>

definition alloc_token :: "'p token \<Rightarrow> 'p async_client \<Rightarrow> nat \<times> 'p async_client" where
  "alloc_token t s = (a_next s, s\<lparr>a_tokens := (a_tokens s)(a_next s := t), a_next := Suc (a_next s)\<rparr>)"

definition update_token :: "nat \<Rightarrow> ('p token \<Rightarrow> 'p token) \<Rightarrow> 'p async_client \<Rightarrow> 'p async_client" where
  "update_token a f s = s\<lparr>a_tokens := (a_tokens s)(a := f (a_tokens s a))\<rparr>"

definition add_token :: "nat \<Rightarrow> 'p async_client \<Rightarrow> 'p async_client" where
  "add_token a s = s\<lparr>a_pending := a_pending s @ [a]\<rparr>"

definition add_delivery_token :: "nat \<Rightarrow> 'p async_client \<Rightarrow> 'p async_client" where
  "add_delivery_token a s = s\<lparr>a_pending_delivery := a_pending_delivery s @ [a]\<rparr>"

definition remove_token :: "nat \<Rightarrow> 'p async_client \<Rightarrow> 'p async_client \<times> 'p user_call list" where
  "remove_token a s =
     (if a \<in> set (a_pending_delivery s) then
        (s\<lparr>a_pending_delivery := remove1 a (a_pending_delivery s)\<rparr>,
         if a_user_callback s then
           (case t_message (a_tokens s a) of
              Some m \<Rightarrow> if 0 < c_qos m then [Cb_delivery_complete a] else []
            | None \<Rightarrow> [])
         else [])
      else (s\<lparr>a_pending := remove1 a (a_pending s)\<rparr>, []))"

text \<open>A callback of the C library on a token: the locked part with the listener, then the removal.\<close>

definition token_callback :: "nat \<Rightarrow> 'p completion \<Rightarrow> 'p async_client \<Rightarrow> 'p async_client \<times> 'p user_call list" where
  "token_callback a c s =
     (let (t, told) = complete_token c (a_tokens s a)
      in (update_token a (\<lambda>_. t) s, map (\<lambda>(l, ok). Listener l a ok) told))"

section \<open>Operations with a token\<close>

text \<open>The second part of most operations: a request the library refuses leaves no token behind.\<close>

definition op_end :: "c_lib \<Rightarrow> nat \<Rightarrow> int \<Rightarrow> 'p async_client \<Rightarrow> (mqtt_error + nat) \<times> 'p async_client \<times> 'p user_call list" where
  "op_end lib a rc s =
     (if rc \<noteq> MQTTASYNC_SUCCESS then (Inl (Mqtt_error (mqtt_exception_rc lib rc)), remove_token a s)
      else (Inr a, s, []))"

text \<open>\<open>cb\<close>: the user context and the listener of the variants that take them.\<close>

definition connect_begin ::
  "connect_options \<Rightarrow> (nat option \<times> nat) option \<Rightarrow> 'p async_client \<Rightarrow> nat \<times> ('p, 'o) request \<times> 'p async_client" where
  "connect_begin opts cb s =
     (let s = s\<lparr>a_version := co_version opts\<rparr>;
          opts = (if co_version opts < 5 then opts\<lparr>co_cleanstart := 0\<rparr> else opts\<lparr>co_cleansession := 0\<rparr>);
          (a, s) = alloc_token (new_token CONNECT None cb) s;
          s = add_token a (s\<lparr>a_conn_tok := Some a\<rparr>);
          opts = connect_set_token (Some a) opts
      in (a, Req_connect opts, s\<lparr>a_conn_opts := opts\<rparr>))"

definition connect_end ::
  "c_lib \<Rightarrow> int \<Rightarrow> 'p async_client \<Rightarrow> (mqtt_error + nat option) \<times> 'p async_client \<times> 'p user_call list" where
  "connect_end lib rc s =
     (if rc \<noteq> MQTTASYNC_SUCCESS then
        (let (s, calls) = (case a_conn_tok s of None \<Rightarrow> (s, []) | Some a \<Rightarrow> remove_token a s)
         in (Inl (Mqtt_error (mqtt_exception_rc lib rc)), s\<lparr>a_conn_tok := None\<rparr>, calls))
      else (Inr (a_conn_tok s), s, []))"

definition reconnect_begin :: "c_lib \<Rightarrow> 'p async_client \<Rightarrow> mqtt_error + nat \<times> ('p, 'o) request \<times> 'p async_client" where
  "reconnect_begin lib s =
     (case a_conn_tok s of
        None \<Rightarrow> Inl (Mqtt_error (mqtt_exception_msg lib MQTTASYNC_FAILURE ''Can't reconnect before a successful connect''))
      | Some a \<Rightarrow> Inr (a, Req_reconnect, add_token a (update_token a token_reset s)))"

text \<open>\<open>rc1\<close> is what \<open>MQTTAsync_setConnected\<close> returned, \<open>rc2\<close> \<open>MQTTAsync_reconnect\<close>.\<close>

definition reconnect_end ::
  "c_lib \<Rightarrow> nat \<Rightarrow> int \<Rightarrow> int \<Rightarrow> 'p async_client \<Rightarrow> (mqtt_error + nat) \<times> 'p async_client \<times> 'p user_call list" where
  "reconnect_end lib a rc1 rc2 s =
     (let s = (if rc1 = MQTTASYNC_SUCCESS then s\<lparr>a_installed := (a_installed s)\<lparr>i_connected := True\<rparr>\<rparr> else s)
      in op_end lib a (if rc1 = MQTTASYNC_SUCCESS then rc2 else rc1) s)"

definition disconnect_begin :: "(nat option \<times> nat) option \<Rightarrow> 'p async_client \<Rightarrow> nat \<times> ('p, 'o) request \<times> 'p async_client" where
  "disconnect_begin cb s =
     (let (a, s) = alloc_token (new_token DISCONNECT None cb) s;
          s = add_token a s
      in (a, Req_disconnect (disconnect_set_token (Some a) (a_version s) no_callbacks), s))"

definition publish_begin ::
  "'p message \<Rightarrow> (nat option \<times> nat) option \<Rightarrow> 'p async_client \<Rightarrow> nat \<times> ('p, 'o) request \<times> 'p async_client" where
  "publish_begin m cb s =
     (let (a, s) = alloc_token (new_delivery_token m cb) s;
          s = add_delivery_token a s
      in (a, Req_send (c_str_copy (get_topic m)) m (delivery_response_options a (a_version s)), s))"

definition publish_end ::
  "c_lib \<Rightarrow> nat \<Rightarrow> int \<Rightarrow> int \<Rightarrow> 'p async_client \<Rightarrow> (mqtt_error + nat) \<times> 'p async_client \<times> 'p user_call list" where
  "publish_end lib a rc mid s =
     (if rc = MQTTASYNC_SUCCESS then (Inr a, update_token a (set_message_id mid) s, [])
      else (Inl (Mqtt_error (mqtt_exception_rc lib rc)), remove_token a s))"

text \<open>The variants that build the message first, from a string or from a pointer and a length.\<close>

definition publish_parts_begin ::
  "c_lib \<Rightarrow> string \<Rightarrow> string \<Rightarrow> int \<Rightarrow> bool \<Rightarrow> 'p list \<Rightarrow> (nat option \<times> nat) option \<Rightarrow> 'p async_client
    \<Rightarrow> mqtt_error + nat \<times> ('p, 'o) request \<times> 'p async_client" where
  "publish_parts_begin lib t p q retained ps cb s =
     sbind (make_message lib (Some t) (Some p) q retained ps) (\<lambda>m. Inr (publish_begin m cb s))"

definition subscribe_begin ::
  "string \<Rightarrow> int \<Rightarrow> 'o \<Rightarrow> 'p list \<Rightarrow> (nat option \<times> nat) option \<Rightarrow> 'p async_client
    \<Rightarrow> nat \<times> ('p, 'o) request \<times> 'p async_client" where
  "subscribe_begin flt q sub ps cb s =
     (let (a, s) = alloc_token (set_num_expected 0 (new_token SUBSCRIBE (Some [flt]) cb)) s;
          s = add_token a s;
          rsp = ro_set_properties ps (ro_set_subscribe_options [sub] (ro_set_token a (new_response_options (a_version s))))
      in (a, Req_subscribe (c_str_copy flt) q rsp, s))"

definition subscribe_many_begin ::
  "string list \<Rightarrow> int list \<Rightarrow> 'o list \<Rightarrow> 'p list \<Rightarrow> (nat option \<times> nat) option \<Rightarrow> 'p async_client
    \<Rightarrow> mqtt_error + nat \<times> ('p, 'o) request \<times> 'p async_client" where
  "subscribe_many_begin flts qs subs ps cb s =
     (let n = length flts
      in if n \<noteq> length qs then Inl (Invalid_argument ''Collection sizes don't match'')
         else
           (let (a, s) = alloc_token (set_num_expected n (new_token SUBSCRIBE (Some flts) cb)) s;
                s = add_token a s;
                rsp = ro_set_properties ps (ro_set_subscribe_options subs (ro_set_token a (new_response_options (a_version s))))
            in Inr (a, Req_subscribe_many (map c_str_copy flts) qs rsp, s)))"

definition unsubscribe_begin ::
  "string \<Rightarrow> 'p list \<Rightarrow> (nat option \<times> nat) option \<Rightarrow> 'p async_client \<Rightarrow> nat \<times> ('p, 'o) request \<times> 'p async_client" where
  "unsubscribe_begin flt ps cb s =
     (let (a, s) = alloc_token (set_num_expected 0 (new_token UNSUBSCRIBE (Some [flt]) cb)) s;
          s = add_token a s;
          rsp = ro_set_properties ps (ro_set_token a (new_response_options (a_version s)))
      in (a, Req_unsubscribe (c_str_copy flt) rsp, s))"

definition unsubscribe_many_begin ::
  "string list \<Rightarrow> 'p list \<Rightarrow> (nat option \<times> nat) option \<Rightarrow> 'p async_client \<Rightarrow> nat \<times> ('p, 'o) request \<times> 'p async_client" where
  "unsubscribe_many_begin flts ps cb s =
     (let (a, s) = alloc_token (set_num_expected (length flts) (new_token UNSUBSCRIBE (Some flts) cb)) s;
          s = add_token a s;
          rsp = ro_set_properties ps (ro_set_token a (new_response_options (a_version s)))
      in (a, Req_unsubscribe_many (map c_str_copy flts) rsp, s))"

definition get_pending_delivery_token :: "int \<Rightarrow> 'p async_client \<Rightarrow> nat option" where
  "get_pending_delivery_token msg_id s =
     (if 0 < msg_id then List.find (\<lambda>a. t_msg_id (a_tokens s a) = msg_id) (a_pending_delivery s) else None)"

definition get_pending_delivery_tokens :: "'p async_client \<Rightarrow> nat list" where
  "get_pending_delivery_tokens s = filter (\<lambda>a. 0 < t_msg_id (a_tokens s a)) (a_pending_delivery s)"

section \<open>Installing callbacks\<close>

definition set_callback :: "c_lib \<Rightarrow> int \<Rightarrow> int \<Rightarrow> 'p async_client \<Rightarrow> (mqtt_error + unit) \<times> 'p async_client" where
  "set_callback lib rc1 rc2 s =
     (let s = s\<lparr>a_user_callback := True\<rparr>
      in if rc1 = MQTTASYNC_SUCCESS then
           (let i = (a_installed s)\<lparr>i_connected := True\<rparr>;
                i = (if rc2 = MQTTASYNC_SUCCESS then i\<lparr>i_lost := True, i_message := True\<rparr> else i)
            in (Inr (), s\<lparr>a_installed := i\<rparr>))
         else
           (Inl (Mqtt_error (mqtt_exception_rc lib rc1)),
            s\<lparr>a_installed := (a_installed s)\<lparr>i_connected := False\<rparr>, a_user_callback := False\<rparr>))"

definition client_check_ret :: "c_lib \<Rightarrow> int \<Rightarrow> mqtt_error + unit" where
  "client_check_ret lib rc = (if rc \<noteq> MQTTASYNC_SUCCESS then Inl (Mqtt_error (mqtt_exception_rc lib rc)) else Inr ())"

text \<open>The library takes no null message callback, so it gets one that does nothing.\<close>

definition disable_callbacks :: "c_lib \<Rightarrow> int \<Rightarrow> 'p async_client \<Rightarrow> (mqtt_error + unit) \<times> 'p async_client" where
  "disable_callbacks lib rc s =
     (if rc \<noteq> MQTTASYNC_SUCCESS then (Inl (Mqtt_error (mqtt_exception_rc lib rc)), s)
      else (Inr (), s\<lparr>a_installed := (a_installed s)\<lparr>i_lost := False, i_message := False\<rparr>\<rparr>))"

definition set_connected_handler :: "c_lib \<Rightarrow> int \<Rightarrow> 'p async_client \<Rightarrow> (mqtt_error + unit) \<times> 'p async_client" where
  "set_connected_handler lib rc s =
     (let s = s\<lparr>a_conn_handler := True\<rparr>
      in (client_check_ret lib rc, if rc = 0 then s\<lparr>a_installed := (a_installed s)\<lparr>i_connected := True\<rparr>\<rparr> else s))"

definition set_connection_lost_handler :: "c_lib \<Rightarrow> int \<Rightarrow> 'p async_client \<Rightarrow> (mqtt_error + unit) \<times> 'p async_client" where
  "set_connection_lost_handler lib rc s =
     (let s = s\<lparr>a_conn_lost_handler := True\<rparr>
      in (client_check_ret lib rc, if rc = 0 then s\<lparr>a_installed := (a_installed s)\<lparr>i_lost := True\<rparr>\<rparr> else s))"

definition set_disconnected_handler :: "c_lib \<Rightarrow> int \<Rightarrow> 'p async_client \<Rightarrow> (mqtt_error + unit) \<times> 'p async_client" where
  "set_disconnected_handler lib rc s =
     (let s = s\<lparr>a_disconnected_handler := True\<rparr>
      in (client_check_ret lib rc, if rc = 0 then s\<lparr>a_installed := (a_installed s)\<lparr>i_disconnected := True\<rparr>\<rparr> else s))"

definition set_message_callback :: "c_lib \<Rightarrow> int \<Rightarrow> 'p async_client \<Rightarrow> (mqtt_error + unit) \<times> 'p async_client" where
  "set_message_callback lib rc s =
     (let s = s\<lparr>a_msg_handler := True\<rparr>
      in (client_check_ret lib rc, if rc = 0 then s\<lparr>a_installed := (a_installed s)\<lparr>i_message := True\<rparr>\<rparr> else s))"

section \<open>The callbacks of the C library\<close>

text \<open>
  A queue that is closed refuses the event, and the callback ignores that. (\<open>put\<close> would block on a queue
  of 2^64 - 1 events; the consumer's queue has that capacity.)
\<close>

definition que_put :: "'p event \<Rightarrow> 'p async_client \<Rightarrow> 'p async_client" where
  "que_put e s =
     (case a_que s of
        None \<Rightarrow> s
      | Some q \<Rightarrow> (case put e q of Some (Inr q') \<Rightarrow> s\<lparr>a_que := Some q'\<rparr> | _ \<Rightarrow> s))"

definition on_connected :: "string option \<Rightarrow> 'p async_client \<Rightarrow> 'p async_client \<times> 'p user_call list" where
  "on_connected cause s =
     (let (s, told) =
        (case a_conn_tok s of
           None \<Rightarrow> (s, [])
         | Some a \<Rightarrow>
             (let (s, told) = token_callback a (Success None) s;
                  (s, removed) = remove_token a s
              in (s, told @ removed)));
          c = to_string_or_empty cause
      in (que_put (Connected_event c) s,
          told @ (if a_user_callback s then [Cb_connected c] else [])
            @ (if a_conn_handler s then [Handler_connected c] else [])))"

definition on_connection_lost :: "string option \<Rightarrow> 'p async_client \<Rightarrow> 'p async_client \<times> 'p user_call list" where
  "on_connection_lost cause s =
     (let c = to_string_or_empty cause
      in (que_put (Connection_lost_event c) s,
          (if a_user_callback s then [Cb_connection_lost c] else [])
            @ (if a_conn_lost_handler s then [Handler_connection_lost c] else [])))"

definition on_disconnected :: "'p list \<Rightarrow> int \<Rightarrow> 'p async_client \<Rightarrow> 'p async_client \<times> 'p user_call list" where
  "on_disconnected ps r s =
     (que_put (Disconnected_event ps r) s,
      if a_disconnected_handler s then [Handler_disconnected ps r] else [])"

record 'p c_message =
  cm_payload :: string
  cm_qos :: int
  cm_retained :: int
  cm_dup :: int
  cm_props :: "'p list"

definition arrived_message :: "string \<Rightarrow> nat \<Rightarrow> 'p c_message \<Rightarrow> 'p message" where
  "arrived_message name len c =
     message_from_c (Some (if len = 0 then c_str_copy name else take len name))
       (cm_payload c) (cm_qos c) (cm_retained c) (cm_dup c) (cm_props c)"

definition on_message_arrived ::
  "string \<Rightarrow> nat \<Rightarrow> 'p c_message \<Rightarrow> 'p async_client \<Rightarrow> 'p async_client \<times> 'p user_call list" where
  "on_message_arrived name len c s =
     (let m = arrived_message name len c
      in (que_put (Message_event (Some m)) s,
          (if a_msg_handler s then [Handler_message m] else [])
            @ (if a_user_callback s then [Cb_message_arrived m] else [])))"

section \<open>Requests\<close>

datatype ('p, 'o) client_op =
    Connect connect_options "(nat option \<times> nat) option"
  | Disconnect "(nat option \<times> nat) option"
  | Publish "'p message" "(nat option \<times> nat) option"
  | Publish_parts string string int bool "'p list" "(nat option \<times> nat) option"
  | Subscribe string int 'o "'p list" "(nat option \<times> nat) option"
  | Subscribe_many "string list" "int list" "'o list" "'p list" "(nat option \<times> nat) option"
  | Unsubscribe string "'p list" "(nat option \<times> nat) option"
  | Unsubscribe_many "string list" "'p list" "(nat option \<times> nat) option"

fun issue :: "c_lib \<Rightarrow> ('p, 'o) client_op \<Rightarrow> 'p async_client \<Rightarrow> mqtt_error + nat \<times> ('p, 'o) request \<times> 'p async_client" where
  "issue lib (Connect opts cb) s = Inr (connect_begin opts cb s)"
| "issue lib (Disconnect cb) s = Inr (disconnect_begin cb s)"
| "issue lib (Publish m cb) s = Inr (publish_begin m cb s)"
| "issue lib (Publish_parts t p q r ps cb) s = publish_parts_begin lib t p q r ps cb s"
| "issue lib (Subscribe f q sub ps cb) s = Inr (subscribe_begin f q sub ps cb s)"
| "issue lib (Subscribe_many fs qs subs ps cb) s = subscribe_many_begin fs qs subs ps cb s"
| "issue lib (Unsubscribe f ps cb) s = Inr (unsubscribe_begin f ps cb s)"
| "issue lib (Unsubscribe_many fs ps cb) s = Inr (unsubscribe_many_begin fs ps cb s)"

fun op_type :: "('p, 'o) client_op \<Rightarrow> token_type" where
  "op_type (Connect _ _) = CONNECT"
| "op_type (Disconnect _) = DISCONNECT"
| "op_type (Publish _ _) = PUBLISH"
| "op_type (Publish_parts _ _ _ _ _ _) = PUBLISH"
| "op_type (Subscribe _ _ _ _ _) = SUBSCRIBE"
| "op_type (Subscribe_many _ _ _ _ _) = SUBSCRIBE"
| "op_type (Unsubscribe _ _ _) = UNSUBSCRIBE"
| "op_type (Unsubscribe_many _ _ _) = UNSUBSCRIBE"

fun request_callbacks :: "('p, 'o) request \<Rightarrow> callbacks option" where
  "request_callbacks (Req_connect c) = Some (co_callbacks c)"
| "request_callbacks Req_reconnect = None"
| "request_callbacks (Req_disconnect cbs) = Some cbs"
| "request_callbacks (Req_send _ _ cbs) = Some cbs"
| "request_callbacks (Req_subscribe _ _ r) = Some (ro_callbacks r)"
| "request_callbacks (Req_subscribe_many _ _ r) = Some (ro_callbacks r)"
| "request_callbacks (Req_unsubscribe _ r) = Some (ro_callbacks r)"
| "request_callbacks (Req_unsubscribe_many _ r) = Some (ro_callbacks r)"

definition version_callbacks :: "int \<Rightarrow> nat \<Rightarrow> callbacks" where
  "version_callbacks v a =
     (if v < 5 then \<lparr>cb_success = True, cb_failure = True, cb_success5 = False, cb_failure5 = False, cb_context = Some a\<rparr>
      else \<lparr>cb_success = False, cb_failure = False, cb_success5 = True, cb_failure5 = True, cb_context = Some a\<rparr>)"

lemmas begin_defs = connect_begin_def disconnect_begin_def publish_begin_def publish_parts_begin_def
  subscribe_begin_def subscribe_many_begin_def unsubscribe_begin_def unsubscribe_many_begin_def

lemmas option_defs = connect_set_token_def disconnect_set_token_def delivery_response_options_def
  new_response_options_def set_mqtt_version_def ro_set_token_def ro_set_subscribe_options_def ro_set_properties_def

text \<open>What an operation that gets as far as the library does to the client.\<close>

definition token_kind :: "'p async_client \<Rightarrow> nat \<Rightarrow> token_type \<times> 'p message option" where
  "token_kind s a = (t_type (a_tokens s a), t_message (a_tokens s a))"

definition issued :: "nat \<Rightarrow> token_type \<Rightarrow> 'p async_client \<Rightarrow> 'p async_client \<Rightarrow> bool" where
  "issued a ty s s' \<longleftrightarrow> a = a_next s \<and> a_next s' = Suc a \<and> a_user_callback s' = a_user_callback s
     \<and> fst (token_kind s' a) = ty \<and> (ty = PUBLISH \<longleftrightarrow> snd (token_kind s' a) \<noteq> None)
     \<and> list_all (\<lambda>b. token_kind s' b = token_kind s b) [0..<a]
     \<and> a_conn_tok s' = (if ty = CONNECT then Some a else a_conn_tok s)
     \<and> a_pending s' = a_pending s @ (if ty = PUBLISH then [] else [a])
     \<and> a_pending_delivery s' = a_pending_delivery s @ (if ty = PUBLISH then [a] else [])
     \<and> fresh_token (a_tokens s' a)"

lemmas token_defs = alloc_token_def add_token_def add_delivery_token_def new_delivery_token_def new_token_def
  set_num_expected_def token_kind_def fresh_token_def

lemma issue_issued: "issue lib opr s = Inr (a, req, s') \<Longrightarrow> issued a (op_type opr) s s'"
  by (cases opr) (auto simp: begin_defs Let_def token_defs issued_def list_all_iff split: if_splits)

lemma issue_callbacks:
  "issue lib opr s = Inr (a, req, s') \<Longrightarrow> request_callbacks req = Some (version_callbacks (a_version s') a)"
  by (cases opr) (auto simp: begin_defs Let_def token_defs option_defs version_callbacks_def split: if_splits)

text \<open>Every request reaches the library with a token of its own and the callbacks of the client's protocol
  version: both of that version, none of the other, with the address of the new token as their context;
  the token is fresh and stands at the end of the list of its kind.\<close>

lemma request_carries_its_token:
  assumes "issue lib opr s = Inr (a, req, s')"
  shows "request_callbacks req = Some (version_callbacks (a_version s') a)
    \<and> a = a_next s \<and> t_type (a_tokens s' a) = op_type opr \<and> fresh_token (a_tokens s' a)
    \<and> a_pending s' @ a_pending_delivery s'
      = (if op_type opr = PUBLISH then a_pending s @ a_pending_delivery s @ [a]
         else a_pending s @ [a] @ a_pending_delivery s)"
  using issue_callbacks [OF assms] issue_issued [OF assms]
  by (cases "op_type opr = PUBLISH") (auto simp: issued_def token_kind_def)

definition new_client :: "bool \<Rightarrow> 'p async_client" where
  "new_client user = \<lparr>a_version = 0, a_installed = \<lparr>i_connected = False, i_lost = False, i_message = False, i_disconnected = False\<rparr>,
     a_user_callback = user, a_conn_handler = False, a_conn_lost_handler = False, a_disconnected_handler = False,
     a_msg_handler = False,
     a_conn_opts = \<lparr>co_version = 0, co_cleanstart = 0, co_cleansession = 1, co_callbacks = no_callbacks\<rparr>,
     a_conn_tok = None, a_pending = [], a_pending_delivery = [], a_que = None,
     a_tokens = (\<lambda>_. new_token CONNECT None None), a_next = 0\<rparr>"

lemma request_carries_its_token_example:
  "request_callbacks (Req_send ''t'' (new_message\<lparr>m_topic := Some ''t''\<rparr>) (delivery_response_options 0 0) :: (nat, nat) request)
    = Some \<lparr>cb_success = True, cb_failure = True, cb_success5 = False, cb_failure5 = False, cb_context = Some 0\<rparr>"
proof -
  let ?m = "new_message\<lparr>m_topic := Some ''t''\<rparr> :: nat message"
  let ?s = "new_client True :: nat async_client"
  have "issue undefined (Publish ?m None :: (nat, nat) client_op) ?s
      = Inr (0, Req_send ''t'' ?m (delivery_response_options 0 0), snd (snd (publish_begin ?m None ?s :: nat \<times> (nat, nat) request \<times> nat async_client)))"
    by (simp add: publish_begin_def token_defs Let_def get_topic_def to_string_or_empty_def new_client_def c_str_copy_def)
  from request_carries_its_token [OF this] show ?thesis
    by (simp add: publish_begin_def token_defs Let_def version_callbacks_def new_client_def)
qed

end
