(* ===== verification/Mqtt_Ssl.thy ===== *)
theory Mqtt_Ssl
  imports Mqtt_Message "HOL-Library.Word"
begin

text \<open>
  The class \<open>ssl_options\<close> of \<open>ssl_options.h\<close> and \<open>ssl_options.cpp\<close> (\<open>controller/deps/paho.mqtt.cpp\<close>): the options
  with the C structure beside them, the two callbacks of the C library, and the wire format of the names
  of protocols (ALPN). The invariant says that the structure points at the object it belongs to.
\<close>

section \<open>The structure and the object\<close>

text \<open>
  A pointer from a C structure into a C++ object is the address of the complete object that owns what it
  points at; \<^term>\<open>None\<close> is the null pointer. Different objects have different addresses.
\<close>

type_synonym owner = "nat option"

text \<open>The private \<open>c_str\<close>: a null pointer for an empty string, and \<open>data()\<close> of a vector that is not empty.\<close>

definition c_ptr :: "nat \<Rightarrow> 'a list \<Rightarrow> owner" where
  "c_ptr self s = (if s = [] then None else Some self)"

record c_ssl =
  cs_trust_store :: owner
  cs_key_store :: owner
  cs_private_key :: owner
  cs_private_key_password :: owner
  cs_ca_path :: owner
  cs_cipher_suites :: owner
  cs_enable_auth :: int
  cs_ssl_version :: int
  cs_verify :: int
  cs_error_cb :: bool
  cs_error_context :: owner
  cs_psk_cb :: bool
  cs_psk_context :: owner
  cs_protos :: owner
  cs_protos_len :: "32 word"

text \<open>
  The error handler returns (true) or throws (false). The handler for pre-shared keys gets the hint and the
  two sizes, and throws (\<^term>\<open>None\<close>) or returns the length of the key; what it writes goes to the C library.
\<close>

type_synonym error_handler = "string \<Rightarrow> bool"
type_synonym psk_handler = "string \<Rightarrow> 32 word \<Rightarrow> 32 word \<Rightarrow> 32 word option"

record ssl_options =
  ss_self :: nat
  ss_opts :: c_ssl
  ss_trust_store :: string
  ss_key_store :: string
  ss_private_key :: string
  ss_private_key_password :: string
  ss_ca_path :: string
  ss_cipher_suites :: string
  ss_err_handler :: "error_handler option"
  ss_psk_handler :: "psk_handler option"
  ss_protos :: "8 word list"

section \<open>Protocol names in wire format\<close>

text \<open>\<open>uchar(c)\<close> and \<open>char(u)\<close>.\<close>

definition uchar :: "char \<Rightarrow> 8 word" where
  "uchar ch = word_of_nat (of_char ch)"

definition char_of_uchar :: "8 word \<Rightarrow> char" where
  "char_of_uchar w = char_of (unat w)"

text \<open>\<open>set_alpn_protos\<close>: each name with its length in one byte before it, \<open>uchar(proto.length())\<close>.\<close>

definition alpn_bytes :: "string list \<Rightarrow> 8 word list" where
  "alpn_bytes ps = concat (map (\<lambda>p. word_of_nat (length p) # map uchar p) ps)"

text \<open>\<open>get_alpn_protos\<close>: a name that does not fit into what is left ends the loop.\<close>

function alpn_from :: "8 word list \<Rightarrow> string list" where
  "alpn_from [] = []"
| "alpn_from (b # bs) =
     (if length bs < unat b then []
      else map char_of_uchar (take (unat b) bs) # alpn_from (drop (unat b) bs))"
  by pat_completeness auto
termination by (relation "measure length") simp_all

definition get_alpn_protos :: "ssl_options \<Rightarrow> string list" where
  "get_alpn_protos s = alpn_from (ss_protos s)"

definition set_alpn_protos :: "string list \<Rightarrow> ssl_options \<Rightarrow> ssl_options" where
  "set_alpn_protos ps s =
     (let bs = alpn_bytes ps
      in if ps \<noteq> [] then s\<lparr>ss_protos := bs,
           ss_opts := (ss_opts s)\<lparr>cs_protos := Some (ss_self s), cs_protos_len := word_of_nat (length bs)\<rparr>\<rparr>
         else s\<lparr>ss_protos := [], ss_opts := (ss_opts s)\<lparr>cs_protos := None, cs_protos_len := 0\<rparr>\<rparr>)"

section \<open>Keeping the structure up to date\<close>

definition ssl_update :: "ssl_options \<Rightarrow> ssl_options" where
  "ssl_update s =
     (let me = ss_self s; handled = (\<lambda>h. if h then Some me else None)
      in s\<lparr>ss_opts := (ss_opts s)
           \<lparr>cs_trust_store := c_ptr me (ss_trust_store s), cs_key_store := c_ptr me (ss_key_store s),
            cs_private_key := c_ptr me (ss_private_key s),
            cs_private_key_password := c_ptr me (ss_private_key_password s),
            cs_ca_path := c_ptr me (ss_ca_path s), cs_cipher_suites := c_ptr me (ss_cipher_suites s),
            cs_error_cb := ss_err_handler s \<noteq> None, cs_error_context := handled (ss_err_handler s \<noteq> None),
            cs_psk_cb := ss_psk_handler s \<noteq> None, cs_psk_context := handled (ss_psk_handler s \<noteq> None),
            cs_protos := c_ptr me (ss_protos s), cs_protos_len := word_of_nat (length (ss_protos s))\<rparr>\<rparr>)"

text \<open>The constructors. \<open>d\<close> is \<open>MQTTAsync_SSLOptions_initializer\<close> of the C library.\<close>

definition ssl_new :: "c_ssl \<Rightarrow> nat \<Rightarrow> ssl_options" where
  "ssl_new d self = \<lparr>ss_self = self, ss_opts = d, ss_trust_store = [], ss_key_store = [], ss_private_key = [],
     ss_private_key_password = [], ss_ca_path = [], ss_cipher_suites = [], ss_err_handler = None,
     ss_psk_handler = None, ss_protos = []\<rparr>"

definition ssl_make ::
  "c_ssl \<Rightarrow> nat \<Rightarrow> string \<Rightarrow> string \<Rightarrow> string \<Rightarrow> string \<Rightarrow> string \<Rightarrow> string \<Rightarrow> bool \<Rightarrow> string list \<Rightarrow> ssl_options" where
  "ssl_make d self trust key priv pass ca suites auth ps =
     (let s = (ssl_new d self)\<lparr>ss_trust_store := trust, ss_key_store := key, ss_private_key := priv,
                ss_private_key_password := pass, ss_ca_path := ca, ss_cipher_suites := suites\<rparr>;
          s = ssl_update (set_alpn_protos ps s)
      in s\<lparr>ss_opts := (ss_opts s)\<lparr>cs_enable_auth := to_int auth\<rparr>\<rparr>)"

text \<open>Copying and moving differ in what is left of the source, which is not modelled for a move.\<close>

definition ssl_copy :: "nat \<Rightarrow> ssl_options \<Rightarrow> ssl_options" where
  "ssl_copy self other = ssl_update (other\<lparr>ss_self := self\<rparr>)"

definition ssl_assign :: "ssl_options \<Rightarrow> ssl_options \<Rightarrow> ssl_options" where
  "ssl_assign s rhs = (if ss_self rhs = ss_self s then s else ssl_update (rhs\<lparr>ss_self := ss_self s\<rparr>))"

section \<open>Setters\<close>

definition set_trust_store :: "string \<Rightarrow> ssl_options \<Rightarrow> ssl_options" where
  "set_trust_store v s = s\<lparr>ss_trust_store := v, ss_opts := (ss_opts s)\<lparr>cs_trust_store := c_ptr (ss_self s) v\<rparr>\<rparr>"

definition set_key_store :: "string \<Rightarrow> ssl_options \<Rightarrow> ssl_options" where
  "set_key_store v s = s\<lparr>ss_key_store := v, ss_opts := (ss_opts s)\<lparr>cs_key_store := c_ptr (ss_self s) v\<rparr>\<rparr>"

definition set_private_key :: "string \<Rightarrow> ssl_options \<Rightarrow> ssl_options" where
  "set_private_key v s = s\<lparr>ss_private_key := v, ss_opts := (ss_opts s)\<lparr>cs_private_key := c_ptr (ss_self s) v\<rparr>\<rparr>"

definition set_private_key_password :: "string \<Rightarrow> ssl_options \<Rightarrow> ssl_options" where
  "set_private_key_password v s =
     s\<lparr>ss_private_key_password := v, ss_opts := (ss_opts s)\<lparr>cs_private_key_password := c_ptr (ss_self s) v\<rparr>\<rparr>"

definition set_enabled_cipher_suites :: "string \<Rightarrow> ssl_options \<Rightarrow> ssl_options" where
  "set_enabled_cipher_suites v s =
     s\<lparr>ss_cipher_suites := v, ss_opts := (ss_opts s)\<lparr>cs_cipher_suites := c_ptr (ss_self s) v\<rparr>\<rparr>"

definition set_ca_path :: "string \<Rightarrow> ssl_options \<Rightarrow> ssl_options" where
  "set_ca_path v s = s\<lparr>ss_ca_path := v, ss_opts := (ss_opts s)\<lparr>cs_ca_path := c_ptr (ss_self s) v\<rparr>\<rparr>"

definition set_enable_server_cert_auth :: "bool \<Rightarrow> ssl_options \<Rightarrow> ssl_options" where
  "set_enable_server_cert_auth b s = s\<lparr>ss_opts := (ss_opts s)\<lparr>cs_enable_auth := to_int b\<rparr>\<rparr>"

definition set_ssl_version :: "int \<Rightarrow> ssl_options \<Rightarrow> ssl_options" where
  "set_ssl_version v s = s\<lparr>ss_opts := (ss_opts s)\<lparr>cs_ssl_version := v\<rparr>\<rparr>"

definition set_verify :: "bool \<Rightarrow> ssl_options \<Rightarrow> ssl_options" where
  "set_verify b s = s\<lparr>ss_opts := (ss_opts s)\<lparr>cs_verify := to_int b\<rparr>\<rparr>"

definition set_error_handler :: "error_handler option \<Rightarrow> ssl_options \<Rightarrow> ssl_options" where
  "set_error_handler h s =
     s\<lparr>ss_err_handler := h, ss_opts := (ss_opts s)
         \<lparr>cs_error_cb := h \<noteq> None, cs_error_context := (if h \<noteq> None then Some (ss_self s) else None)\<rparr>\<rparr>"

definition set_psk_handler :: "psk_handler option \<Rightarrow> ssl_options \<Rightarrow> ssl_options" where
  "set_psk_handler h s =
     s\<lparr>ss_psk_handler := h, ss_opts := (ss_opts s)
         \<lparr>cs_psk_cb := h \<noteq> None, cs_psk_context := (if h \<noteq> None then Some (ss_self s) else None)\<rparr>\<rparr>"

section \<open>Callbacks of the C library\<close>

text \<open>\<open>context\<close> is the object, or null. The result is the code and what the handler was told.\<close>

definition on_error :: "string option \<Rightarrow> ssl_options option \<Rightarrow> int \<times> string list" where
  "on_error str context =
     (case (str, context) of
        (Some text, Some s) \<Rightarrow>
          if text = [] then (MQTTASYNC_FAILURE, [])
          else (case ss_err_handler s of
                  None \<Rightarrow> (MQTTASYNC_SUCCESS, [])
                | Some h \<Rightarrow> (if h text then MQTTASYNC_SUCCESS else MQTTASYNC_FAILURE, [text]))
      | _ \<Rightarrow> (MQTTASYNC_FAILURE, []))"

definition on_psk :: "string option \<Rightarrow> 32 word \<Rightarrow> 32 word \<Rightarrow> ssl_options option \<Rightarrow> 32 word" where
  "on_psk hint n m context =
     (case context of None \<Rightarrow> 0
      | Some s \<Rightarrow>
          (case ss_psk_handler s of None \<Rightarrow> 0
           | Some h \<Rightarrow> (case h (to_string_or_empty hint) n m of None \<Rightarrow> 0 | Some r \<Rightarrow> r)))"

section \<open>Names survive the wire format\<close>

lemma char_of_uchar_uchar [simp]: "char_of_uchar (uchar ch) = ch"
proof -
  have "of_char ch < (256 :: nat)" by simp
  then have "unat (uchar ch) = of_char ch" by (simp add: uchar_def unat_of_nat take_bit_nat_eq_self)
  then show ?thesis by (simp add: char_of_uchar_def)
qed

lemma unat_len_byte: "length p < 256 \<Longrightarrow> unat (word_of_nat (length p) :: 8 word) = length p"
  by (simp add: unat_of_nat take_bit_nat_eq_self)

lemma alpn_from_append:
  "length p < 256 \<Longrightarrow> alpn_from (word_of_nat (length p) # map uchar p @ bs) = p # alpn_from bs"
  by (simp add: unat_len_byte comp_def)

lemma alpn_from_bytes: "\<forall>p \<in> set ps. length p < 256 \<Longrightarrow> alpn_from (alpn_bytes ps) = ps"
proof (induction ps)
  case (Cons p ps)
  then show ?case using alpn_from_append [of p "alpn_bytes ps"] by (simp add: alpn_bytes_def)
qed (simp add: alpn_bytes_def)

text \<open>The byte before a name of 256 characters is 0: the name is read back as the empty one, and its
  characters as lengths.\<close>

lemma long_name_is_lost:
  assumes "length p = 256"
  shows "get_alpn_protos (set_alpn_protos (p # ps) s) = [] # alpn_from (map uchar p @ alpn_bytes ps)"
proof -
  have zero: "(word_of_nat (length p) :: 8 word) = 0" using assms by simp
  have "alpn_bytes (p # ps) = 0 # map uchar p @ alpn_bytes ps"
    by (simp only: alpn_bytes_def list.map concat.simps zero append.simps)
  then show ?thesis by (simp add: get_alpn_protos_def set_alpn_protos_def Let_def)
qed

section \<open>The structure points at its object\<close>

definition ssl_agrees :: "ssl_options \<Rightarrow> bool" where
  "ssl_agrees s \<longleftrightarrow>
     (let o' = ss_opts s; me = ss_self s
      in cs_trust_store o' = c_ptr me (ss_trust_store s) \<and> cs_key_store o' = c_ptr me (ss_key_store s)
       \<and> cs_private_key o' = c_ptr me (ss_private_key s)
       \<and> cs_private_key_password o' = c_ptr me (ss_private_key_password s)
       \<and> cs_ca_path o' = c_ptr me (ss_ca_path s) \<and> cs_cipher_suites o' = c_ptr me (ss_cipher_suites s)
       \<and> cs_error_cb o' = (ss_err_handler s \<noteq> None)
       \<and> cs_error_context o' = (if ss_err_handler s = None then None else Some me)
       \<and> cs_psk_cb o' = (ss_psk_handler s \<noteq> None)
       \<and> cs_psk_context o' = (if ss_psk_handler s = None then None else Some me)
       \<and> cs_protos o' = c_ptr me (ss_protos s) \<and> cs_protos_len o' = word_of_nat (length (ss_protos s)))"

text \<open>What the C library's initialiser is documented to be: nothing is set.\<close>

definition c_ssl_empty :: "c_ssl \<Rightarrow> bool" where
  "c_ssl_empty d \<longleftrightarrow>
     cs_trust_store d = None \<and> cs_key_store d = None \<and> cs_private_key d = None \<and> cs_private_key_password d = None
     \<and> cs_ca_path d = None \<and> cs_cipher_suites d = None \<and> \<not> cs_error_cb d \<and> cs_error_context d = None
     \<and> \<not> cs_psk_cb d \<and> cs_psk_context d = None \<and> cs_protos d = None \<and> cs_protos_len d = 0"

text \<open>What a program can build, with any copies and moves between objects.\<close>

inductive ssl_built :: "c_ssl \<Rightarrow> ssl_options \<Rightarrow> bool" for d where
  fresh: "ssl_built d (ssl_new d a)"
| made: "ssl_built d (ssl_make d a t k pk pw ca cs b ps)"
| copied: "ssl_built d s \<Longrightarrow> ssl_built d (ssl_copy a s)"
| assigned: "ssl_built d s \<Longrightarrow> ssl_built d s' \<Longrightarrow> ssl_built d (ssl_assign s s')"
| member: "ssl_built d s \<Longrightarrow> f \<in> {set_trust_store, set_key_store, set_private_key, set_private_key_password,
      set_enabled_cipher_suites, set_ca_path} \<Longrightarrow> ssl_built d (f v s)"
| flag: "ssl_built d s \<Longrightarrow> f \<in> {set_enable_server_cert_auth, set_verify} \<Longrightarrow> ssl_built d (f b s)"
| version: "ssl_built d s \<Longrightarrow> ssl_built d (set_ssl_version n s)"
| errors: "ssl_built d s \<Longrightarrow> ssl_built d (set_error_handler h s)"
| psk: "ssl_built d s \<Longrightarrow> ssl_built d (set_psk_handler g s)"
| alpn: "ssl_built d s \<Longrightarrow> ssl_built d (set_alpn_protos ps s)"

lemma ssl_update_agrees: "ssl_agrees (ssl_update s)"
  by (simp add: ssl_agrees_def ssl_update_def Let_def)

lemma alpn_bytes_empty: "alpn_bytes ps = [] \<longleftrightarrow> ps = []"
  by (cases ps) (simp_all add: alpn_bytes_def)

lemma set_alpn_agrees: "ssl_agrees s \<Longrightarrow> ssl_agrees (set_alpn_protos ps s)"
  by (simp add: ssl_agrees_def set_alpn_protos_def Let_def c_ptr_def alpn_bytes_empty)

lemmas ssl_setter_defs = set_trust_store_def set_key_store_def set_private_key_def set_private_key_password_def
  set_enabled_cipher_suites_def set_ca_path_def set_enable_server_cert_auth_def set_verify_def set_ssl_version_def
  set_error_handler_def set_psk_handler_def

lemma ssl_member_setters_agree:
  assumes "ssl_agrees s"
  shows "ssl_agrees (set_trust_store v s)" "ssl_agrees (set_key_store v s)" "ssl_agrees (set_private_key v s)"
    "ssl_agrees (set_private_key_password v s)" "ssl_agrees (set_enabled_cipher_suites v s)" "ssl_agrees (set_ca_path v s)"
  using assms by (simp_all add: ssl_agrees_def ssl_setter_defs Let_def)

lemma ssl_plain_setters_agree:
  assumes "ssl_agrees s"
  shows "ssl_agrees (set_enable_server_cert_auth b s)" "ssl_agrees (set_verify b s)" "ssl_agrees (set_ssl_version n s)"
    "ssl_agrees (set_error_handler h s)" "ssl_agrees (set_psk_handler g s)"
  using assms by (simp_all add: ssl_agrees_def ssl_setter_defs Let_def)

lemma ssl_make_agrees: "ssl_agrees (ssl_make d a t k pk pw ca cs b ps)"
proof -
  have "ssl_agrees (s\<lparr>ss_opts := (ss_opts s)\<lparr>cs_enable_auth := n\<rparr>\<rparr>) = ssl_agrees s" for s n
    by (simp add: ssl_agrees_def Let_def)
  then show ?thesis by (simp add: ssl_make_def Let_def ssl_update_agrees)
qed

text \<open>Whatever is built, the structure describes the object it lies in, so the C library never reads through
  it into another object, and a callback gets the object that has the handler.\<close>

lemma ssl_struct_agrees: "ssl_built d s \<Longrightarrow> c_ssl_empty d \<Longrightarrow> ssl_agrees s"
proof (induction rule: ssl_built.induct)
  case (fresh a)
  then show ?case by (simp add: ssl_agrees_def ssl_new_def c_ssl_empty_def c_ptr_def Let_def)
next
  case (member s f v)
  then show ?case by (auto simp: ssl_member_setters_agree)
next
  case (flag s f b)
  then show ?case by (auto simp: ssl_plain_setters_agree)
qed (simp_all add: ssl_make_agrees ssl_copy_def ssl_assign_def ssl_update_agrees set_alpn_agrees ssl_plain_setters_agree)

lemma error_reaches_handler:
  "ss_err_handler s = Some h \<Longrightarrow> txt \<noteq> [] \<Longrightarrow> on_error (Some txt) (Some s) = (if h txt then 0 else -1, [txt])"
  by (simp add: on_error_def)

lemma no_context_no_handler: "on_error str None = (-1, []) \<and> on_psk hint n m None = 0"
  by (simp add: on_error_def on_psk_def split: option.split)

section \<open>Properties\<close>

text \<open>Protocol names of at most 255 characters come back from the wire format as they were set, whatever
  the object held before.\<close>

lemma alpn_roundtrip:
  assumes "\<forall>p \<in> set ps. length p < 256"
  shows "get_alpn_protos (set_alpn_protos ps s) = ps"
  using alpn_from_bytes [OF assms] by (simp add: get_alpn_protos_def set_alpn_protos_def Let_def)

definition empty_c_ssl :: c_ssl where
  "empty_c_ssl = \<lparr>cs_trust_store = None, cs_key_store = None, cs_private_key = None, cs_private_key_password = None,
     cs_ca_path = None, cs_cipher_suites = None, cs_enable_auth = 1, cs_ssl_version = 0, cs_verify = 0,
     cs_error_cb = False, cs_error_context = None, cs_psk_cb = False, cs_psk_context = None, cs_protos = None,
     cs_protos_len = 0\<rparr>"

lemma alpn_roundtrip_example:
  "get_alpn_protos (set_alpn_protos [''h2'', ''mqtt'', []] (ssl_new empty_c_ssl 1)) = [''h2'', ''mqtt'', []]"
  by (rule alpn_roundtrip) simp

end
