(* ===== verification/Mqtt_Options.thy ===== *)
theory Mqtt_Options
  imports Mqtt_Client Mqtt_Ssl
begin

text \<open>
  The options of the MQTT client (\<open>controller/deps/paho.mqtt.cpp\<close>): the last will (\<open>will_options.cpp\<close>), the options of
  a connection and its data (\<open>connect_options.cpp\<close>), the options a client is created with
  (\<open>create_options.cpp\<close>), and what \<open>async_client.cpp\<close> does with them when it creates the C client and when
  the C library asks for new connection data. Each object lies beside a C structure; the invariant says
  that the structure describes the object and points nowhere else, and the lemmas name the copies that
  break it. What tokens need of a connection's options is the abstraction that \<open>Mqtt_Client\<close> works with.
\<close>

section \<open>The last will\<close>

text \<open>\<open>cw_topic\<close> and \<open>cw_payload\<close> are what the structure's pointers point at: the shared, immutable string.\<close>

record c_will =
  cw_topic :: "string option"
  cw_payload :: "string option"
  cw_qos :: int
  cw_retained :: int

record 'p will_options =
  wl_opts :: c_will
  wl_topic :: "string option"
  wl_payload :: "string option"
  wl_props :: "'p list"

definition will_set_topic :: "string option \<Rightarrow> 'p will_options \<Rightarrow> 'p will_options" where
  "will_set_topic t w =
     (let s = (case t of None \<Rightarrow> [] | Some s \<Rightarrow> s)
      in w\<lparr>wl_topic := Some s, wl_opts := (wl_opts w)\<lparr>cw_topic := Some s\<rparr>\<rparr>)"

definition will_set_payload :: "string option \<Rightarrow> 'p will_options \<Rightarrow> 'p will_options" where
  "will_set_payload p w =
     (let s = (case p of None \<Rightarrow> [] | Some s \<Rightarrow> s)
      in w\<lparr>wl_payload := Some s, wl_opts := (wl_opts w)\<lparr>cw_payload := Some s\<rparr>\<rparr>)"

text \<open>The constructors. \<open>d\<close> is \<open>MQTTAsync_willOptions_initializer\<close> of the C library.\<close>

definition will_new :: "c_will \<Rightarrow> 'p will_options" where
  "will_new d = will_set_topic (Some []) \<lparr>wl_opts = d, wl_topic = None, wl_payload = None, wl_props = []\<rparr>"

definition will_make :: "c_will \<Rightarrow> string option \<Rightarrow> string option \<Rightarrow> int \<Rightarrow> bool \<Rightarrow> 'p list \<Rightarrow> 'p will_options" where
  "will_make d t p q r ps =
     will_set_payload p (will_set_topic t
       \<lparr>wl_opts = d\<lparr>cw_qos := q, cw_retained := to_int r\<rparr>, wl_topic = None, wl_payload = None, wl_props = ps\<rparr>)"

definition will_of_message :: "c_will \<Rightarrow> 'p message \<Rightarrow> 'p will_options" where
  "will_of_message d m = will_make d (Some (get_topic m)) (m_payload m) (c_qos m) (is_retained m) (m_props m)"

definition will_copy :: "'p will_options \<Rightarrow> 'p will_options" where
  "will_copy w = will_set_payload (wl_payload w) (will_set_topic (wl_topic w) w)"

definition will_set_qos :: "int \<Rightarrow> 'p will_options \<Rightarrow> 'p will_options" where
  "will_set_qos q w = w\<lparr>wl_opts := (wl_opts w)\<lparr>cw_qos := q\<rparr>\<rparr>"

definition will_set_retained :: "bool \<Rightarrow> 'p will_options \<Rightarrow> 'p will_options" where
  "will_set_retained b w = w\<lparr>wl_opts := (wl_opts w)\<lparr>cw_retained := to_int b\<rparr>\<rparr>"

definition will_set_properties :: "'p list \<Rightarrow> 'p will_options \<Rightarrow> 'p will_options" where
  "will_set_properties ps w = w\<lparr>wl_props := ps\<rparr>"

text \<open>\<open>get_message\<close> builds a message without the properties; its quality of service is checked there.\<close>

definition will_get_message :: "c_lib \<Rightarrow> 'p will_options \<Rightarrow> mqtt_error + 'p message" where
  "will_get_message lib w =
     make_message lib (wl_topic w) (wl_payload w) (cw_qos (wl_opts w)) (to_bool (cw_retained (wl_opts w))) []"

section \<open>The options of a connection\<close>

text \<open>
  The C structure. Pointers to shared strings are what they point at; a pointer to a member of an object is
  the address of the object (\<open>owner\<close>). The options of the last will and of TLS are members too.
\<close>

record c_connect =
  cc_version :: int
  cc_keep_alive :: int
  cc_cleansession :: int
  cc_cleanstart :: int
  cc_max_inflight :: int
  cc_timeout :: int
  cc_auto_reconnect :: int
  cc_min_retry :: int
  cc_max_retry :: int
  cc_username :: "string option"
  cc_password :: "string option"
  cc_callbacks :: callbacks
  cc_servers :: "string list option"
  cc_will :: owner
  cc_ssl :: owner
  cc_connect_props :: owner
  cc_will_props :: owner
  cc_http_headers :: owner
  cc_http_proxy :: owner
  cc_https_proxy :: owner

record 'p conn_options =
  k_self :: nat
  k_opts :: c_connect
  k_will :: "'p will_options"
  k_ssl :: ssl_options
  k_user :: "string option"
  k_password :: "string option"
  k_tok :: "nat option"
  k_servers :: "string_collection option"
  k_props :: "'p list"
  k_headers :: name_value_collection
  k_proxy :: string
  k_sproxy :: string

text \<open>The initialisers of the C library, for each version, plain and over web sockets.\<close>

record initialisers =
  init3 :: c_connect
  init5 :: c_connect
  init_ws :: c_connect
  init5_ws :: c_connect
  init_ssl :: c_ssl
  init_will :: c_will

text \<open>\<open>c_str\<close> of a \<open>string_ref\<close>, and the test that decides on the pointer to the password.\<close>

definition ref_ptr :: "string option \<Rightarrow> string option" where
  "ref_ptr s = (if to_string_or_empty s = [] then None else s)"

definition version_token :: "nat option \<Rightarrow> int \<Rightarrow> callbacks \<Rightarrow> callbacks" where
  "version_token tok v cbs =
     (let cbs = cbs\<lparr>cb_success := False, cb_failure := False, cb_success5 := False, cb_failure5 := False\<rparr>
      in if tok = None then cbs
         else if v < 5 then cbs\<lparr>cb_success := True, cb_failure := True\<rparr>
         else cbs\<lparr>cb_success5 := True, cb_failure5 := True\<rparr>)"

definition conn_update :: "'p conn_options \<Rightarrow> 'p conn_options" where
  "conn_update k =
     (let c = k_opts k; me = k_self k
      in k\<lparr>k_opts := c
           \<lparr>cc_username := ref_ptr (k_user k), cc_password := ref_ptr (k_password k),
            cc_callbacks := version_token (k_tok k) (cc_version c) (cc_callbacks c),
            cc_servers := (case k_servers k of None \<Rightarrow> None | Some s \<Rightarrow> if coll s = [] then None else Some (c_arr s)),
            cc_connect_props := (if 5 \<le> cc_version c then Some me else cc_connect_props c),
            cc_http_proxy := c_ptr me (k_proxy k), cc_https_proxy := c_ptr me (k_sproxy k)\<rparr>\<rparr>)"

text \<open>The private constructor from a C structure, behind \<open>v3\<close>, \<open>v5\<close>, \<open>ws\<close> and \<open>v5_ws\<close>, and the public ones.\<close>

definition conn_of :: "initialisers \<Rightarrow> nat \<Rightarrow> c_connect \<Rightarrow> 'p conn_options" where
  "conn_of d self c = \<lparr>k_self = self, k_opts = c, k_will = will_new (init_will d), k_ssl = ssl_new (init_ssl d) self,
     k_user = None, k_password = None, k_tok = None, k_servers = None, k_props = [], k_headers = new_nv,
     k_proxy = [], k_sproxy = []\<rparr>"

definition conn_new :: "initialisers \<Rightarrow> nat \<Rightarrow> int \<Rightarrow> 'p conn_options" where
  "conn_new d self v = conn_of d self (if v < 5 then init3 d else init5 d)"

section \<open>Setters\<close>

definition conn_set_will :: "'p will_options \<Rightarrow> 'p conn_options \<Rightarrow> 'p conn_options" where
  "conn_set_will w k =
     (let w = will_copy w
      in k\<lparr>k_will := w, k_opts := (k_opts k)
           \<lparr>cc_will := Some (k_self k), cc_will_props := c_ptr (k_self k) (wl_props w)\<rparr>\<rparr>)"

definition conn_set_will_message :: "initialisers \<Rightarrow> 'p message option \<Rightarrow> 'p conn_options \<Rightarrow> 'p conn_options" where
  "conn_set_will_message d m k =
     (case m of None \<Rightarrow> k | Some m \<Rightarrow> conn_set_will (will_of_message (init_will d) m) k)"

definition conn_set_ssl :: "ssl_options \<Rightarrow> 'p conn_options \<Rightarrow> 'p conn_options" where
  "conn_set_ssl s k = k\<lparr>k_ssl := ssl_assign (k_ssl k) s, k_opts := (k_opts k)\<lparr>cc_ssl := Some (k_self k)\<rparr>\<rparr>"

definition conn_set_user_name :: "string option \<Rightarrow> 'p conn_options \<Rightarrow> 'p conn_options" where
  "conn_set_user_name u k = k\<lparr>k_user := u, k_opts := (k_opts k)\<lparr>cc_username := ref_ptr u\<rparr>\<rparr>"

definition conn_set_password :: "string option \<Rightarrow> 'p conn_options \<Rightarrow> 'p conn_options" where
  "conn_set_password p k = k\<lparr>k_password := p, k_opts := (k_opts k)\<lparr>cc_password := ref_ptr p\<rparr>\<rparr>"

definition conn_set_clean_session :: "bool \<Rightarrow> 'p conn_options \<Rightarrow> 'p conn_options" where
  "conn_set_clean_session b k =
     (if cc_version (k_opts k) < 5 then k\<lparr>k_opts := (k_opts k)\<lparr>cc_cleansession := to_int b\<rparr>\<rparr> else k)"

definition conn_set_clean_start :: "bool \<Rightarrow> 'p conn_options \<Rightarrow> 'p conn_options" where
  "conn_set_clean_start b k =
     (if 5 \<le> cc_version (k_opts k) then k\<lparr>k_opts := (k_opts k)\<lparr>cc_cleanstart := to_int b\<rparr>\<rparr> else k)"

definition conn_set_token :: "nat option \<Rightarrow> 'p conn_options \<Rightarrow> 'p conn_options" where
  "conn_set_token tok k =
     (let c = k_opts k
      in k\<lparr>k_tok := tok,
           k_opts := c\<lparr>cc_callbacks := version_token tok (cc_version c) ((cc_callbacks c)\<lparr>cb_context := tok\<rparr>)\<rparr>\<rparr>)"

definition conn_set_servers :: "string_collection option \<Rightarrow> 'p conn_options \<Rightarrow> 'p conn_options" where
  "conn_set_servers s k = k\<lparr>k_servers := s, k_opts := (k_opts k)\<lparr>cc_servers := map_option c_arr s\<rparr>\<rparr>"

definition conn_set_mqtt_version :: "int \<Rightarrow> 'p conn_options \<Rightarrow> 'p conn_options" where
  "conn_set_mqtt_version v k =
     (let c = (k_opts k)\<lparr>cc_version := v\<rparr>
      in k\<lparr>k_opts := (if v < 5 then c\<lparr>cc_cleanstart := 0\<rparr> else c\<lparr>cc_cleansession := 0\<rparr>)\<rparr>)"

definition conn_set_automatic_reconnect :: "bool \<Rightarrow> 'p conn_options \<Rightarrow> 'p conn_options" where
  "conn_set_automatic_reconnect b k = k\<lparr>k_opts := (k_opts k)\<lparr>cc_auto_reconnect := to_int b\<rparr>\<rparr>"

definition conn_set_retry_intervals :: "int \<Rightarrow> int \<Rightarrow> 'p conn_options \<Rightarrow> 'p conn_options" where
  "conn_set_retry_intervals lo hi k =
     k\<lparr>k_opts := (k_opts k)\<lparr>cc_auto_reconnect := to_int True, cc_min_retry := lo, cc_max_retry := hi\<rparr>\<rparr>"

definition conn_set_keep_alive :: "int \<Rightarrow> 'p conn_options \<Rightarrow> 'p conn_options" where
  "conn_set_keep_alive n k = k\<lparr>k_opts := (k_opts k)\<lparr>cc_keep_alive := n\<rparr>\<rparr>"

definition conn_set_timeout :: "int \<Rightarrow> 'p conn_options \<Rightarrow> 'p conn_options" where
  "conn_set_timeout n k = k\<lparr>k_opts := (k_opts k)\<lparr>cc_timeout := n\<rparr>\<rparr>"

definition conn_set_max_inflight :: "int \<Rightarrow> 'p conn_options \<Rightarrow> 'p conn_options" where
  "conn_set_max_inflight n k = k\<lparr>k_opts := (k_opts k)\<lparr>cc_max_inflight := n\<rparr>\<rparr>"

definition conn_set_properties :: "'p list \<Rightarrow> 'p conn_options \<Rightarrow> 'p conn_options" where
  "conn_set_properties ps k =
     k\<lparr>k_props := ps, k_opts := (k_opts k)\<lparr>cc_connect_props := Some (k_self k), cc_version := 5\<rparr>\<rparr>"

text \<open>\<open>h\<close> is copied, or moved; a copy brings its array up to date.\<close>

definition conn_set_http_headers :: "name_value_collection \<Rightarrow> 'p conn_options \<Rightarrow> 'p conn_options" where
  "conn_set_http_headers h k =
     k\<lparr>k_headers := nv_update_c_arr h, k_opts := (k_opts k)\<lparr>cc_http_headers := c_ptr (k_self k) (nv_map h)\<rparr>\<rparr>"

definition conn_set_http_proxy :: "string \<Rightarrow> 'p conn_options \<Rightarrow> 'p conn_options" where
  "conn_set_http_proxy p k = k\<lparr>k_proxy := p, k_opts := (k_opts k)\<lparr>cc_http_proxy := c_ptr (k_self k) p\<rparr>\<rparr>"

definition conn_set_https_proxy :: "string \<Rightarrow> 'p conn_options \<Rightarrow> 'p conn_options" where
  "conn_set_https_proxy p k = k\<lparr>k_sproxy := p, k_opts := (k_opts k)\<lparr>cc_https_proxy := c_ptr (k_self k) p\<rparr>\<rparr>"

definition conn_make :: "initialisers \<Rightarrow> nat \<Rightarrow> string option \<Rightarrow> string option \<Rightarrow> int \<Rightarrow> 'p conn_options" where
  "conn_make d self u p v = conn_set_password p (conn_set_user_name u (conn_new d self v))"

section \<open>Copies, moves and assignments\<close>

text \<open>
  The copy constructor sets the will and the TLS options only when the source's structure has them. What
  \<open>update_c_struct\<close> does not touch is the source's: the pointer to the headers, and below version 5 the one to
  the properties.
\<close>

definition conn_adopt :: "'p conn_options \<Rightarrow> 'p conn_options \<Rightarrow> 'p conn_options" where
  "conn_adopt k other =
     (let k = k\<lparr>k_opts := k_opts other\<rparr>;
          k = (if cc_will (k_opts k) \<noteq> None then conn_set_will (k_will other) k else k);
          k = (if cc_ssl (k_opts k) \<noteq> None then conn_set_ssl (k_ssl other) k else k)
      in k\<lparr>k_user := k_user other, k_password := k_password other, k_tok := k_tok other, k_servers := k_servers other,
           k_props := k_props other, k_headers := nv_update_c_arr (k_headers other),
           k_proxy := k_proxy other, k_sproxy := k_sproxy other\<rparr>)"

definition conn_copy :: "initialisers \<Rightarrow> nat \<Rightarrow> 'p conn_options \<Rightarrow> 'p conn_options" where
  "conn_copy d self other = conn_update (conn_adopt (conn_of d self (k_opts other)) other)"

definition conn_assign :: "'p conn_options \<Rightarrow> 'p conn_options \<Rightarrow> 'p conn_options" where
  "conn_assign k rhs = (if k_self rhs = k_self k then k else conn_update (conn_adopt k rhs))"

text \<open>A move takes the headers' array along, so what the pointer points at is now the new object's.\<close>

definition take_headers :: "'p conn_options \<Rightarrow> 'p conn_options \<Rightarrow> 'p conn_options" where
  "take_headers other k =
     k\<lparr>k_headers := k_headers other,
       k_opts := (k_opts k)\<lparr>cc_http_headers :=
         (if cc_http_headers (k_opts other) = Some (k_self other) then Some (k_self k) else cc_http_headers (k_opts other))\<rparr>\<rparr>"

definition to_me :: "nat \<Rightarrow> owner \<Rightarrow> owner" where
  "to_me self p = (if p = None then None else Some self)"

definition conn_move :: "nat \<Rightarrow> 'p conn_options \<Rightarrow> 'p conn_options" where
  "conn_move self other =
     (let c = k_opts other;
          k = other\<lparr>k_self := self, k_will := will_copy (k_will other), k_ssl := ssl_copy self (k_ssl other),
                k_opts := c\<lparr>cc_will := to_me self (cc_will c), cc_will_props := to_me self (cc_will_props c),
                            cc_ssl := to_me self (cc_ssl c)\<rparr>\<rparr>
      in conn_update (take_headers other k))"

definition conn_move_assign :: "'p conn_options \<Rightarrow> 'p conn_options \<Rightarrow> 'p conn_options" where
  "conn_move_assign k rhs =
     (if k_self rhs = k_self k then k else conn_update (take_headers rhs (conn_adopt k rhs)))"

section \<open>Connection data\<close>

record c_connect_data =
  ccd_username :: "string option"
  ccd_password :: "string option"

record connect_data =
  cd_data :: c_connect_data
  cd_user :: "string option"
  cd_password :: "string option"

definition data_update :: "connect_data \<Rightarrow> connect_data" where
  "data_update x = x\<lparr>cd_data := \<lparr>ccd_username = ref_ptr (cd_user x), ccd_password = ref_ptr (cd_password x)\<rparr>\<rparr>"

definition data_make :: "string option \<Rightarrow> string option \<Rightarrow> connect_data" where
  "data_make u p = data_update \<lparr>cd_data = \<lparr>ccd_username = None, ccd_password = None\<rparr>, cd_user = u, cd_password = p\<rparr>"

definition data_set_user_name :: "string option \<Rightarrow> connect_data \<Rightarrow> connect_data" where
  "data_set_user_name u x = data_update (x\<lparr>cd_user := u\<rparr>)"

definition data_set_password :: "string option \<Rightarrow> connect_data \<Rightarrow> connect_data" where
  "data_set_password p x = data_update (x\<lparr>cd_password := p\<rparr>)"

definition data_assign :: "connect_data \<Rightarrow> connect_data \<Rightarrow> connect_data" where
  "data_assign x rhs = data_update (x\<lparr>cd_user := cd_user rhs, cd_password := cd_password rhs\<rparr>)"

text \<open>From the C library's structure: the password becomes a string, empty for a null pointer.\<close>

definition data_of_c :: "c_connect_data \<Rightarrow> connect_data" where
  "data_of_c c = data_make (ccd_username c) (Some (to_string_or_empty (ccd_password c)))"

text \<open>
  \<open>on_update_connection\<close>. \<open>h\<close> is the handler, if one is installed: it may change the data and says whether to go
  on. \<open>data.get_password()\<close> is a null reference when the handler has set one.
\<close>

definition on_update_connection ::
  "(connect_data \<Rightarrow> bool \<times> connect_data) option \<Rightarrow> c_connect_data \<Rightarrow> mqtt_error + int \<times> c_connect_data" where
  "on_update_connection h c =
     (case h of None \<Rightarrow> Inr (0, c)
      | Some f \<Rightarrow>
          (case f (data_of_c c) of
             (False, x) \<Rightarrow> Inr (0, c)
           | (True, x) \<Rightarrow>
               (let u = to_string_or_empty (cd_user x); c = c\<lparr>ccd_username := (if u = [] then None else Some (c_str_copy u))\<rparr>
                in case cd_password x of
                     None \<Rightarrow> Inl Null_deref
                   | Some p \<Rightarrow> Inr (to_int True, c\<lparr>ccd_password := (if p = [] then None else Some p)\<rparr>))))"

text \<open>Installing the handler: it is stored before the C library is asked, with the result \<open>rc\<close>.\<close>

definition set_update_connection_handler ::
  "c_lib \<Rightarrow> int \<Rightarrow> (connect_data \<Rightarrow> bool \<times> connect_data)
    \<Rightarrow> (mqtt_error + unit) \<times> (connect_data \<Rightarrow> bool \<times> connect_data) option" where
  "set_update_connection_handler lib rc h = (client_check_ret lib rc, Some h)"

section \<open>Creating a client\<close>

record c_create =
  cr_version :: int
  cr_send_disconnected :: int
  cr_any_time :: int
  cr_max_buffered :: int
  cr_delete_oldest :: int
  cr_restore :: int
  cr_persist_qos0 :: int

text \<open>\<open>persistence_type\<close>: a variant; the pointer to a user's store may be null.\<close>

datatype persistence_type = No_persistence | In_directory string | User_store "nat option"

record create_options =
  co_opts :: c_create
  co_server_uri :: string
  co_client_id :: string
  co_persistence :: persistence_type

text \<open>\<open>d\<close> is \<open>MQTTAsync_createOptions_initializer5\<close>.\<close>

definition create_new :: "c_create \<Rightarrow> create_options" where
  "create_new d = \<lparr>co_opts = d, co_server_uri = [], co_client_id = [], co_persistence = No_persistence\<rparr>"

definition create_for_version :: "c_create \<Rightarrow> int \<Rightarrow> create_options" where
  "create_for_version d v = (create_new d)\<lparr>co_opts := d\<lparr>cr_version := v\<rparr>\<rparr>"

definition create_buffering :: "c_create \<Rightarrow> int \<Rightarrow> int \<Rightarrow> create_options" where
  "create_buffering d v n =
     (let c = d\<lparr>cr_version := v\<rparr>
      in (create_new d)\<lparr>co_opts := (if n \<noteq> 0 then c\<lparr>cr_send_disconnected := to_int True, cr_max_buffered := n\<rparr> else c)\<rparr>)"

definition create_for_uri :: "c_create \<Rightarrow> string \<Rightarrow> string \<Rightarrow> persistence_type \<Rightarrow> create_options" where
  "create_for_uri d uri cid p = \<lparr>co_opts = d, co_server_uri = uri, co_client_id = cid, co_persistence = p\<rparr>"

definition create_for_uri_buffering :: "c_create \<Rightarrow> string \<Rightarrow> string \<Rightarrow> int \<Rightarrow> persistence_type \<Rightarrow> create_options" where
  "create_for_uri_buffering d uri cid n p =
     \<lparr>co_opts = d\<lparr>cr_max_buffered := n\<rparr>, co_server_uri = uri, co_client_id = cid, co_persistence = p\<rparr>"

definition create_with :: "string \<Rightarrow> string \<Rightarrow> create_options \<Rightarrow> persistence_type \<Rightarrow> create_options" where
  "create_with uri cid opts p = \<lparr>co_opts = co_opts opts, co_server_uri = uri, co_client_id = cid, co_persistence = p\<rparr>"

definition set_send_while_disconnected :: "bool \<Rightarrow> bool \<Rightarrow> create_options \<Rightarrow> create_options" where
  "set_send_while_disconnected on any x =
     x\<lparr>co_opts := (co_opts x)\<lparr>cr_send_disconnected := to_int on, cr_any_time := to_int any\<rparr>\<rparr>"

definition create_set_server_uri :: "string \<Rightarrow> create_options \<Rightarrow> create_options" where
  "create_set_server_uri uri x = x\<lparr>co_server_uri := uri\<rparr>"

definition create_set_client_id :: "string \<Rightarrow> create_options \<Rightarrow> create_options" where
  "create_set_client_id cid x = x\<lparr>co_client_id := cid\<rparr>"

definition create_set_persistence :: "persistence_type \<Rightarrow> create_options \<Rightarrow> create_options" where
  "create_set_persistence p x = x\<lparr>co_persistence := p\<rparr>"

definition create_set_max_buffered :: "int \<Rightarrow> create_options \<Rightarrow> create_options" where
  "create_set_max_buffered n x = x\<lparr>co_opts := (co_opts x)\<lparr>cr_max_buffered := n\<rparr>\<rparr>"

definition create_set_version :: "int \<Rightarrow> create_options \<Rightarrow> create_options" where
  "create_set_version v x = x\<lparr>co_opts := (co_opts x)\<lparr>cr_version := v\<rparr>\<rparr>"

definition create_set_delete_oldest :: "bool \<Rightarrow> create_options \<Rightarrow> create_options" where
  "create_set_delete_oldest b x = x\<lparr>co_opts := (co_opts x)\<lparr>cr_delete_oldest := to_int b\<rparr>\<rparr>"

definition create_set_restore :: "bool \<Rightarrow> create_options \<Rightarrow> create_options" where
  "create_set_restore b x = x\<lparr>co_opts := (co_opts x)\<lparr>cr_restore := to_int b\<rparr>\<rparr>"

definition create_set_persist_qos0 :: "bool \<Rightarrow> create_options \<Rightarrow> create_options" where
  "create_set_persist_qos0 b x = x\<lparr>co_opts := (co_opts x)\<lparr>cr_persist_qos0 := to_int b\<rparr>\<rparr>"

text \<open>The call of \<open>MQTTAsync_createWithOptions\<close>: texts up to their first null character, the kind of persistence,
  and the options with the version replaced.\<close>

datatype c_persistence = Persistence_none | Persistence_default string | Persistence_user nat

definition persistence_argument :: "persistence_type \<Rightarrow> c_persistence" where
  "persistence_argument p =
     (case p of
        No_persistence \<Rightarrow> Persistence_none
      | User_store None \<Rightarrow> Persistence_none
      | In_directory dir \<Rightarrow> Persistence_default (c_str_copy dir)
      | User_store (Some store) \<Rightarrow> Persistence_user store)"

definition create_request :: "create_options \<Rightarrow> string \<times> string \<times> c_persistence \<times> c_create" where
  "create_request x =
     (c_str_copy (co_server_uri x), c_str_copy (co_client_id x), persistence_argument (co_persistence x),
      (co_opts x)\<lparr>cr_version := 5\<rparr>)"

text \<open>\<open>create\<close>: \<open>rc\<close> is what the C library returned for the request.\<close>

definition create_client :: "c_lib \<Rightarrow> create_options \<Rightarrow> int \<Rightarrow> 'p async_client \<Rightarrow> (mqtt_error + unit) \<times> 'p async_client" where
  "create_client lib x rc s =
     (let s = s\<lparr>a_version := cr_version (co_opts x)\<rparr>
      in (if rc \<noteq> MQTTASYNC_SUCCESS then Inl (Mqtt_error (mqtt_exception_rc lib rc)) else Inr (), s))"

section \<open>The structure describes the object\<close>

definition will_agrees :: "'p will_options \<Rightarrow> bool" where
  "will_agrees w \<longleftrightarrow> wl_topic w \<noteq> None \<and> wl_payload w \<noteq> None
     \<and> cw_topic (wl_opts w) = wl_topic w \<and> cw_payload (wl_opts w) = wl_payload w"

lemmas will_defs = will_set_topic_def will_set_payload_def will_make_def will_of_message_def will_copy_def will_new_def
  will_set_qos_def will_set_retained_def will_set_properties_def

lemma will_copy_agrees: "will_agrees (will_copy w)"
  by (simp add: will_agrees_def will_defs Let_def)

lemma wl_props_will_copy [simp]: "wl_props (will_copy w) = wl_props w"
  by (simp add: will_defs Let_def)

lemma will_make_agrees: "will_agrees (will_make d t p q r ps)"
  by (simp add: will_agrees_def will_defs Let_def)

text \<open>A default will has no payload in its structure, though \<open>set_payload\<close> says that it must not be null; copying it,
  as \<open>set_will\<close> does, gives it an empty one.\<close>

lemma default_will_has_null_payload:
  "cw_payload d = None \<Longrightarrow> cw_payload (wl_opts (will_new d)) = None \<and> cw_payload (wl_opts (will_copy (will_new d))) = Some []"
  by (simp add: will_defs Let_def)

text \<open>A message given as a will comes back as it was, without its properties.\<close>

lemma will_message_roundtrip:
  assumes "c_qos m \<in> {0, 1, 2}"
  shows "\<exists>m'. will_get_message lib (will_of_message d m) = Inr m' \<and> get_topic m' = get_topic m
    \<and> get_payload m' = get_payload m \<and> c_qos m' = c_qos m \<and> is_retained m' = is_retained m \<and> m_props m' = []"
  using assms by (auto simp: will_get_message_def will_defs make_message_Inr is_retained_def Let_def to_bool_def to_int_def message_defs
      split: option.split)

definition opt_list :: "'a list option \<Rightarrow> 'a list" where
  "opt_list x = (case x of None \<Rightarrow> [] | Some xs \<Rightarrow> xs)"

definition members_agree :: "'p conn_options \<Rightarrow> bool" where
  "members_agree k \<longleftrightarrow>
     cc_username (k_opts k) = ref_ptr (k_user k) \<and> cc_password (k_opts k) = ref_ptr (k_password k)
     \<and> cb_context (cc_callbacks (k_opts k)) = k_tok k
     \<and> opt_list (cc_servers (k_opts k)) = opt_list (map_option c_arr (k_servers k))
     \<and> (\<forall>s. k_servers k = Some s \<longrightarrow> collection_built s)
     \<and> cc_http_proxy (k_opts k) = c_ptr (k_self k) (k_proxy k)
     \<and> cc_https_proxy (k_opts k) = c_ptr (k_self k) (k_sproxy k)"

definition will_part_agrees :: "'p conn_options \<Rightarrow> bool" where
  "will_part_agrees k \<longleftrightarrow>
     (cc_will (k_opts k) = None \<and> cc_will_props (k_opts k) = None
      \<or> cc_will (k_opts k) = Some (k_self k) \<and> will_agrees (k_will k)
          \<and> cc_will_props (k_opts k) = c_ptr (k_self k) (wl_props (k_will k)))"

definition ssl_part_agrees :: "'p conn_options \<Rightarrow> bool" where
  "ssl_part_agrees k \<longleftrightarrow> cc_ssl (k_opts k) \<in> {None, Some (k_self k)} \<and> ss_self (k_ssl k) = k_self k \<and> ssl_agrees (k_ssl k)"

definition props_part_agrees :: "'p conn_options \<Rightarrow> bool" where
  "props_part_agrees k \<longleftrightarrow> cc_connect_props (k_opts k) \<in> {None, Some (k_self k)}"

definition headers_part_agrees :: "'p conn_options \<Rightarrow> bool" where
  "headers_part_agrees k \<longleftrightarrow> cc_http_headers (k_opts k) = c_ptr (k_self k) (nv_map (k_headers k))"

definition conn_agrees :: "'p conn_options \<Rightarrow> bool" where
  "conn_agrees k \<longleftrightarrow> members_agree k \<and> will_part_agrees k \<and> ssl_part_agrees k \<and> props_part_agrees k \<and> headers_part_agrees k"

text \<open>When a copy or a move points nowhere but at itself.\<close>

definition move_safe :: "'p conn_options \<Rightarrow> bool" where
  "move_safe k \<longleftrightarrow> 5 \<le> cc_version (k_opts k) \<or> cc_connect_props (k_opts k) = None"

definition copy_safe :: "'p conn_options \<Rightarrow> bool" where
  "copy_safe k \<longleftrightarrow> move_safe k \<and> cc_http_headers (k_opts k) = None"

definition c_connect_empty :: "c_connect \<Rightarrow> bool" where
  "c_connect_empty c \<longleftrightarrow>
     cc_username c = None \<and> cc_password c = None \<and> cb_context (cc_callbacks c) = None \<and> cc_servers c = None
     \<and> cc_will c = None \<and> cc_ssl c = None \<and> cc_connect_props c = None \<and> cc_will_props c = None
     \<and> cc_http_headers c = None \<and> cc_http_proxy c = None \<and> cc_https_proxy c = None"

text \<open>What the C library documents of its initialisers: nothing is set.\<close>

definition inits_empty :: "initialisers \<Rightarrow> bool" where
  "inits_empty d \<longleftrightarrow> c_connect_empty (init3 d) \<and> c_connect_empty (init5 d) \<and> c_connect_empty (init_ws d)
     \<and> c_connect_empty (init5_ws d) \<and> c_ssl_empty (init_ssl d)"

inductive conn_built :: "initialisers \<Rightarrow> 'p conn_options \<Rightarrow> bool" for d where
  of_c: "c \<in> {init3 d, init5 d, init_ws d, init5_ws d} \<Longrightarrow> conn_built d (conn_of d a c)"
| will: "conn_built d k \<Longrightarrow> conn_built d (conn_set_will w k)"
| ssl: "conn_built d k \<Longrightarrow> ssl_built (init_ssl d) s \<Longrightarrow> conn_built d (conn_set_ssl s k)"
| user: "conn_built d k \<Longrightarrow> conn_built d (conn_set_user_name u k)"
| password: "conn_built d k \<Longrightarrow> conn_built d (conn_set_password p k)"
| flag: "conn_built d k \<Longrightarrow> f \<in> {conn_set_clean_session, conn_set_clean_start, conn_set_automatic_reconnect}
    \<Longrightarrow> conn_built d (f b k)"
| number: "conn_built d k \<Longrightarrow> g \<in> {conn_set_keep_alive, conn_set_timeout, conn_set_max_inflight, conn_set_mqtt_version,
      conn_set_retry_intervals m} \<Longrightarrow> conn_built d (g n k)"
| token: "conn_built d k \<Longrightarrow> conn_built d (conn_set_token t k)"
| servers: "conn_built d k \<Longrightarrow> (\<forall>s. ss = Some s \<longrightarrow> collection_built s) \<Longrightarrow> conn_built d (conn_set_servers ss k)"
| properties: "conn_built d k \<Longrightarrow> conn_built d (conn_set_properties ps k)"
| headers: "conn_built d k \<Longrightarrow> conn_built d (conn_set_http_headers h k)"
| proxy: "conn_built d k \<Longrightarrow> h \<in> {conn_set_http_proxy, conn_set_https_proxy} \<Longrightarrow> conn_built d (h x k)"
| copied: "conn_built d k \<Longrightarrow> copy_safe k \<Longrightarrow> conn_built d (conn_copy d a k)"
| assigned: "conn_built d k \<Longrightarrow> conn_built d k' \<Longrightarrow> copy_safe k' \<Longrightarrow> conn_built d (conn_assign k k')"
| moved: "conn_built d k \<Longrightarrow> move_safe k \<Longrightarrow> conn_built d (conn_move a k)"
| move_assigned: "conn_built d k \<Longrightarrow> conn_built d k' \<Longrightarrow> move_safe k' \<Longrightarrow> conn_built d (conn_move_assign k k')"

lemma ref_ptr_simps [simp]: "ref_ptr None = None"
  by (simp add: ref_ptr_def to_string_or_empty_def)

lemma context_version_token [simp]: "cb_context (version_token t v cbs) = cb_context cbs"
  by (simp add: version_token_def Let_def)

lemma c_ptr_Nil [simp]: "c_ptr self [] = None"
  by (simp add: c_ptr_def)

lemmas part_defs = members_agree_def will_part_agrees_def ssl_part_agrees_def props_part_agrees_def headers_part_agrees_def

lemmas conn_setter_defs = conn_set_user_name_def conn_set_password_def conn_set_clean_session_def conn_set_clean_start_def
  conn_set_token_def conn_set_servers_def conn_set_mqtt_version_def conn_set_automatic_reconnect_def
  conn_set_retry_intervals_def conn_set_keep_alive_def conn_set_timeout_def conn_set_max_inflight_def
  conn_set_properties_def conn_set_http_headers_def conn_set_http_proxy_def conn_set_https_proxy_def

lemma conn_of_agrees:
  assumes "c_connect_empty c" "c_ssl_empty (init_ssl d)"
  shows "conn_agrees (conn_of d a c)"
  using assms ssl_struct_agrees [OF ssl_built.fresh [of "init_ssl d" a] assms(2)]
  by (simp add: conn_agrees_def part_defs conn_of_def c_connect_empty_def opt_list_def new_nv_def ssl_new_def)

lemma built_ssl_agrees: "ssl_built (init_ssl d) s \<Longrightarrow> inits_empty d \<Longrightarrow> ssl_agrees s"
  by (rule ssl_struct_agrees) (auto simp: inits_empty_def)

lemma set_will_agrees: "conn_agrees k \<Longrightarrow> conn_agrees (conn_set_will w k)"
  using will_copy_agrees [of w] by (simp add: conn_agrees_def part_defs conn_set_will_def Let_def)

lemma ssl_assign_agrees: "ssl_agrees s \<Longrightarrow> ssl_agrees (ssl_assign s rhs) \<and> ss_self (ssl_assign s rhs) = ss_self s"
  by (simp add: ssl_assign_def ssl_update_agrees) (simp add: ssl_update_def Let_def)

lemma set_ssl_agrees: "conn_agrees k \<Longrightarrow> conn_agrees (conn_set_ssl s k)"
  using ssl_assign_agrees [of "k_ssl k" s] by (simp add: conn_agrees_def part_defs conn_set_ssl_def)

lemma plain_setters_agree:
  assumes "conn_agrees k"
  shows "conn_agrees (conn_set_user_name u k)" "conn_agrees (conn_set_password u k)"
    "conn_agrees (conn_set_clean_session b k)" "conn_agrees (conn_set_clean_start b k)"
    "conn_agrees (conn_set_automatic_reconnect b k)" "conn_agrees (conn_set_keep_alive n k)"
    "conn_agrees (conn_set_timeout n k)" "conn_agrees (conn_set_max_inflight n k)"
    "conn_agrees (conn_set_mqtt_version n k)" "conn_agrees (conn_set_retry_intervals m n k)"
    "conn_agrees (conn_set_token t k)" "conn_agrees (conn_set_properties ps k)"
    "conn_agrees (conn_set_http_headers h k)" "conn_agrees (conn_set_http_proxy x k)"
    "conn_agrees (conn_set_https_proxy x k)"
  using assms by (simp_all add: conn_agrees_def part_defs conn_setter_defs Let_def nv_update_c_arr_def)

lemma set_servers_agrees:
  "conn_agrees k \<Longrightarrow> (\<forall>s. ss = Some s \<longrightarrow> collection_built s) \<Longrightarrow> conn_agrees (conn_set_servers ss k)"
  by (simp add: conn_agrees_def part_defs conn_set_servers_def)

text \<open>\<open>update_c_struct\<close> restores everything but the parts it does not touch.\<close>

lemma update_members:
  assumes "\<forall>s. k_servers k = Some s \<longrightarrow> collection_built s" "cb_context (cc_callbacks (k_opts k)) = k_tok k"
  shows "members_agree (conn_update k)"
proof -
  have "opt_list (case k_servers k of None \<Rightarrow> None | Some s \<Rightarrow> if coll s = [] then None else Some (c_arr s))
      = opt_list (map_option c_arr (k_servers k))"
    using assms(1) collection_c_arr by (auto simp: opt_list_def split: option.split)
  with assms show ?thesis by (simp add: members_agree_def conn_update_def Let_def)
qed

lemma update_parts [simp]:
  "will_part_agrees (conn_update k) = will_part_agrees k"
  "ssl_part_agrees (conn_update k) = ssl_part_agrees k"
  "headers_part_agrees (conn_update k) = headers_part_agrees k"
  by (simp_all add: part_defs conn_update_def Let_def)

lemma update_props:
  "5 \<le> cc_version (k_opts k) \<or> cc_connect_props (k_opts k) = None \<Longrightarrow> props_part_agrees (conn_update k)"
  by (auto simp: props_part_agrees_def conn_update_def Let_def)

lemma conn_move_agrees:
  assumes k: "conn_agrees k" and "move_safe k"
  shows "conn_agrees (conn_move a k)"
proof -
  define k1 where "k1 = take_headers k (k\<lparr>k_self := a, k_will := will_copy (k_will k), k_ssl := ssl_copy a (k_ssl k),
    k_opts := (k_opts k)\<lparr>cc_will := to_me a (cc_will (k_opts k)), cc_will_props := to_me a (cc_will_props (k_opts k)),
      cc_ssl := to_me a (cc_ssl (k_opts k))\<rparr>\<rparr>)"
  have "members_agree (conn_update k1)"
    using k by (intro update_members) (simp_all add: k1_def take_headers_def conn_agrees_def members_agree_def)
  moreover have "props_part_agrees (conn_update k1)"
    using \<open>move_safe k\<close> by (intro update_props) (simp add: k1_def take_headers_def move_safe_def)
  moreover have "will_part_agrees k1"
    using k will_copy_agrees [of "k_will k"]
    by (auto simp: k1_def take_headers_def conn_agrees_def will_part_agrees_def to_me_def c_ptr_def split: if_splits)
  moreover have "ssl_part_agrees k1"
    using ssl_update_agrees
    by (simp add: k1_def take_headers_def ssl_part_agrees_def to_me_def ssl_copy_def) (simp add: ssl_update_def Let_def)
  moreover have "headers_part_agrees k1"
    using k by (simp add: k1_def take_headers_def conn_agrees_def headers_part_agrees_def c_ptr_def)
  ultimately show ?thesis by (simp add: conn_move_def Let_def conn_agrees_def k1_def)
qed

text \<open>Taking over another object's structure and members: what is left to set is \<open>update_c_struct\<close>'s, and the
  headers' pointer is the source's.\<close>

lemma set_will_fields [simp]:
  "k_self (conn_set_will w k) = k_self k" "k_ssl (conn_set_will w k) = k_ssl k"
  "cc_version (k_opts (conn_set_will w k)) = cc_version (k_opts k)"
  "cc_callbacks (k_opts (conn_set_will w k)) = cc_callbacks (k_opts k)"
  "cc_connect_props (k_opts (conn_set_will w k)) = cc_connect_props (k_opts k)"
  "cc_http_headers (k_opts (conn_set_will w k)) = cc_http_headers (k_opts k)"
  "cc_ssl (k_opts (conn_set_will w k)) = cc_ssl (k_opts k)"
  "cc_will (k_opts (conn_set_will w k)) = Some (k_self k)"
  "k_will (conn_set_will w k) = will_copy w"
  "cc_will_props (k_opts (conn_set_will w k)) = c_ptr (k_self k) (wl_props w)"
  by (simp_all add: conn_set_will_def Let_def)

lemma set_ssl_fields [simp]:
  "k_self (conn_set_ssl s k) = k_self k" "k_ssl (conn_set_ssl s k) = ssl_assign (k_ssl k) s"
  "cc_version (k_opts (conn_set_ssl s k)) = cc_version (k_opts k)"
  "cc_callbacks (k_opts (conn_set_ssl s k)) = cc_callbacks (k_opts k)"
  "cc_connect_props (k_opts (conn_set_ssl s k)) = cc_connect_props (k_opts k)"
  "cc_http_headers (k_opts (conn_set_ssl s k)) = cc_http_headers (k_opts k)"
  "cc_ssl (k_opts (conn_set_ssl s k)) = Some (k_self k)"
  "cc_will (k_opts (conn_set_ssl s k)) = cc_will (k_opts k)"
  "k_will (conn_set_ssl s k) = k_will k"
  "cc_will_props (k_opts (conn_set_ssl s k)) = cc_will_props (k_opts k)"
  by (simp_all add: conn_set_ssl_def)

lemma adopt_fields [simp]:
  "k_self (conn_adopt k other) = k_self k"
  "cc_version (k_opts (conn_adopt k other)) = cc_version (k_opts other)"
  "cc_callbacks (k_opts (conn_adopt k other)) = cc_callbacks (k_opts other)"
  "cc_connect_props (k_opts (conn_adopt k other)) = cc_connect_props (k_opts other)"
  "cc_http_headers (k_opts (conn_adopt k other)) = cc_http_headers (k_opts other)"
  "k_tok (conn_adopt k other) = k_tok other" "k_servers (conn_adopt k other) = k_servers other"
  "nv_map (k_headers (conn_adopt k other)) = nv_map (k_headers other)"
  by (simp_all add: conn_adopt_def Let_def nv_update_c_arr_def)

lemma adopt_will:
  "will_part_agrees other \<Longrightarrow> will_part_agrees (conn_adopt k other)"
  using will_copy_agrees [of "k_will other"] by (auto simp: will_part_agrees_def conn_adopt_def Let_def)

definition ssl_owned :: "'p conn_options \<Rightarrow> bool" where
  "ssl_owned k \<longleftrightarrow> ss_self (k_ssl k) = k_self k \<and> ssl_agrees (k_ssl k)"

lemma ssl_part_owned: "conn_agrees k \<Longrightarrow> ssl_owned k"
  by (simp add: conn_agrees_def ssl_part_agrees_def ssl_owned_def)

lemma adopt_ssl: "ssl_owned k \<Longrightarrow> ssl_part_agrees (conn_adopt k other)"
  using ssl_assign_agrees [of "k_ssl k" "k_ssl other"]
  by (simp add: ssl_part_agrees_def ssl_owned_def conn_adopt_def Let_def)

text \<open>A copy agrees when the source has no headers; a move also when it has.\<close>

lemma adopt_update_agrees:
  assumes "ssl_owned k" "conn_agrees other" "move_safe other"
  shows "members_agree (conn_update (conn_adopt k other))" "will_part_agrees (conn_update (conn_adopt k other))"
    "ssl_part_agrees (conn_update (conn_adopt k other))" "props_part_agrees (conn_update (conn_adopt k other))"
proof -
  show "members_agree (conn_update (conn_adopt k other))"
    by (rule update_members) (use assms(2) in \<open>simp_all add: conn_agrees_def members_agree_def\<close>)
  show "props_part_agrees (conn_update (conn_adopt k other))"
    by (rule update_props) (use assms(3) in \<open>simp add: move_safe_def\<close>)
qed (use assms adopt_will [of other k] adopt_ssl [of k other] in \<open>simp_all add: conn_agrees_def\<close>)

lemma adopt_headers: "conn_agrees other \<Longrightarrow> copy_safe other \<Longrightarrow> headers_part_agrees (conn_adopt k other)"
  by (auto simp: conn_agrees_def copy_safe_def headers_part_agrees_def c_ptr_def split: if_splits)

lemma conn_assign_agrees:
  assumes "conn_agrees k" "conn_agrees other" "copy_safe other"
  shows "conn_agrees (conn_assign k other)"
  using assms adopt_update_agrees [of k other] adopt_headers [of other k] ssl_part_owned [of k]
  by (simp add: conn_assign_def conn_agrees_def copy_safe_def)

lemma conn_copy_agrees:
  assumes "inits_empty d" "conn_agrees other" "copy_safe other"
  shows "conn_agrees (conn_copy d a other)"
proof -
  have "c_ssl_empty (init_ssl d)" using assms(1) by (simp add: inits_empty_def)
  from ssl_struct_agrees [OF ssl_built.fresh this]
  have "ssl_agrees (ssl_new (init_ssl d) a)" .
  then have "ssl_owned (conn_of d a (k_opts other) :: 'a conn_options)"
    by (simp add: ssl_owned_def conn_of_def ssl_new_def)
  with assms show ?thesis
    using adopt_update_agrees [of "conn_of d a (k_opts other)" other] adopt_headers [of other "conn_of d a (k_opts other)"]
    by (simp add: conn_copy_def conn_agrees_def copy_safe_def)
qed

lemma update_take_headers: 
  "members_agree (conn_update (take_headers other k)) = members_agree (conn_update k)"
  "will_part_agrees (take_headers other k) = will_part_agrees k"
  "ssl_part_agrees (take_headers other k) = ssl_part_agrees k"
  "props_part_agrees (conn_update (take_headers other k)) = props_part_agrees (conn_update k)"
  by (simp_all add: part_defs conn_update_def take_headers_def Let_def)

lemma conn_move_assign_agrees:
  assumes "conn_agrees k" "conn_agrees other" "move_safe other"
  shows "conn_agrees (conn_move_assign k other)"
proof (cases "k_self other = k_self k")
  case False
  have "headers_part_agrees (take_headers other (conn_adopt k other))"
    using assms(2) by (simp add: headers_part_agrees_def take_headers_def conn_agrees_def c_ptr_def)
  with False assms adopt_update_agrees [of k other] ssl_part_owned [of k] show ?thesis
    by (simp add: conn_move_assign_def conn_agrees_def update_take_headers)
qed (use assms in \<open>simp add: conn_move_assign_def\<close>)

lemma conn_struct_agrees: "conn_built d k \<Longrightarrow> inits_empty d \<Longrightarrow> conn_agrees k"
proof (induction rule: conn_built.induct)
  case (of_c c a)
  then show ?case by (intro conn_of_agrees) (auto simp: inits_empty_def)
qed (auto simp: set_will_agrees set_ssl_agrees plain_setters_agree set_servers_agrees conn_copy_agrees conn_assign_agrees
      conn_move_agrees conn_move_assign_agrees)

section \<open>What the options of a connection are to the client\<close>

text \<open>\<open>Mqtt_Client\<close> works with the version, the two flags and the callbacks; the operations agree with its own.\<close>

definition conn_view :: "'p conn_options \<Rightarrow> connect_options" where
  "conn_view k =
     (let c = k_opts k
      in \<lparr>co_version = cc_version c, co_cleanstart = cc_cleanstart c, co_cleansession = cc_cleansession c,
          co_callbacks = cc_callbacks c\<rparr>)"

lemma conn_view_set_token: "conn_view (conn_set_token t k) = connect_set_token t (conn_view k)"
  by (simp add: conn_view_def conn_set_token_def connect_set_token_def version_token_def Let_def)

lemma version_token_again [simp]: "version_token t v (version_token t v cbs) = version_token t v cbs"
  by (simp add: version_token_def Let_def)

lemma conn_view_update:
  "conn_view (conn_update k) =
    (conn_view k)\<lparr>co_callbacks := version_token (k_tok k) (cc_version (k_opts k)) (cc_callbacks (k_opts k))\<rparr>"
  by (simp add: conn_view_def conn_update_def Let_def)

lemma conn_view_adopt [simp]: "conn_view (conn_adopt k other) = conn_view other"
  by (simp add: conn_view_def conn_adopt_def conn_set_will_def conn_set_ssl_def Let_def)

lemma conn_view_take_headers [simp]: "conn_view (take_headers other k) = conn_view k"
  by (simp add: conn_view_def take_headers_def Let_def)

text \<open>What \<open>connect\<close> does with the options it is given by value before it hands them to the C library: \<open>a\<close> is the
  new token, \<open>cached\<close> is \<open>connOpts_\<close>.\<close>

definition connect_prepare :: "nat \<Rightarrow> 'p conn_options \<Rightarrow> 'p conn_options \<Rightarrow> 'p conn_options" where
  "connect_prepare a opts cached =
     (let c = k_opts opts;
          c = (if cc_version c < 5 then c\<lparr>cc_cleanstart := 0\<rparr> else c\<lparr>cc_cleansession := 0\<rparr>)
      in conn_move_assign cached (conn_set_token (Some a) (opts\<lparr>k_opts := c\<rparr>)))"

lemma flags_agree:
  "conn_agrees k \<Longrightarrow> conn_agrees (k\<lparr>k_opts := if b then (k_opts k)\<lparr>cc_cleanstart := n\<rparr> else (k_opts k)\<lparr>cc_cleansession := m\<rparr>\<rparr>)"
  by (simp add: conn_agrees_def part_defs)

lemma connect_prepare_agrees:
  assumes "conn_agrees opts" "conn_agrees cached" "move_safe opts"
  shows "conn_agrees (connect_prepare a opts cached)"
proof -
  let ?o = "opts\<lparr>k_opts := if cc_version (k_opts opts) < 5 then (k_opts opts)\<lparr>cc_cleanstart := 0\<rparr>
    else (k_opts opts)\<lparr>cc_cleansession := 0\<rparr>\<rparr>"
  have "conn_agrees (conn_set_token (Some a) ?o)"
    by (intro plain_setters_agree flags_agree assms)
  moreover have "move_safe (conn_set_token (Some a) ?o)"
    using assms(3) by (auto simp: move_safe_def conn_set_token_def Let_def)
  ultimately show ?thesis
    using conn_move_assign_agrees [OF assms(2)] by (simp add: connect_prepare_def Let_def)
qed

lemma conn_view_move_assign:
  "k_self rhs \<noteq> k_self k \<Longrightarrow> version_token (k_tok rhs) (cc_version (k_opts rhs)) (cc_callbacks (k_opts rhs)) = cc_callbacks (k_opts rhs)
    \<Longrightarrow> conn_view (conn_move_assign k rhs) = conn_view rhs"
  by (simp add: conn_move_assign_def conn_view_update) (simp add: take_headers_def conn_view_def Let_def)

lemma connect_prepare_view:
  "k_self opts \<noteq> k_self cached \<Longrightarrow>
    fst (snd (connect_begin (conn_view opts) cb s)) = Req_connect (conn_view (connect_prepare (a_next s) opts cached))"
proof -
  assume differ: "k_self opts \<noteq> k_self cached"
  define k where "k = opts\<lparr>k_opts := if cc_version (k_opts opts) < 5 then (k_opts opts)\<lparr>cc_cleanstart := 0\<rparr>
    else (k_opts opts)\<lparr>cc_cleansession := 0\<rparr>\<rparr>"
  have "conn_view (conn_move_assign cached (conn_set_token (Some (a_next s)) k))
      = connect_set_token (Some (a_next s)) (conn_view k)"
    using differ by (subst conn_view_move_assign)
      (simp_all add: conn_view_set_token, simp_all add: conn_set_token_def k_def Let_def)
  moreover have "conn_view k = (if co_version (conn_view opts) < 5 then (conn_view opts)\<lparr>co_cleanstart := 0\<rparr>
      else (conn_view opts)\<lparr>co_cleansession := 0\<rparr>)"
    by (simp add: k_def conn_view_def Let_def)
  ultimately show ?thesis
    by (simp add: connect_begin_def connect_prepare_def alloc_token_def Let_def k_def)
qed

lemma connect_prepare_members:
  "k_self opts \<noteq> k_self cached \<Longrightarrow>
    k_self (connect_prepare a opts cached) = k_self cached \<and> k_user (connect_prepare a opts cached) = k_user opts
    \<and> k_password (connect_prepare a opts cached) = k_password opts \<and> k_tok (connect_prepare a opts cached) = Some a"
  by (simp add: connect_prepare_def conn_move_assign_def conn_set_token_def conn_update_def take_headers_def
      conn_adopt_def Let_def)

section \<open>Copies that point elsewhere\<close>

text \<open>A copy of options with HTTP headers keeps the pointer into the source. \<open>connect_options_builder::finalize\<close> makes
  such a copy, and the source is the builder.\<close>

lemma copied_headers_point_at_source:
  "cc_http_headers (k_opts (conn_copy d a k)) = cc_http_headers (k_opts k)"
  by (simp add: conn_copy_def conn_update_def Let_def)

lemma copied_headers_disagree:
  assumes "conn_agrees k" "nv_map (k_headers k) \<noteq> []" "a \<noteq> k_self k"
  shows "\<not> headers_part_agrees (conn_copy d a k)"
  using assms by (simp add: headers_part_agrees_def conn_agrees_def c_ptr_def conn_copy_def conn_update_def
      conn_of_def Let_def)

text \<open>So does a copy of options whose version was set back below 5 after properties were set.\<close>

lemma downgraded_properties_disagree:
  assumes "v < 5" "a \<noteq> k_self k"
  shows "\<not> props_part_agrees (conn_copy d a (conn_set_mqtt_version v (conn_set_properties ps k)))"
  using assms by (simp add: props_part_agrees_def conn_copy_def conn_update_def conn_of_def conn_set_mqtt_version_def
      conn_set_properties_def Let_def)

text \<open>The callbacks are chosen when the token is set: a version set later leaves those of the other version.\<close>

lemma late_version_keeps_callbacks:
  assumes "cc_version (k_opts k) < 5"
  shows "cb_success (cc_callbacks (k_opts (conn_set_mqtt_version 5 (conn_set_token (Some a) k))))
    \<and> \<not> cb_success5 (cc_callbacks (k_opts (conn_set_mqtt_version 5 (conn_set_token (Some a) k))))"
  using assms by (simp add: conn_set_mqtt_version_def conn_set_token_def version_token_def Let_def)

section \<open>Connection data and creation\<close>

text \<open>A handler that leaves the data as they are gives the C library the same name and password again (the name up
  to its first null character).\<close>

lemma update_with_same_data:
  "on_update_connection (Some (\<lambda>x. (True, x))) c
    = Inr (1, \<lparr>ccd_username = map_option c_str_copy (ref_ptr (ccd_username c)), ccd_password = ref_ptr (ccd_password c)\<rparr>)"
  by (cases c) (simp add: on_update_connection_def data_of_c_def data_make_def data_update_def ref_ptr_def to_int_def
      to_string_or_empty_def Let_def split: option.split)

lemma declined_update_changes_nothing:
  "on_update_connection (Some (\<lambda>x. (False, f x))) c = Inr (0, c) \<and> on_update_connection None c = Inr (0, c)"
  by (simp add: on_update_connection_def)

text \<open>A handler that sets a null password is not checked for.\<close>

lemma null_password_is_dereferenced:
  "on_update_connection (Some (\<lambda>x. (True, data_set_password None x))) c = Inl Null_deref"
  by (simp add: on_update_connection_def data_set_password_def data_update_def Let_def)

text \<open>The constructor from a version and a size turns on sending while disconnected, the one from a URI does not,
  though both are documented to give a buffer for that.\<close>

lemma uri_buffering_does_not_send:
  "n \<noteq> 0 \<Longrightarrow> cr_send_disconnected (co_opts (create_buffering d v n)) = 1
    \<and> cr_send_disconnected (co_opts (create_for_uri_buffering d uri cid n p)) = cr_send_disconnected d"
  by (simp add: create_buffering_def create_for_uri_buffering_def to_int_def Let_def)

text \<open>Whatever the version asked for, the C client is created for version 5, and the version asked for is kept for
  the tokens.\<close>

lemma created_for_version_5:
  "cr_version (snd (snd (snd (create_request x)))) = 5
    \<and> a_version (snd (create_client lib x rc s)) = cr_version (co_opts x)
    \<and> (fst (create_client lib x rc s) = Inr () \<longleftrightarrow> rc = 0)"
  by (simp add: create_request_def create_client_def Let_def)

section \<open>Properties\<close>

text \<open>
  \<open>carries u k\<close>: the options \<open>k\<close> hold everything the user put into \<open>u\<close>: name, password, servers, properties,
  headers and proxies; the numbers of the structure, with the flag that the version does not have cleared;
  and the will and the TLS options exactly when \<open>u\<close> has them.
\<close>

definition same_ssl :: "ssl_options \<Rightarrow> ssl_options \<Rightarrow> bool" where
  "same_ssl s r \<longleftrightarrow>
     ss_trust_store s = ss_trust_store r \<and> ss_key_store s = ss_key_store r \<and> ss_private_key s = ss_private_key r
     \<and> ss_private_key_password s = ss_private_key_password r \<and> ss_ca_path s = ss_ca_path r
     \<and> ss_cipher_suites s = ss_cipher_suites r \<and> ss_err_handler s = ss_err_handler r
     \<and> ss_psk_handler s = ss_psk_handler r \<and> ss_protos s = ss_protos r
     \<and> cs_enable_auth (ss_opts s) = cs_enable_auth (ss_opts r)
     \<and> cs_ssl_version (ss_opts s) = cs_ssl_version (ss_opts r) \<and> cs_verify (ss_opts s) = cs_verify (ss_opts r)"

definition same_members :: "'p conn_options \<Rightarrow> 'p conn_options \<Rightarrow> bool" where
  "same_members u k \<longleftrightarrow>
     k_user k = k_user u \<and> k_password k = k_password u \<and> k_servers k = k_servers u \<and> k_props k = k_props u
     \<and> nv_map (k_headers k) = nv_map (k_headers u) \<and> k_proxy k = k_proxy u \<and> k_sproxy k = k_sproxy u"

definition same_numbers :: "c_connect \<Rightarrow> c_connect \<Rightarrow> bool" where
  "same_numbers u c \<longleftrightarrow>
     cc_version c = cc_version u \<and> cc_keep_alive c = cc_keep_alive u \<and> cc_max_inflight c = cc_max_inflight u
     \<and> cc_timeout c = cc_timeout u \<and> cc_auto_reconnect c = cc_auto_reconnect u
     \<and> cc_min_retry c = cc_min_retry u \<and> cc_max_retry c = cc_max_retry u
     \<and> cc_cleansession c = (if cc_version u < 5 then cc_cleansession u else 0)
     \<and> cc_cleanstart c = (if cc_version u < 5 then 0 else cc_cleanstart u)"

definition carries :: "'p conn_options \<Rightarrow> 'p conn_options \<Rightarrow> bool" where
  "carries u k \<longleftrightarrow> same_members u k \<and> same_numbers (k_opts u) (k_opts k)
     \<and> (cc_will (k_opts k) = None \<longleftrightarrow> cc_will (k_opts u) = None)
     \<and> (cc_will (k_opts u) \<noteq> None \<longrightarrow> k_will k = k_will u)
     \<and> (cc_ssl (k_opts k) = None \<longleftrightarrow> cc_ssl (k_opts u) = None)
     \<and> (cc_ssl (k_opts u) \<noteq> None \<longrightarrow> same_ssl (k_ssl k) (k_ssl u))
     \<and> cc_connect_props (k_opts k) = (if cc_version (k_opts u) < 5 then None else Some (k_self k))"

lemma will_copy_id: "will_agrees w \<Longrightarrow> will_copy w = w"
  by (cases w, cases "wl_opts w") (auto simp: will_agrees_def will_defs Let_def)

lemma ssl_assign_same: "ss_self r \<noteq> ss_self s \<Longrightarrow> same_ssl (ssl_assign s r) r"
  by (simp add: same_ssl_def ssl_assign_def ssl_update_def Let_def)

text \<open>Taking over keeps every member and number of the source, then \<open>update_c_struct\<close> sets pointers only.\<close>

lemma adopt_members: "same_members u (conn_adopt k u)" "same_members u (take_headers u (conn_adopt k u))"
  by (simp_all add: same_members_def conn_adopt_def take_headers_def nv_update_c_arr_def Let_def)

lemma adopt_numbers:
  "\<exists>w sl wp. k_opts (conn_adopt k u) = (k_opts u)\<lparr>cc_will := w, cc_will_props := wp, cc_ssl := sl\<rparr>
    \<and> (w = None \<longleftrightarrow> cc_will (k_opts u) = None) \<and> (sl = None \<longleftrightarrow> cc_ssl (k_opts u) = None)"
  by (cases "k_opts u") (auto simp: conn_adopt_def conn_set_will_def conn_set_ssl_def Let_def)

lemma adopt_will_ssl:
  "cc_will (k_opts u) \<noteq> None \<Longrightarrow> k_will (conn_adopt k u) = will_copy (k_will u)"
  "cc_ssl (k_opts u) \<noteq> None \<Longrightarrow> k_ssl (conn_adopt k u) = ssl_assign (k_ssl k) (k_ssl u)"
  by (auto simp: conn_adopt_def Let_def)

lemma update_members_same:
  "same_members u (conn_update k) = same_members u k" "k_will (conn_update k) = k_will k" "k_ssl (conn_update k) = k_ssl k"
  "same_numbers c (k_opts (conn_update k)) = same_numbers c (k_opts k)"
  "cc_will (k_opts (conn_update k)) = cc_will (k_opts k)" "cc_ssl (k_opts (conn_update k)) = cc_ssl (k_opts k)"
  "cc_connect_props (k_opts (conn_update k))
    = (if 5 \<le> cc_version (k_opts k) then Some (k_self k) else cc_connect_props (k_opts k))"
  "k_self (conn_update k) = k_self k"
  by (simp_all add: same_members_def same_numbers_def conn_update_def Let_def)

text \<open>The options \<open>connect\<close> builds from the user's before it moves them into \<open>connOpts_\<close>.\<close>

definition tokened :: "nat \<Rightarrow> 'p conn_options \<Rightarrow> 'p conn_options" where
  "tokened a u = conn_set_token (Some a)
     (u\<lparr>k_opts := (if cc_version (k_opts u) < 5 then (k_opts u)\<lparr>cc_cleanstart := 0\<rparr> else (k_opts u)\<lparr>cc_cleansession := 0\<rparr>)\<rparr>)"

lemma connect_prepare_tokened: "connect_prepare a u cached = conn_move_assign cached (tokened a u)"
  by (simp add: connect_prepare_def tokened_def Let_def)

lemma tokened_same:
  "same_members (tokened a u) k = same_members u k" "k_will (tokened a u) = k_will u" "k_ssl (tokened a u) = k_ssl u"
  "cc_will (k_opts (tokened a u)) = cc_will (k_opts u)" "cc_ssl (k_opts (tokened a u)) = cc_ssl (k_opts u)"
  "cc_connect_props (k_opts (tokened a u)) = cc_connect_props (k_opts u)"
  "cc_version (k_opts (tokened a u)) = cc_version (k_opts u)" "k_self (tokened a u) = k_self u"
  "same_numbers (k_opts u) (k_opts (tokened a u))"
  by (simp_all add: tokened_def same_members_def same_numbers_def conn_set_token_def Let_def)

lemma take_headers_opts:
  "k_will (take_headers u k) = k_will k" "k_ssl (take_headers u k) = k_ssl k" "k_self (take_headers u k) = k_self k"
  "cc_will (k_opts (take_headers u k)) = cc_will (k_opts k)" "cc_ssl (k_opts (take_headers u k)) = cc_ssl (k_opts k)"
  "cc_version (k_opts (take_headers u k)) = cc_version (k_opts k)"
  "cc_connect_props (k_opts (take_headers u k)) = cc_connect_props (k_opts k)"
  "same_numbers c (k_opts (take_headers u k)) = same_numbers c (k_opts k)"
  by (simp_all add: take_headers_def same_numbers_def)

lemma same_numbers_adopt: "same_numbers c (k_opts (conn_adopt k u)) = same_numbers c (k_opts u)"
  using adopt_numbers [of k u] by (auto simp: same_numbers_def)

lemma connect_prepare_carries:
  assumes u: "conn_agrees u" and cached: "conn_agrees cached" and safe: "move_safe u" and ne: "k_self u \<noteq> k_self cached"
  shows "carries u (connect_prepare a u cached)"
proof -
  let ?t = "tokened a u"
  let ?k = "conn_update (take_headers ?t (conn_adopt cached ?t))"
  have k: "connect_prepare a u cached = ?k"
    using ne by (simp add: connect_prepare_tokened conn_move_assign_def tokened_same)
  have "same_members u ?k"
    using adopt_members(2) [of ?t cached] by (simp add: update_members_same tokened_same)
  moreover have "same_numbers (k_opts u) (k_opts ?k)"
    by (simp add: update_members_same take_headers_opts same_numbers_adopt tokened_same)
  moreover have "(cc_will (k_opts ?k) = None \<longleftrightarrow> cc_will (k_opts u) = None) \<and> (cc_ssl (k_opts ?k) = None \<longleftrightarrow> cc_ssl (k_opts u) = None)"
    using adopt_numbers [of cached ?t] by (auto simp: update_members_same take_headers_opts tokened_same)
  moreover have "k_will ?k = k_will u" if "cc_will (k_opts u) \<noteq> None"
  proof -
    have "will_agrees (k_will u)" using u that by (auto simp: conn_agrees_def will_part_agrees_def)
    then show ?thesis
      using that adopt_will_ssl(1) [of ?t cached] by (simp add: update_members_same take_headers_opts tokened_same will_copy_id)
  qed
  moreover have "same_ssl (k_ssl ?k) (k_ssl u)" if "cc_ssl (k_opts u) \<noteq> None"
  proof -
    have "ss_self (k_ssl u) \<noteq> ss_self (k_ssl cached)"
      using u cached ne by (simp add: conn_agrees_def ssl_part_agrees_def)
    then show ?thesis
      using that adopt_will_ssl(2) [of ?t cached] ssl_assign_same
      by (simp add: update_members_same take_headers_opts tokened_same)
  qed
  moreover have "cc_connect_props (k_opts ?k) = (if cc_version (k_opts u) < 5 then None else Some (k_self ?k))"
    using safe by (auto simp: update_members_same take_headers_opts tokened_same move_safe_def)
  ultimately show ?thesis unfolding k carries_def by blast
qed


definition empty_connect :: "int \<Rightarrow> c_connect" where
  "empty_connect v = \<lparr>cc_version = v, cc_keep_alive = 60, cc_cleansession = (if v < 5 then 1 else 0),
     cc_cleanstart = (if v < 5 then 0 else 1), cc_max_inflight = 65535, cc_timeout = 30, cc_auto_reconnect = 0,
     cc_min_retry = 1, cc_max_retry = 60, cc_username = None, cc_password = None, cc_callbacks = no_callbacks,
     cc_servers = None, cc_will = None, cc_ssl = None, cc_connect_props = None, cc_will_props = None,
     cc_http_headers = None, cc_http_proxy = None, cc_https_proxy = None\<rparr>"

definition sample_inits :: initialisers where
  "sample_inits = \<lparr>init3 = empty_connect 0, init5 = empty_connect 5, init_ws = empty_connect 0, init5_ws = empty_connect 5,
     init_ssl = empty_c_ssl, init_will = \<lparr>cw_topic = None, cw_payload = None, cw_qos = 0, cw_retained = 0\<rparr>\<rparr>"

lemma sample_inits_empty: "inits_empty sample_inits"
  by (simp add: inits_empty_def sample_inits_def empty_connect_def c_connect_empty_def c_ssl_empty_def empty_c_ssl_def)

lemma conn_make_built: "conn_built d (conn_make d a u p v)"
  unfolding conn_make_def conn_new_def by (intro conn_built.password conn_built.user conn_built.of_c) simp


end
