(* ===== verification/Mqtt_Replies.thy ===== *)
theory Mqtt_Replies
  imports Mqtt_Client Mqtt_Ssl
begin

text \<open>
  The options that go with one operation (\<open>controller/deps/paho.mqtt.cpp\<close>): \<open>subscribe_options.h\<close>,
  \<open>response_options\<close> and \<open>disconnect_options\<close>, each with its C structure. \<open>Mqtt_Client\<close> works with the callbacks
  and the properties in them; the lemmas relate the two, say that the structures describe their objects,
  and name the operation after which one does not.
\<close>

section \<open>Subscribe options\<close>

datatype retain_handling = Send_retained_on_subscribe | Send_retained_on_new | Dont_send_retained

fun retain_code :: "retain_handling \<Rightarrow> 8 word" where
  "retain_code Send_retained_on_subscribe = 0"
| "retain_code Send_retained_on_new = 1"
| "retain_code Dont_send_retained = 2"

record subscribe_options =
  so_no_local :: "8 word"
  so_retain_as_published :: "8 word"
  so_retain_handling :: "8 word"

text \<open>\<open>d\<close> is \<open>MQTTSubscribe_options_initializer\<close>.\<close>

definition sub_new :: "subscribe_options \<Rightarrow> subscribe_options" where
  "sub_new d = d"

definition sub_make :: "subscribe_options \<Rightarrow> bool \<Rightarrow> bool \<Rightarrow> retain_handling \<Rightarrow> subscribe_options" where
  "sub_make d noloc rap rh = d\<lparr>so_no_local := (if noloc then 1 else 0), so_retain_as_published := (if rap then 1 else 0),
     so_retain_handling := retain_code rh\<rparr>"

definition get_no_local :: "subscribe_options \<Rightarrow> bool" where
  "get_no_local s \<longleftrightarrow> so_no_local s \<noteq> 0"

definition set_no_local :: "bool \<Rightarrow> subscribe_options \<Rightarrow> subscribe_options" where
  "set_no_local b s = s\<lparr>so_no_local := (if b then 1 else 0)\<rparr>"

definition get_retain_as_published :: "subscribe_options \<Rightarrow> bool" where
  "get_retain_as_published s \<longleftrightarrow> so_retain_as_published s \<noteq> 0"

definition set_retain_as_published :: "bool \<Rightarrow> subscribe_options \<Rightarrow> subscribe_options" where
  "set_retain_as_published b s = s\<lparr>so_retain_as_published := (if b then 1 else 0)\<rparr>"

text \<open>\<open>RetainHandling(...)\<close> of another number is no enumerator: \<^term>\<open>None\<close>.\<close>

definition get_retain_handling :: "subscribe_options \<Rightarrow> retain_handling option" where
  "get_retain_handling s =
     (if so_retain_handling s = 0 then Some Send_retained_on_subscribe
      else if so_retain_handling s = 1 then Some Send_retained_on_new
      else if so_retain_handling s = 2 then Some Dont_send_retained else None)"

definition set_retain_handling :: "retain_handling \<Rightarrow> subscribe_options \<Rightarrow> subscribe_options" where
  "set_retain_handling rh s = s\<lparr>so_retain_handling := retain_code rh\<rparr>"

section \<open>Response options\<close>

text \<open>
  \<open>props_.c_struct()\<close> copies the C library's structure of a list, not the list: who owns its array, and what
  it holds at that moment. What \<open>data()\<close> returns for an empty list or vector is read by nobody and counts as no
  object.
\<close>

record 'p props_struct =
  ps_owner :: owner
  ps_held :: "'p list"

definition props_struct_of :: "nat \<Rightarrow> 'p list \<Rightarrow> 'p props_struct" where
  "props_struct_of self ps = \<lparr>ps_owner = c_ptr self ps, ps_held = ps\<rparr>"

record 'p reply_options =
  rp_self :: nat
  rp_callbacks :: callbacks
  rp_c_props :: "'p props_struct"
  rp_c_sub :: subscribe_options
  rp_c_sub_count :: int
  rp_c_sub_list :: owner
  rp_tok :: "nat option"
  rp_props :: "'p list"
  rp_subs :: "subscribe_options list"

definition reply_set_mqtt_version :: "int \<Rightarrow> 'p reply_options \<Rightarrow> 'p reply_options" where
  "reply_set_mqtt_version v r = r\<lparr>rp_callbacks := set_mqtt_version v (rp_callbacks r)\<rparr>"

definition reply_new :: "subscribe_options \<Rightarrow> nat \<Rightarrow> int \<Rightarrow> 'p reply_options" where
  "reply_new d self v = reply_set_mqtt_version v
     \<lparr>rp_self = self, rp_callbacks = no_callbacks, rp_c_props = props_struct_of self [], rp_c_sub = d,
      rp_c_sub_count = 0, rp_c_sub_list = None, rp_tok = None, rp_props = [], rp_subs = []\<rparr>"

definition reply_set_token :: "nat option \<Rightarrow> 'p reply_options \<Rightarrow> 'p reply_options" where
  "reply_set_token t r = r\<lparr>rp_tok := t, rp_callbacks := (rp_callbacks r)\<lparr>cb_context := t\<rparr>\<rparr>"

definition reply_for_token :: "subscribe_options \<Rightarrow> nat \<Rightarrow> nat option \<Rightarrow> int \<Rightarrow> 'p reply_options" where
  "reply_for_token d self t v = reply_set_token t (reply_new d self v)"

definition reply_set_properties :: "'p list \<Rightarrow> 'p reply_options \<Rightarrow> 'p reply_options" where
  "reply_set_properties ps r = r\<lparr>rp_props := ps, rp_c_props := props_struct_of (rp_self r) ps\<rparr>"

definition reply_set_subscribe :: "subscribe_options \<Rightarrow> 'p reply_options \<Rightarrow> 'p reply_options" where
  "reply_set_subscribe s r = r\<lparr>rp_c_sub := s\<rparr>"

definition reply_set_subscribe_many :: "subscribe_options list \<Rightarrow> 'p reply_options \<Rightarrow> 'p reply_options" where
  "reply_set_subscribe_many ss r =
     r\<lparr>rp_subs := ss, rp_c_sub_count := int (length ss), rp_c_sub_list := c_ptr (rp_self r) ss\<rparr>"

definition reply_update :: "'p reply_options \<Rightarrow> 'p reply_options" where
  "reply_update r =
     (let r = r\<lparr>rp_c_props := props_struct_of (rp_self r) (rp_props r)\<rparr>
      in if rp_c_sub_count r \<noteq> 0 then r\<lparr>rp_c_sub_list := c_ptr (rp_self r) (rp_subs r)\<rparr> else r)"

text \<open>Copies and moves differ in what is left of the source, which is not modelled.\<close>

definition reply_copy :: "nat \<Rightarrow> 'p reply_options \<Rightarrow> 'p reply_options" where
  "reply_copy self r = reply_update (r\<lparr>rp_self := self\<rparr>)"

definition reply_assign :: "'p reply_options \<Rightarrow> 'p reply_options \<Rightarrow> 'p reply_options" where
  "reply_assign r rhs = (if rp_self rhs = rp_self r then r else reply_update (rhs\<lparr>rp_self := rp_self r\<rparr>))"

section \<open>Disconnect options\<close>

record 'p disc_options =
  d_self :: nat
  d_timeout :: int
  d_reason :: int
  d_callbacks :: callbacks
  d_c_props :: "'p props_struct"
  d_tok :: "nat option"
  d_props :: "'p list"

text \<open>From one of the C library's initialisers, of which the timeout is an argument.\<close>

definition disc_new :: "nat \<Rightarrow> int \<Rightarrow> 'p disc_options" where
  "disc_new self dflt_timeout = \<lparr>d_self = self, d_timeout = dflt_timeout, d_reason = 0, d_callbacks = no_callbacks,
     d_c_props = props_struct_of self [], d_tok = None, d_props = []\<rparr>"

definition disc_set_timeout :: "int \<Rightarrow> 'p disc_options \<Rightarrow> 'p disc_options" where
  "disc_set_timeout t d = d\<lparr>d_timeout := t\<rparr>"

definition disc_set_reason_code :: "int \<Rightarrow> 'p disc_options \<Rightarrow> 'p disc_options" where
  "disc_set_reason_code rc d = d\<lparr>d_reason := rc\<rparr>"

definition disc_set_token :: "nat option \<Rightarrow> int \<Rightarrow> 'p disc_options \<Rightarrow> 'p disc_options" where
  "disc_set_token t v d = d\<lparr>d_tok := t, d_callbacks := disconnect_set_token t v (d_callbacks d)\<rparr>"

definition disc_set_properties :: "'p list \<Rightarrow> 'p disc_options \<Rightarrow> 'p disc_options" where
  "disc_set_properties ps d = d\<lparr>d_props := ps, d_c_props := props_struct_of (d_self d) ps\<rparr>"

text \<open>\<open>get_properties().add(p)\<close>: the reference that is handed out is not a constant one.\<close>

definition disc_add_property :: "'p \<Rightarrow> 'p disc_options \<Rightarrow> 'p disc_options" where
  "disc_add_property p d = d\<lparr>d_props := d_props d @ [p]\<rparr>"

definition disc_update :: "'p disc_options \<Rightarrow> 'p disc_options" where
  "disc_update d = d\<lparr>d_c_props := props_struct_of (d_self d) (d_props d),
     d_callbacks := (d_callbacks d)\<lparr>cb_context := d_tok d\<rparr>\<rparr>"

definition disc_copy :: "nat \<Rightarrow> 'p disc_options \<Rightarrow> 'p disc_options" where
  "disc_copy self d = disc_update (d\<lparr>d_self := self\<rparr>)"

text \<open>The assignments do not test for the same object; the members' own do.\<close>

definition disc_assign :: "'p disc_options \<Rightarrow> 'p disc_options \<Rightarrow> 'p disc_options" where
  "disc_assign d rhs = disc_update (rhs\<lparr>d_self := d_self d\<rparr>)"

section \<open>The structures describe the objects\<close>

definition reply_agrees :: "'p reply_options \<Rightarrow> bool" where
  "reply_agrees r \<longleftrightarrow>
     rp_c_props r = props_struct_of (rp_self r) (rp_props r) \<and> cb_context (rp_callbacks r) = rp_tok r
     \<and> rp_c_sub_count r = int (length (rp_subs r)) \<and> rp_c_sub_list r = c_ptr (rp_self r) (rp_subs r)"

inductive reply_built :: "subscribe_options \<Rightarrow> 'p reply_options \<Rightarrow> bool" for d where
  fresh: "reply_built d (reply_new d a v)"
| version: "reply_built d r \<Longrightarrow> reply_built d (reply_set_mqtt_version v r)"
| token: "reply_built d r \<Longrightarrow> reply_built d (reply_set_token t r)"
| properties: "reply_built d r \<Longrightarrow> reply_built d (reply_set_properties ps r)"
| subscribe: "reply_built d r \<Longrightarrow> reply_built d (reply_set_subscribe s r)"
| subscribe_many: "reply_built d r \<Longrightarrow> reply_built d (reply_set_subscribe_many ss r)"
| copied: "reply_built d r \<Longrightarrow> reply_built d (reply_copy a r)"
| assigned: "reply_built d r \<Longrightarrow> reply_built d r' \<Longrightarrow> reply_built d (reply_assign r r')"

lemmas reply_defs = reply_new_def reply_set_mqtt_version_def reply_set_token_def reply_set_properties_def
  reply_set_subscribe_def reply_set_subscribe_many_def reply_copy_def reply_assign_def reply_update_def

lemma context_set_mqtt_version [simp]: "cb_context (set_mqtt_version v cbs) = cb_context cbs"
  by (simp add: set_mqtt_version_def)

lemma reply_struct_agrees: "reply_built d r \<Longrightarrow> reply_agrees r"
  by (induction rule: reply_built.induct) (simp_all add: reply_agrees_def reply_defs c_ptr_def Let_def)

text \<open>A built object has either pair of callbacks, never both and never neither.\<close>

lemma reply_callbacks_paired:
  "reply_built d r \<Longrightarrow> cb_success (rp_callbacks r) = cb_failure (rp_callbacks r)
    \<and> cb_success5 (rp_callbacks r) = cb_failure5 (rp_callbacks r) \<and> cb_success (rp_callbacks r) \<noteq> cb_success5 (rp_callbacks r)"
  by (induction rule: reply_built.induct) (auto simp: reply_defs set_mqtt_version_def Let_def)

text \<open>What the client's operations build is what \<open>Mqtt_Client\<close> says of callbacks, token and properties; the builder's
  \<open>finalize\<close> copies it.\<close>

definition reply_view :: "'o list \<Rightarrow> 'p reply_options \<Rightarrow> ('p, 'o) response_options" where
  "reply_view subs r = \<lparr>ro_callbacks = rp_callbacks r, ro_props = rp_props r, ro_sub_opts = subs\<rparr>"

lemma reply_view_steps:
  "reply_view [] (reply_new d a v) = new_response_options v"
  "reply_view subs (reply_set_token (Some t) r) = ro_set_token t (reply_view subs r)"
  "reply_view subs (reply_set_properties ps r) = ro_set_properties ps (reply_view subs r)"
  "reply_view subs (reply_copy a r) = reply_view subs r"
  by (simp_all add: reply_view_def reply_defs new_response_options_def ro_set_token_def ro_set_properties_def Let_def)

definition disc_agrees :: "'p disc_options \<Rightarrow> bool" where
  "disc_agrees d \<longleftrightarrow> d_c_props d = props_struct_of (d_self d) (d_props d) \<and> cb_context (d_callbacks d) = d_tok d"

lemma disc_steps_agree:
  "disc_agrees (disc_new a t)" "disc_agrees (disc_copy a d)" "disc_agrees (disc_assign d d')"
  "disc_agrees d \<Longrightarrow> disc_agrees (disc_set_timeout t d)" "disc_agrees d \<Longrightarrow> disc_agrees (disc_set_reason_code rc d)"
  "disc_agrees d \<Longrightarrow> disc_agrees (disc_set_token tok v d)" "disc_agrees d \<Longrightarrow> disc_agrees (disc_set_properties ps d)"
  by (simp_all add: disc_agrees_def disc_new_def disc_copy_def disc_assign_def disc_update_def disc_set_timeout_def
      disc_set_reason_code_def disc_set_token_def disc_set_properties_def disconnect_set_token_def Let_def)

text \<open>A property added through \<open>get_properties()\<close> is missing from the structure that goes to the C library, whose
  array may be gone as well, until a copy is made.\<close>

lemma added_property_is_missing:
  assumes "disc_agrees d"
  shows "\<not> disc_agrees (disc_add_property p d) \<and> ps_held (d_c_props (disc_add_property p d)) = d_props d
    \<and> disc_agrees (disc_copy a (disc_add_property p d))"
  using assms by (simp add: disc_agrees_def disc_add_property_def props_struct_of_def disc_copy_def disc_update_def)

lemma retain_handling_kept: "get_retain_handling (set_retain_handling rh s) = Some rh"
  by (cases rh) (simp_all add: get_retain_handling_def set_retain_handling_def)

lemma made_options_read_back:
  "get_no_local (sub_make d noloc rap rh) = noloc" "get_retain_as_published (sub_make d noloc rap rh) = rap"
  "get_retain_handling (sub_make d noloc rap rh) = Some rh"
  by (cases rh; simp add: sub_make_def get_no_local_def get_retain_as_published_def get_retain_handling_def)+

end
