(* ===== verification/Mqtt_Pending.thy ===== *)
theory Mqtt_Pending
  imports Mqtt_Client
begin

text \<open>
  The tokens of the operations in flight. Threads of the program issue operations and threads of the C
  library complete them, in any order that the library allows: it calls back once for every request it
  accepted, possibly before the call that made the request returns, and never for one it refused. The
  invariant says which tokens the client's two lists hold at any moment.
\<close>

section \<open>The world\<close>

text \<open>The calls of the library that have not returned, the requests whose callback is still to come, and
  those whose callback has released the token's lock and not yet called \<open>remove_token\<close>. A reconnect
  uses the token of the last connect again, has no callback of its own and is completed by
  \<open>on_connected\<close>: \<open>recalling\<close> are the calls of \<open>reconnect\<close> that have not returned, \<open>redo\<close> the reconnects
  not yet completed. \<open>dropped\<close> are the tokens that \<open>on_connected\<close> took off the list.\<close>

record 'p client_world =
  cw :: "'p async_client"
  calling :: "nat set"
  waiting :: "nat set"
  removing :: "nat set"
  recalling :: "nat set"
  redo :: "nat set"
  dropped :: "nat set"
  user_log :: "'p user_call list"

definition start_world :: "'p async_client \<Rightarrow> 'p client_world" where
  "start_world s = \<lparr>cw = s, calling = {}, waiting = {}, removing = {}, recalling = {}, redo = {}, dropped = {}, user_log = []\<rparr>"

definition in_flight :: "'p client_world \<Rightarrow> nat set" where
  "in_flight w = waiting w \<union> removing w \<union> redo w"

text \<open>One operation at a time may use \<open>connTok_\<close>: no connect is called while another call of it has not
  returned, and no reconnect before the last connect or reconnect is over.\<close>

definition connecting :: "'p client_world \<Rightarrow> bool" where
  "connecting w \<longleftrightarrow> (\<exists>a \<in> calling w. t_type (a_tokens (cw w) a) = CONNECT)"

definition end_call ::
  "c_lib \<Rightarrow> nat \<Rightarrow> int \<Rightarrow> int \<Rightarrow> 'p async_client \<Rightarrow> 'p async_client \<times> 'p user_call list" where
  "end_call lib a rc mid s =
     (case t_type (a_tokens s a) of
        CONNECT \<Rightarrow> snd (connect_end lib rc s)
      | PUBLISH \<Rightarrow> snd (publish_end lib a rc mid s)
      | _ \<Rightarrow> snd (op_end lib a rc s))"

inductive client_step :: "c_lib \<Rightarrow> 'p client_world \<Rightarrow> 'p client_world \<Rightarrow> bool" for lib :: c_lib where
  call: "issue lib (opr :: ('p, unit) client_op) (cw w) = Inr (a, req, s)
    \<Longrightarrow> op_type opr = CONNECT \<longrightarrow> \<not> connecting w
    \<Longrightarrow> client_step lib w (w\<lparr>cw := s, calling := insert a (calling w), waiting := insert a (waiting w)\<rparr>)"
| accepted: "a \<in> calling w \<Longrightarrow> end_call lib a 0 mid (cw w) = (s, calls)
    \<Longrightarrow> client_step lib w (w\<lparr>cw := s, calling := calling w - {a}, user_log := user_log w @ calls\<rparr>)"
| refused: "a \<in> calling w \<Longrightarrow> a \<in> waiting w \<Longrightarrow> rc \<noteq> 0 \<Longrightarrow> end_call lib a rc mid (cw w) = (s, calls)
    \<Longrightarrow> client_step lib w (w\<lparr>cw := s, calling := calling w - {a}, waiting := waiting w - {a},
          user_log := user_log w @ calls\<rparr>)"
| callback: "a \<in> waiting w \<Longrightarrow> token_callback a c (cw w) = (s, calls)
    \<Longrightarrow> client_step lib w (w\<lparr>cw := s, waiting := waiting w - {a}, removing := insert a (removing w),
          user_log := user_log w @ calls\<rparr>)"
| remove: "a \<in> removing w \<Longrightarrow> remove_token a (cw w) = (s, calls)
    \<Longrightarrow> client_step lib w (w\<lparr>cw := s, removing := removing w - {a}, user_log := user_log w @ calls\<rparr>)"
| connected: "on_connected cause (cw w) = (s, calls)
    \<Longrightarrow> client_step lib w (w\<lparr>cw := s, redo := redo w - set_option (a_conn_tok (cw w)),
          dropped := dropped w \<union> set_option (a_conn_tok (cw w)), user_log := user_log w @ calls\<rparr>)"
| reconnect: "reconnect_begin lib (cw w) = Inr (a, req :: ('p, unit) request, s)
    \<Longrightarrow> a \<notin> in_flight w \<union> calling w \<union> recalling w
    \<Longrightarrow> client_step lib w (w\<lparr>cw := s, recalling := insert a (recalling w), redo := insert a (redo w),
          dropped := dropped w - {a}\<rparr>)"
| reconnect_accepted: "a \<in> recalling w \<Longrightarrow> reconnect_end lib a 0 0 (cw w) = (r, s, calls)
    \<Longrightarrow> client_step lib w (w\<lparr>cw := s, recalling := recalling w - {a}, user_log := user_log w @ calls\<rparr>)"
| reconnect_refused: "a \<in> recalling w \<Longrightarrow> rc1 \<noteq> 0 \<or> rc2 \<noteq> 0 \<Longrightarrow> reconnect_end lib a rc1 rc2 (cw w) = (r, s, calls)
    \<Longrightarrow> client_step lib w (w\<lparr>cw := s, recalling := recalling w - {a}, redo := redo w - {a},
          user_log := user_log w @ calls\<rparr>)"
| lost: "on_connection_lost cause (cw w) = (s, calls) \<Longrightarrow> client_step lib w (w\<lparr>cw := s, user_log := user_log w @ calls\<rparr>)"
| message: "on_message_arrived name len c (cw w) = (s, calls)
    \<Longrightarrow> client_step lib w (w\<lparr>cw := s, user_log := user_log w @ calls\<rparr>)"

inductive client_reachable :: "c_lib \<Rightarrow> 'p client_world \<Rightarrow> bool" for lib :: c_lib where
  start: "client_reachable lib (start_world (new_client user))"
| step: "client_reachable lib w \<Longrightarrow> client_step lib w w' \<Longrightarrow> client_reachable lib w'"

section \<open>The invariant\<close>

text \<open>The lists as a function of what is in flight.\<close>

definition lists_inv :: "'p client_world \<Rightarrow> bool" where
  "lists_inv w \<longleftrightarrow>
     (let s = cw w in
        distinct (a_pending s) \<and> distinct (a_pending_delivery s)
        \<and> set (a_pending_delivery s) = {a \<in> in_flight w. t_type (a_tokens s a) = PUBLISH}
        \<and> set (a_pending s) = {a \<in> in_flight w. t_type (a_tokens s a) \<noteq> PUBLISH} - dropped w)"

definition conn_inv :: "'p client_world \<Rightarrow> bool" where
  "conn_inv w \<longleftrightarrow>
     (\<forall>a. a_conn_tok (cw w) = Some a \<longrightarrow> a < a_next (cw w) \<and> t_type (a_tokens (cw w) a) = CONNECT)
     \<and> (\<forall>a \<in> calling w. t_type (a_tokens (cw w) a) = CONNECT \<longrightarrow> a_conn_tok (cw w) = Some a)"

definition redo_inv :: "'p client_world \<Rightarrow> bool" where
  "redo_inv w \<longleftrightarrow> (redo w \<union> recalling w) \<inter> (waiting w \<union> removing w) = {}
     \<and> (\<forall>a \<in> redo w \<union> recalling w \<union> dropped w. a < a_next (cw w) \<and> t_type (a_tokens (cw w) a) = CONNECT)"

definition world_inv :: "'p client_world \<Rightarrow> bool" where
  "world_inv w \<longleftrightarrow> lists_inv w \<and> redo_inv w
     \<and> waiting w \<inter> removing w = {}
     \<and> calling w \<union> in_flight w \<subseteq> {..<a_next (cw w)} \<and> conn_inv w"

text \<open>How often the user was told that a message was delivered.\<close>

definition told :: "'p client_world \<Rightarrow> nat \<Rightarrow> nat" where
  "told w a = count_list (user_log w) (Cb_delivery_complete a)"

definition resolved :: "'p client_world \<Rightarrow> nat \<Rightarrow> bool" where
  "resolved w a \<longleftrightarrow> a < a_next (cw w) \<and> a \<notin> in_flight w
     \<and> (\<exists>m. token_kind (cw w) a = (PUBLISH, Some m) \<and> 0 < c_qos m)"

definition told_inv :: "'p client_world \<Rightarrow> bool" where
  "told_inv w \<longleftrightarrow> (\<forall>a. told w a = (if a_user_callback (cw w) \<and> resolved w a then 1 else 0))"

text \<open>The steps leave what a token is alone.\<close>

definition same_kinds :: "'p async_client \<Rightarrow> 'p async_client \<Rightarrow> bool" where
  "same_kinds s s' \<longleftrightarrow> a_next s' = a_next s \<and> token_kind s' = token_kind s \<and> a_user_callback s' = a_user_callback s"

definition same_lists :: "'p async_client \<Rightarrow> 'p async_client \<Rightarrow> bool" where
  "same_lists s s' \<longleftrightarrow> a_pending s' = a_pending s \<and> a_pending_delivery s' = a_pending_delivery s"

lemma same_kindsD: "same_kinds s s' \<Longrightarrow> t_type (a_tokens s' a) = t_type (a_tokens s a)"
  by (metis same_kinds_def token_kind_def fst_conv)

lemma complete_token_kind:
  "complete_token c t = (t', n) \<Longrightarrow> t_type t' = t_type t \<and> t_message t' = t_message t"
  using complete_token_frame(1,3) [of c t] by simp

lemma token_callback_frame:
  "token_callback a c s = (s', calls) \<Longrightarrow> same_kinds s s' \<and> same_lists s s' \<and> a_conn_tok s' = a_conn_tok s
    \<and> (\<forall>b. count_list calls (Cb_delivery_complete b) = 0)"
  by (auto simp: token_callback_def update_token_def same_kinds_def same_lists_def token_kind_def
      fun_eq_iff count_list_0_iff split: prod.splits dest: complete_token_kind)

lemma remove_token_frame:
  assumes "remove_token a s = (s', calls)"
  shows "same_kinds s s'" and "a_conn_tok s' = a_conn_tok s"
    and "a_pending_delivery s' = remove1 a (a_pending_delivery s)"
    and "a_pending s' = (if a \<in> set (a_pending_delivery s) then a_pending s else remove1 a (a_pending s))"
    and "count_list calls (Cb_delivery_complete b) =
      (if a = b \<and> a \<in> set (a_pending_delivery s) \<and> a_user_callback s
          \<and> (\<exists>m. snd (token_kind s a) = Some m \<and> 0 < c_qos m) then 1 else 0)"
  using assms by (auto simp: remove_token_def same_kinds_def token_kind_def fun_eq_iff remove1_idem
      split: if_splits option.splits)

lemma que_put_frame: "same_kinds s (que_put e s)" "same_lists s (que_put e s)" "a_conn_tok (que_put e s) = a_conn_tok s"
  by (auto simp: que_put_def same_kinds_def same_lists_def token_kind_def fun_eq_iff split: option.split sum.split)

lemma end_call_accepted:
  "end_call lib a 0 mid s = (s', calls) \<Longrightarrow> same_kinds s s' \<and> same_lists s s' \<and> a_conn_tok s' = a_conn_tok s \<and> calls = []"
  by (auto simp: end_call_def connect_end_def publish_end_def op_end_def update_token_def set_message_id_def
      same_kinds_def same_lists_def token_kind_def fun_eq_iff split: token_type.splits)

lemma end_call_refused:
  assumes "end_call lib a rc mid s = (s', calls)" and "rc \<noteq> 0"
    and "t_type (a_tokens s a) = CONNECT \<Longrightarrow> a_conn_tok s = Some a"
  obtains s1 where "remove_token a s = (s1, calls)" "same_kinds s1 s'" "same_lists s1 s'"
    "a_conn_tok s' = (if t_type (a_tokens s a) = CONNECT then None else a_conn_tok s)"
proof -
  obtain s1 c1 where r: "remove_token a s = (s1, c1)" by fastforce
  show thesis
    by (rule that [of s1])
      (use assms r remove_token_frame(2) [OF r] in \<open>auto simp: end_call_def connect_end_def publish_end_def op_end_def
        same_kinds_def same_lists_def token_kind_def fun_eq_iff split: token_type.splits\<close>)
qed

lemma same_lists_trans: "same_lists s t \<Longrightarrow> same_lists t u \<Longrightarrow> same_lists s u"
  by (simp add: same_lists_def)

lemma same_kinds_trans: "same_kinds s t \<Longrightarrow> same_kinds t u \<Longrightarrow> same_kinds s u"
  by (simp add: same_kinds_def)

text \<open>What \<open>on_connected\<close> may do to the lists: nothing, or remove a connect token.\<close>

lemma on_connected_frame:
  assumes "on_connected cause s = (s', calls)"
    and "\<And>a. a_conn_tok s = Some a \<Longrightarrow> t_type (a_tokens s a) = CONNECT"
    and "\<And>a. a \<in> set (a_pending_delivery s) \<Longrightarrow> t_type (a_tokens s a) = PUBLISH"
  shows "same_kinds s s'" and "a_conn_tok s' = a_conn_tok s" and "a_pending_delivery s' = a_pending_delivery s"
    and "a_pending s' = (case a_conn_tok s of None \<Rightarrow> a_pending s | Some a \<Rightarrow> remove1 a (a_pending s))"
    and "count_list calls (Cb_delivery_complete b) = 0"
proof -
  have rest: "count_list ((if p then [Cb_connected x] else []) @ (if q then [Handler_connected x] else []))
      (Cb_delivery_complete b) = 0" for p q x
    by simp
  have "same_kinds s s' \<and> a_conn_tok s' = a_conn_tok s \<and> a_pending_delivery s' = a_pending_delivery s
    \<and> a_pending s' = (case a_conn_tok s of None \<Rightarrow> a_pending s | Some a \<Rightarrow> remove1 a (a_pending s))
    \<and> count_list calls (Cb_delivery_complete b) = 0"
  proof (cases "a_conn_tok s")
    case None
    then show ?thesis using assms(1) que_put_frame [where s = s] rest
      by (auto simp: on_connected_def Let_def same_lists_def)
  next
    case (Some a)
    obtain s1 c1 where cb: "token_callback a (Success None) s = (s1, c1)" by fastforce
    obtain s2 c2 where rm: "remove_token a s1 = (s2, c2)" by fastforce
    note f1 = token_callback_frame [OF cb] and f2 = remove_token_frame [OF rm]
    have "a \<notin> set (a_pending_delivery s1)"
      using f1 assms(2) [OF Some] assms(3) [of a] by (auto simp: same_lists_def)
    moreover have "s' = que_put (Connected_event (to_string_or_empty cause)) s2"
      using assms(1) Some cb rm by (simp add: on_connected_def Let_def)
    moreover have "count_list calls (Cb_delivery_complete b) = count_list c1 (Cb_delivery_complete b) + count_list c2 (Cb_delivery_complete b)"
      using assms(1) Some cb rm rest by (auto simp: on_connected_def Let_def)
    ultimately show ?thesis
      using Some f1 f2 que_put_frame [where s = s2 and e = "Connected_event (to_string_or_empty cause)"]
      by (auto simp: same_lists_def same_kinds_def remove1_idem)
  qed
  then show "same_kinds s s'" "a_conn_tok s' = a_conn_tok s" "a_pending_delivery s' = a_pending_delivery s"
    "a_pending s' = (case a_conn_tok s of None \<Rightarrow> a_pending s | Some a \<Rightarrow> remove1 a (a_pending s))"
    "count_list calls (Cb_delivery_complete b) = 0" by auto
qed

section \<open>Preservation\<close>

lemma issued_kinds: "issued a ty s s' \<Longrightarrow> b < a_next s \<Longrightarrow> token_kind s' b = token_kind s b"
  by (simp add: issued_def list_all_iff)

lemma issued_type: "issued a ty s s' \<Longrightarrow> t_type (a_tokens s' b) = (if b = a then ty else t_type (a_tokens s b))
    \<or> a_next s < b"
  using issued_kinds [of a ty s s' b] by (auto simp: issued_def token_kind_def)

text \<open>Lists and sets move together: nothing changes, a token is added, or one is taken out.\<close>

lemma lists_invD:
  assumes "lists_inv w"
  shows "distinct (a_pending (cw w))" and "distinct (a_pending_delivery (cw w))"
    and "set (a_pending_delivery (cw w)) = {a \<in> in_flight w. t_type (a_tokens (cw w) a) = PUBLISH}"
    and "set (a_pending (cw w)) = {a \<in> in_flight w. t_type (a_tokens (cw w) a) \<noteq> PUBLISH} - dropped w"
  using assms by (simp_all add: lists_inv_def Let_def)

lemma lists_inv_same:
  assumes "lists_inv w" and "same_kinds (cw w) (cw w')" and "same_lists (cw w) (cw w')"
    and "in_flight w' = in_flight w" and "dropped w' = dropped w"
  shows "lists_inv w'"
  using assms same_kindsD [OF assms(2)] by (simp add: lists_inv_def same_lists_def Let_def)

lemma lists_inv_out:
  assumes "lists_inv w" and "remove_token a (cw w) = (s1, calls)"
    and "same_kinds s1 (cw w')" and "same_lists s1 (cw w')"
    and "in_flight w' = in_flight w - {a}" and "dropped w' = dropped w"
  shows "lists_inv w'"
proof -
  note r = remove_token_frame [OF assms(2)]
  have ty: "t_type (a_tokens (cw w') b) = t_type (a_tokens (cw w) b)" for b
    using same_kindsD [OF assms(3)] same_kindsD [OF r(1)] by simp
  note inv = lists_invD [OF assms(1)]
  have d: "set (a_pending_delivery (cw w')) = set (a_pending_delivery (cw w)) - {a}"
    and p: "set (a_pending (cw w')) = set (a_pending (cw w)) - {a}"
    and dis: "distinct (a_pending (cw w'))" "distinct (a_pending_delivery (cw w'))"
    using assms(4) r(3,4) inv by (auto simp: same_lists_def)
  show ?thesis
    unfolding lists_inv_def Let_def ty assms(5,6) using d p dis inv by auto
qed

text \<open>The sets around the reconnects.\<close>

definition same_redo :: "'p client_world \<Rightarrow> 'p client_world \<Rightarrow> bool" where
  "same_redo w w' \<longleftrightarrow> redo w' = redo w \<and> dropped w' = dropped w \<and> recalling w' \<subseteq> recalling w"

lemma redo_inv_shrink:
  assumes "redo_inv w" and "same_kinds (cw w) (cw w')" and "redo w' \<subseteq> redo w" and "recalling w' \<subseteq> recalling w"
    and "dropped w' = dropped w" and "waiting w' \<union> removing w' \<subseteq> waiting w \<union> removing w"
  shows "redo_inv w'"
proof -
  have nx: "a_next (cw w') = a_next (cw w)" using assms(2) by (simp add: same_kinds_def)
  show ?thesis
    using assms(1,3-6) unfolding redo_inv_def nx same_kindsD [OF assms(2)] by blast
qed

lemma told_append: "told (w\<lparr>user_log := user_log w @ calls\<rparr>) a = told w a + count_list calls (Cb_delivery_complete a)"
  by (simp add: told_def)

lemma told_inv_same:
  assumes "told_inv w" and "same_kinds (cw w) (cw w')" and "in_flight w' = in_flight w"
    and "\<And>b. told w' b = told w b"
  shows "told_inv w'"
  using assms by (simp add: told_inv_def resolved_def same_kinds_def)

lemma told_inv_out:
  assumes "told_inv w" and "lists_inv w" and "remove_token a (cw w) = (s1, calls)" and "same_kinds s1 (cw w')"
    and "in_flight w' = in_flight w - {a}" and "a \<in> in_flight w" and "a < a_next (cw w)"
    and "\<And>b. told w' b = told w b + count_list calls (Cb_delivery_complete b)"
  shows "told_inv w'"
  unfolding told_inv_def
proof
  fix b
  note r = remove_token_frame [OF assms(3)]
  have k: "same_kinds (cw w) (cw w')" using same_kinds_trans [OF r(1) assms(4)] .
  have res: "resolved w' b = (resolved w b \<or> b = a \<and> (\<exists>m. token_kind (cw w) a = (PUBLISH, Some m) \<and> 0 < c_qos m))"
    using k assms(5,6,7) by (auto simp: resolved_def same_kinds_def)
  have mem: "a \<in> set (a_pending_delivery (cw w)) \<longleftrightarrow> fst (token_kind (cw w) a) = PUBLISH"
    using assms(2,6) by (simp add: lists_inv_def Let_def token_kind_def)
  have notyet: "\<not> resolved w a" using assms(6) by (simp add: resolved_def)
  have "told w b = (if a_user_callback (cw w) \<and> resolved w b then 1 else 0)"
    using assms(1) by (simp add: told_inv_def)
  moreover have "a_user_callback (cw w') = a_user_callback (cw w)" using k by (simp add: same_kinds_def)
  moreover have "(\<exists>m. token_kind (cw w) a = (PUBLISH, Some m) \<and> 0 < c_qos m)
      \<longleftrightarrow> fst (token_kind (cw w) a) = PUBLISH \<and> (\<exists>m. snd (token_kind (cw w) a) = Some m \<and> 0 < c_qos m)"
    by (cases "token_kind (cw w) a") auto
  ultimately show "told w' b = (if a_user_callback (cw w') \<and> resolved w' b then 1 else 0)"
    unfolding assms(8) res r(5) mem using notyet by auto
qed

definition pending_inv :: "'p client_world \<Rightarrow> bool" where
  "pending_inv w \<longleftrightarrow> world_inv w \<and> told_inv w"

lemma pending_inv_same:
  assumes "pending_inv w" and "same_kinds (cw w) (cw w')" and "same_lists (cw w) (cw w')"
    and "a_conn_tok (cw w') = a_conn_tok (cw w)" and "waiting w' \<union> removing w' = waiting w \<union> removing w"
    and "calling w' \<subseteq> calling w" and "same_redo w w'"
    and "waiting w' \<inter> removing w' = {}" and "\<And>b. told w' b = told w b"
  shows "pending_inv w'"
proof -
  have fl: "in_flight w' = in_flight w" "dropped w' = dropped w"
    using assms(5,7) by (auto simp: in_flight_def same_redo_def)
  have "lists_inv w'" "told_inv w'"
    using assms(1) lists_inv_same [of w w'] told_inv_same [of w w'] assms(2,3,9) fl
    by (simp_all add: pending_inv_def world_inv_def)
  moreover have nx: "a_next (cw w') = a_next (cw w)" using assms(2) by (simp add: same_kinds_def)
  moreover have "conn_inv w'"
    using assms(1,6) unfolding pending_inv_def world_inv_def conn_inv_def nx same_kindsD [OF assms(2)] assms(4) by blast
  moreover have "calling w' \<union> in_flight w' \<subseteq> {..<a_next (cw w')}"
    using assms(1,6) unfolding pending_inv_def world_inv_def nx fl by blast
  moreover have "redo_inv w'"
    by (rule redo_inv_shrink [OF _ assms(2)]) (use assms(1,5,7) in \<open>auto simp: pending_inv_def world_inv_def same_redo_def\<close>)
  ultimately show ?thesis using assms(8) by (simp add: pending_inv_def world_inv_def)
qed

lemma pending_inv_out:
  assumes "pending_inv w" and "remove_token a (cw w) = (s1, calls)"
    and "same_kinds s1 (cw w')" and "same_lists s1 (cw w')"
    and "a_conn_tok (cw w') = a_conn_tok (cw w) \<or> a_conn_tok (cw w) = Some a \<and> a_conn_tok (cw w') = None \<and> calling w' = calling w - {a}"
    and "waiting w' \<union> removing w' = waiting w \<union> removing w - {a}" and "redo w' = redo w - {a}"
    and "a \<in> in_flight w" and "calling w' \<subseteq> calling w" and "recalling w' \<subseteq> recalling w" and "dropped w' = dropped w"
    and "waiting w' \<inter> removing w' = {}" and "\<And>b. told w' b = told w b + count_list calls (Cb_delivery_complete b)"
  shows "pending_inv w'"
proof -
  have fl: "in_flight w' = in_flight w - {a}" using assms(6,7) by (auto simp: in_flight_def)
  have inv: "lists_inv w" "told_inv w" "a < a_next (cw w)" "calling w \<union> in_flight w \<subseteq> {..<a_next (cw w)}" "redo_inv w"
    using assms(1,8) by (auto simp: pending_inv_def world_inv_def)
  have k: "same_kinds (cw w) (cw w')" using same_kinds_trans [OF remove_token_frame(1) [OF assms(2)] assms(3)] .
  have "lists_inv w'" using lists_inv_out [OF inv(1) assms(2,3,4) fl assms(11)] .
  moreover have "told_inv w'" using told_inv_out [OF inv(2,1) assms(2,3) fl assms(8) inv(3) assms(13)] .
  moreover have nx: "a_next (cw w') = a_next (cw w)" using k by (simp add: same_kinds_def)
  moreover have "redo_inv w'"
    by (rule redo_inv_shrink [OF inv(5) k]) (use assms(6,7,10,11) in auto)
  moreover have "conn_inv w'"
  proof -
    have c: "conn_inv w" using assms(1) by (simp add: pending_inv_def world_inv_def)
    show ?thesis
    proof (cases "a_conn_tok (cw w') = a_conn_tok (cw w)")
      case True
      show ?thesis using c assms(9) unfolding conn_inv_def nx same_kindsD [OF k] True by blast
    next
      case False
      then show ?thesis using c assms(5) unfolding conn_inv_def nx same_kindsD [OF k] by auto
    qed
  qed
  moreover have "calling w' \<union> in_flight w' \<subseteq> {..<a_next (cw w')}"
    using inv(4) assms(9) unfolding nx fl by blast
  ultimately show ?thesis using assms(12) by (simp add: pending_inv_def world_inv_def)
qed

lemma pending_inv_call:
  assumes inv: "pending_inv w" and iss: "issued a ty (cw w) s" and conn: "ty = CONNECT \<Longrightarrow> \<not> connecting w"
  defines "w' \<equiv> w\<lparr>cw := s, calling := insert a (calling w), waiting := insert a (waiting w)\<rparr>"
  shows "pending_inv w'"
proof -
  let ?s = "cw w"
  have a: "a = a_next ?s" "a_next s = Suc a" "a_user_callback s = a_user_callback ?s"
    "a_conn_tok s = (if ty = CONNECT then Some a else a_conn_tok ?s)"
    "a_pending s = a_pending ?s @ (if ty = PUBLISH then [] else [a])"
    "a_pending_delivery s = a_pending_delivery ?s @ (if ty = PUBLISH then [a] else [])"
    "t_type (a_tokens s a) = ty"
    using iss unfolding issued_def token_kind_def fst_conv by blast+
  have W: "lists_inv w" "waiting w \<inter> removing w = {}" "calling w \<subseteq> {..<a}" "in_flight w \<subseteq> {..<a}" "conn_inv w" "told_inv w"
    and R: "redo_inv w"
    using inv by (auto simp: pending_inv_def world_inv_def a(1))
  have old: "t_type (a_tokens s b) = t_type (a_tokens ?s b)" if "b < a" for b
    using issued_kinds [OF iss, of b] that by (simp add: a(1) token_kind_def)
  have fl: "in_flight w' = insert a (in_flight w)" by (auto simp: w'_def in_flight_def)
  have new: "a \<notin> in_flight w" "a \<notin> calling w" using W(3,4) by auto
  have sel: "{b \<in> in_flight w'. P (t_type (a_tokens s b))}
      = {b \<in> in_flight w. P (t_type (a_tokens ?s b))} \<union> (if P ty then {a} else {})" for P
    using W(4) old a(7) unfolding fl by auto
  note L = lists_invD [OF W(1)]
  have out: "a \<notin> set (a_pending ?s)" "a \<notin> set (a_pending_delivery ?s)" using L(3,4) new by auto
  have cws: "cw w' = s" "dropped w' = dropped w" by (simp_all add: w'_def)
  have drop: "a \<notin> dropped w" "a \<notin> redo w \<union> recalling w" using R by (auto simp: redo_inv_def a(1))
  have "lists_inv w'"
    unfolding lists_inv_def Let_def cws
    using sel [of "\<lambda>t. t = PUBLISH"] sel [of "\<lambda>t. t \<noteq> PUBLISH"] L out drop a(5,6) by (cases "ty = PUBLISH") auto
  moreover have "redo_inv w'"
    using R old drop(2) unfolding redo_inv_def cws a(2) by (fastforce simp: w'_def a(1) less_SucI)
  moreover have "told_inv w'"
    unfolding told_inv_def
  proof
    fix b
    have k: "token_kind s b = token_kind ?s b" if "b < a" using issued_kinds [OF iss, of b] that by (simp add: a(1))
    have "resolved w' b = resolved w b"
    proof (cases "b < a")
      case True
      then show ?thesis unfolding resolved_def fl cws k [OF True] using a(1,2) by simp
    next
      case False
      then show ?thesis unfolding resolved_def fl cws a(2) a(1) by auto
    qed
    then show "told w' b = (if a_user_callback (cw w') \<and> resolved w' b then 1 else 0)"
      using W(6) a(3) by (simp add: told_inv_def told_def w'_def)
  qed
  moreover have "conn_inv w'"
  proof -
    have none: "ty = CONNECT \<Longrightarrow> \<forall>b \<in> calling w. t_type (a_tokens ?s b) \<noteq> CONNECT"
      using conn by (auto simp: connecting_def)
    have tokb: "\<forall>b. a_conn_tok ?s = Some b \<longrightarrow> b < a \<and> t_type (a_tokens s b) = CONNECT"
      using W(5) old by (simp add: conn_inv_def a(1))
    have same: "b \<in> calling w \<Longrightarrow> t_type (a_tokens s b) = t_type (a_tokens ?s b)" for b using old W(3) by blast
    have cl: "calling w' = insert a (calling w)" by (simp add: w'_def)
    show ?thesis
    proof (cases "ty = CONNECT")
      case True
      then have "\<forall>b \<in> calling w. t_type (a_tokens s b) \<noteq> CONNECT" using none same by simp
      then show ?thesis using a(4,7) True unfolding conn_inv_def cws cl a(2) by simp
    next
      case False
      have "\<forall>b \<in> calling w. t_type (a_tokens s b) = CONNECT \<longrightarrow> a_conn_tok ?s = Some b"
        using W(5) same unfolding conn_inv_def by metis
      moreover have eq: "a_conn_tok s = a_conn_tok ?s" and "t_type (a_tokens s a) \<noteq> CONNECT" using False a(4,7) by simp_all
      ultimately have "\<forall>b \<in> insert a (calling w). t_type (a_tokens s b) = CONNECT \<longrightarrow> a_conn_tok ?s = Some b" by blast
      moreover have "\<forall>b. a_conn_tok ?s = Some b \<longrightarrow> b < Suc a \<and> t_type (a_tokens s b) = CONNECT"
        using tokb less_SucI by blast
      ultimately show ?thesis unfolding conn_inv_def cws cl a(2) eq by blast
    qed
  qed
  moreover have "calling w' \<union> in_flight w' \<subseteq> {..<a_next (cw w')}"
    unfolding fl using W(3,4) a(2) by (auto simp: w'_def)
  moreover have "waiting w' \<inter> removing w' = {}"
    using W(2) new by (auto simp: w'_def in_flight_def)
  ultimately show ?thesis by (simp add: pending_inv_def world_inv_def)
qed

lemma token_kind_PUBLISH_pending:
  "lists_inv w \<Longrightarrow> b \<in> set (a_pending_delivery (cw w)) \<Longrightarrow> t_type (a_tokens (cw w) b) = PUBLISH"
  by (simp add: lists_inv_def Let_def)

lemma told_inv_kinds:
  assumes "told_inv w" and "same_kinds (cw w) (cw w')" and "\<And>b. told w' b = told w b"
    and "\<And>b. t_type (a_tokens (cw w) b) = PUBLISH \<Longrightarrow> b \<in> in_flight w' \<longleftrightarrow> b \<in> in_flight w"
  shows "told_inv w'"
proof -
  have "resolved w' b = resolved w b" for b
    using assms(2) assms(4) [of b] by (auto simp: resolved_def same_kinds_def token_kind_def fun_eq_iff)
  then show ?thesis using assms(1-3) by (simp add: told_inv_def same_kinds_def)
qed

lemma pending_inv_connected:
  assumes inv: "pending_inv w" and oc: "on_connected cause (cw w) = (s, calls)"
  shows "pending_inv (w\<lparr>cw := s, redo := redo w - set_option (a_conn_tok (cw w)),
    dropped := dropped w \<union> set_option (a_conn_tok (cw w)), user_log := user_log w @ calls\<rparr>)"
proof -
  let ?tok = "set_option (a_conn_tok (cw w))"
  let ?w' = "w\<lparr>cw := s, redo := redo w - ?tok, dropped := dropped w \<union> ?tok, user_log := user_log w @ calls\<rparr>"
  have W: "lists_inv w" "conn_inv w" "told_inv w" "redo_inv w" using inv by (simp_all add: pending_inv_def world_inv_def)
  have ct: "t_type (a_tokens (cw w) a) = CONNECT" "a < a_next (cw w)" if "a \<in> ?tok" for a
    using W(2) that unfolding conn_inv_def by (auto simp: elem_set)
  have f: "same_kinds (cw w) s" "a_conn_tok s = a_conn_tok (cw w)"
    "a_pending_delivery s = a_pending_delivery (cw w)"
    "a_pending s = (case a_conn_tok (cw w) of None \<Rightarrow> a_pending (cw w) | Some a \<Rightarrow> remove1 a (a_pending (cw w)))"
    "count_list calls (Cb_delivery_complete b) = 0" for b
    using on_connected_frame [OF oc] ct token_kind_PUBLISH_pending [OF W(1)] by (simp_all add: elem_set)
  note L = lists_invD [OF W(1)]
  have fl: "in_flight ?w' \<union> ?tok = in_flight w \<union> ?tok" "in_flight ?w' \<subseteq> in_flight w" by (auto simp: in_flight_def)
  have pub: "b \<in> in_flight ?w' \<longleftrightarrow> b \<in> in_flight w" if "t_type (a_tokens (cw w) b) = PUBLISH" for b
    using that ct fl by fastforce
  have pend: "set (a_pending s) = set (a_pending (cw w)) - ?tok" "distinct (a_pending s)"
    using f(4) L(1) by (auto split: option.splits)
  have cws: "cw ?w' = s" "dropped ?w' = dropped w \<union> ?tok" "calling ?w' = calling w" by simp_all
  have "{a \<in> in_flight ?w'. t_type (a_tokens (cw w) a) = PUBLISH} = {a \<in> in_flight w. t_type (a_tokens (cw w) a) = PUBLISH}"
    using pub by blast
  moreover have "{a \<in> in_flight ?w'. t_type (a_tokens (cw w) a) \<noteq> PUBLISH} - (dropped w \<union> ?tok)
      = {a \<in> in_flight w. t_type (a_tokens (cw w) a) \<noteq> PUBLISH} - dropped w - ?tok"
    using fl by blast
  ultimately have "lists_inv ?w'"
    using L(2,3,4) pend f(3) unfolding lists_inv_def Let_def cws same_kindsD [OF f(1)] by simp
  moreover have "told_inv ?w'"
    by (rule told_inv_kinds [OF W(3)]) (use f(1,5) pub in \<open>simp_all add: told_def\<close>)
  moreover have nx: "a_next s = a_next (cw w)" using f(1) by (simp add: same_kinds_def)
  have "conn_inv ?w'"
    using W(2) unfolding conn_inv_def cws nx by (simp only: same_kindsD [OF f(1)] f(2))
  moreover have "redo_inv ?w'"
    using W(4) ct unfolding redo_inv_def cws nx same_kindsD [OF f(1)] by auto
  ultimately show ?thesis
    using inv fl(2) nx by (auto simp: pending_inv_def world_inv_def)
qed

lemma pending_inv_reconnect:
  assumes inv: "pending_inv w" and rb: "reconnect_begin lib (cw w) = Inr (a, req, s)"
    and new: "a \<notin> in_flight w \<union> calling w \<union> recalling w"
  shows "pending_inv (w\<lparr>cw := s, recalling := insert a (recalling w), redo := insert a (redo w), dropped := dropped w - {a}\<rparr>)"
proof -
  let ?w' = "w\<lparr>cw := s, recalling := insert a (recalling w), redo := insert a (redo w), dropped := dropped w - {a}\<rparr>"
  have W: "lists_inv w" "conn_inv w" "told_inv w" "redo_inv w" using inv by (simp_all add: pending_inv_def world_inv_def)
  have tok: "a_conn_tok (cw w) = Some a" and s: "s = add_token a (update_token a token_reset (cw w))"
    using rb by (auto simp: reconnect_begin_def split: option.splits)
  have ct: "t_type (a_tokens (cw w) a) = CONNECT" "a < a_next (cw w)"
    using W(2) tok unfolding conn_inv_def by blast+
  have k: "same_kinds (cw w) s" "a_conn_tok s = a_conn_tok (cw w)" "a_pending s = a_pending (cw w) @ [a]"
    "a_pending_delivery s = a_pending_delivery (cw w)"
    unfolding s by (auto simp: add_token_def update_token_def token_reset_def same_kinds_def token_kind_def fun_eq_iff)
  note L = lists_invD [OF W(1)]
  have cws: "cw ?w' = s" "dropped ?w' = dropped w - {a}" "calling ?w' = calling w" "in_flight ?w' = insert a (in_flight w)"
    by (auto simp: in_flight_def)
  have nx: "a_next s = a_next (cw w)" using k(1) by (simp add: same_kinds_def)
  have "lists_inv ?w'"
    using L k(3,4) ct(1) new unfolding lists_inv_def Let_def cws same_kindsD [OF k(1)] by auto
  moreover have "told_inv ?w'"
    by (rule told_inv_kinds [OF W(3)]) (use k(1) ct(1) cws in \<open>auto simp: told_def\<close>)
  moreover have "conn_inv ?w'"
    using W(2) unfolding conn_inv_def cws nx by (simp only: same_kindsD [OF k(1)] k(2))
  moreover have "redo_inv ?w'"
    using W(4) ct new unfolding redo_inv_def cws nx same_kindsD [OF k(1)] by (auto simp: in_flight_def)
  ultimately show ?thesis
    using inv ct(2) nx unfolding pending_inv_def world_inv_def cws by auto
qed

lemma pending_inv_frame:
  assumes "pending_inv w" and "same_kinds (cw w) s" and "same_lists (cw w) s" and "a_conn_tok s = a_conn_tok (cw w)"
    and "\<forall>b. count_list calls (Cb_delivery_complete b) = 0"
  shows "pending_inv (w\<lparr>cw := s, user_log := user_log w @ calls\<rparr>)"
  by (rule pending_inv_same [OF assms(1)])
    (use assms in \<open>simp_all add: told_def same_redo_def pending_inv_def world_inv_def\<close>)

lemma world_inv_disjoint: "pending_inv w \<Longrightarrow> waiting w \<inter> removing w = {}"
  by (simp add: pending_inv_def world_inv_def)

lemma redo_apart: "pending_inv w \<Longrightarrow> a \<in> waiting w \<union> removing w \<Longrightarrow> redo w - {a} = redo w"
  by (auto simp: pending_inv_def world_inv_def redo_inv_def)

lemma op_end_refused: "rc \<noteq> 0 \<Longrightarrow> op_end lib a rc s = (r, s', calls) \<Longrightarrow> remove_token a s = (s', calls)"
  by (simp add: op_end_def)

text \<open>\<open>reconnect\<close> installs the callback first, which no token depends on.\<close>

lemma reconnect_end_accepted:
  "reconnect_end lib a 0 0 s = (r, s', calls) \<Longrightarrow> same_kinds s s' \<and> same_lists s s' \<and> a_conn_tok s' = a_conn_tok s \<and> calls = []"
  by (auto simp: reconnect_end_def op_end_def same_kinds_def same_lists_def token_kind_def fun_eq_iff Let_def)

lemma reconnect_end_refused:
  assumes "reconnect_end lib a rc1 rc2 s = (r, s', calls)" and "rc1 \<noteq> 0 \<or> rc2 \<noteq> 0"
  obtains s1 where "remove_token a s = (s1, calls)" "same_kinds s1 s'" "same_lists s1 s'" "a_conn_tok s' = a_conn_tok s"
proof -
  obtain s1 c1 where r: "remove_token a s = (s1, c1)" by fastforce
  show thesis
    by (rule that [of s1])
      (use assms r in \<open>auto simp: reconnect_end_def op_end_def remove_token_def same_kinds_def same_lists_def
        token_kind_def fun_eq_iff Let_def split: if_splits\<close>)
qed

lemma client_step_inv: "client_step lib w w' \<Longrightarrow> pending_inv w \<Longrightarrow> pending_inv w'"
proof (induction rule: client_step.induct)
  case (call opr w a req s)
  show ?case using pending_inv_call [OF call(3) issue_issued [OF call(1)]] call(2) by simp
next
  case (accepted a w mid s calls)
  note f = end_call_accepted [OF accepted(2)]
  show ?case
    by (rule pending_inv_same [OF accepted(3)])
      (use f world_inv_disjoint [OF accepted(3)] in \<open>simp_all add: same_redo_def told_def subset_insertI2 Diff_subset\<close>)
next
  case (refused a w rc mid s calls)
  have W: "conn_inv w" "waiting w \<inter> removing w = {}" using refused(5) by (simp_all add: pending_inv_def world_inv_def)
  have ct: "t_type (a_tokens (cw w) a) = CONNECT \<Longrightarrow> a_conn_tok (cw w) = Some a"
    using W(1) refused(1) unfolding conn_inv_def by blast
  from end_call_refused [OF refused(4,3) ct] obtain s1 where s1: "remove_token a (cw w) = (s1, calls)"
    "same_kinds s1 s" "same_lists s1 s"
    "a_conn_tok s = (if t_type (a_tokens (cw w) a) = CONNECT then None else a_conn_tok (cw w))" by blast
  have fl: "waiting w - {a} \<union> removing w = waiting w \<union> removing w - {a}" "a \<in> in_flight w"
    "(waiting w - {a}) \<inter> removing w = {}" "redo w - {a} = redo w"
    using refused(2) W(2) redo_apart [OF refused(5), of a] by (auto simp: in_flight_def)
  have tok: "a_conn_tok s = a_conn_tok (cw w) \<or> a_conn_tok (cw w) = Some a \<and> a_conn_tok s = None"
    using s1(4) ct by simp
  show ?case
    by (rule pending_inv_out [OF refused(5) s1(1)])
      (use s1(2,3) tok fl in \<open>simp_all add: told_def Diff_subset\<close>)
next
  case (callback a w c s calls)
  note f = token_callback_frame [OF callback(2)]
  have fl: "waiting w - {a} \<union> insert a (removing w) = waiting w \<union> removing w"
    "(waiting w - {a}) \<inter> insert a (removing w) = {}"
    using callback(1) world_inv_disjoint [OF callback(3)] by auto
  show ?case
    by (rule pending_inv_same [OF callback(3)]) (use f fl in \<open>simp_all add: same_redo_def told_def\<close>)
next
  case (remove a w s calls)
  have W: "waiting w \<inter> removing w = {}" using remove(3) by (simp add: pending_inv_def world_inv_def)
  have fl: "waiting w \<union> (removing w - {a}) = waiting w \<union> removing w - {a}" "a \<in> in_flight w"
    "waiting w \<inter> (removing w - {a}) = {}" "redo w - {a} = redo w"
    using remove(1) W redo_apart [OF remove(3), of a] by (auto simp: in_flight_def)
  show ?case
    by (rule pending_inv_out [OF remove(3,2)])
      (use fl remove_token_frame(2) [OF remove(2)] in \<open>simp_all add: told_def same_kinds_def same_lists_def\<close>)
next
  case (connected cause w s calls)
  then show ?case by (simp add: pending_inv_connected)
next
  case (reconnect w a req s)
  then show ?case by (simp add: pending_inv_reconnect)
next
  case (reconnect_accepted a w r s calls)
  note f = reconnect_end_accepted [OF reconnect_accepted(2)]
  show ?case
    by (rule pending_inv_same [OF reconnect_accepted(3)])
      (use f world_inv_disjoint [OF reconnect_accepted(3)] in \<open>auto simp: same_redo_def told_def\<close>)
next
  case (reconnect_refused a w rc1 rc2 r s calls)
  let ?w' = "w\<lparr>cw := s, recalling := recalling w - {a}, redo := redo w - {a}, user_log := user_log w @ calls\<rparr>"
  obtain s1 where s1: "remove_token a (cw w) = (s1, calls)" "same_kinds s1 s" "same_lists s1 s" "a_conn_tok s = a_conn_tok (cw w)"
    using reconnect_end_refused [OF reconnect_refused(3,2)] .
  have W: "lists_inv w" "redo_inv w" using reconnect_refused(4) by (simp_all add: pending_inv_def world_inv_def)
  then have a: "a \<notin> waiting w \<union> removing w" "t_type (a_tokens (cw w) a) = CONNECT"
    using reconnect_refused(1) by (auto simp: redo_inv_def)
  show ?case
  proof (cases "a \<in> redo w")
    case True
    then show ?thesis
      by (intro pending_inv_out [OF reconnect_refused(4) s1(1)])
        (use s1 a(1) world_inv_disjoint [OF reconnect_refused(4)] in \<open>auto simp: in_flight_def told_def\<close>)
  next
    case False
    then have out: "a \<notin> set (a_pending (cw w))" "a \<notin> set (a_pending_delivery (cw w))"
      using lists_invD(3,4) [OF W(1)] a by (auto simp: in_flight_def)
    then have "s1 = cw w" "calls = []" using s1(1) by (auto simp: remove_token_def remove1_idem)
    with s1 False show ?thesis
      by (intro pending_inv_same [OF reconnect_refused(4)])
        (use world_inv_disjoint [OF reconnect_refused(4)] in \<open>auto simp: same_redo_def told_def\<close>)
  qed
next
  case (lost cause w s calls)
  then show ?case using que_put_frame [where s = "cw w"]
    by (intro pending_inv_frame) (auto simp: on_connection_lost_def Let_def)
next
  case (message name len c w s calls)
  then show ?case using que_put_frame [where s = "cw w"]
    by (intro pending_inv_frame) (auto simp: on_message_arrived_def Let_def)
qed

lemma client_reachable_inv: "client_reachable lib w \<Longrightarrow> pending_inv w"
proof (induction rule: client_reachable.induct)
  case (start user)
  show ?case
    by (simp add: pending_inv_def world_inv_def lists_inv_def conn_inv_def redo_inv_def told_inv_def told_def resolved_def
        start_world_def new_client_def in_flight_def Let_def)
qed (rule client_step_inv)

section \<open>Properties\<close>

text \<open>C20: the client keeps exactly the tokens in flight. In every reachable state its lists hold no token
  twice; the delivery list holds exactly the publications whose callback has not finished; the other
  list holds exactly the other operations in flight, reconnects included, except a connect token that
  \<open>on_connected\<close> has already taken off. So when nothing is in flight both lists are empty, whatever was
  refused, failed or completed, in whatever order. One operation at a time uses the connect token:
  no connect is called while a call of it has not returned, no reconnect before the last one is over.\<close>

theorem pending_tokens_in_flight:
  assumes "client_reachable lib w"
  shows "distinct (a_pending (cw w) @ a_pending_delivery (cw w))
    \<and> set (a_pending_delivery (cw w)) = {a \<in> in_flight w. t_type (a_tokens (cw w) a) = PUBLISH}
    \<and> set (a_pending (cw w)) = {a \<in> in_flight w. t_type (a_tokens (cw w) a) \<noteq> PUBLISH} - dropped w
    \<and> dropped w \<subseteq> {a. t_type (a_tokens (cw w) a) = CONNECT}
    \<and> (in_flight w = {} \<longrightarrow> a_pending (cw w) = [] \<and> a_pending_delivery (cw w) = [])"
proof -
  have inv: "lists_inv w" "redo_inv w" using client_reachable_inv [OF assms] by (simp_all add: pending_inv_def world_inv_def)
  then have "dropped w \<subseteq> {a. t_type (a_tokens (cw w) a) = CONNECT}" by (auto simp: redo_inv_def)
  with lists_invD [OF inv(1)] show ?thesis by auto
qed

definition sample_message :: "unit message" where
  "sample_message = new_message\<lparr>m_topic := Some ''t'', c_qos := 1\<rparr>"

definition refused_world :: "unit client_world" where
  "refused_world = \<lparr>cw = (let s = new_client True in s\<lparr>a_tokens := (a_tokens s)(0 := new_delivery_token sample_message None), a_next := 1\<rparr>),
     calling = {}, waiting = {}, removing = {}, recalling = {}, redo = {}, dropped = {}, user_log = [Cb_delivery_complete 0]\<rparr>"

lemma refused_world_reachable: "client_reachable lib refused_world"
proof -
  let ?w0 = "start_world (new_client True) :: unit client_world"
  let ?s1 = "snd (snd (publish_begin sample_message None (cw ?w0) :: nat \<times> (unit, unit) request \<times> unit async_client))"
  let ?w1 = "?w0\<lparr>cw := ?s1, calling := insert 0 (calling ?w0), waiting := insert 0 (waiting ?w0)\<rparr>"
  have "issue lib (Publish sample_message None :: (unit, unit) client_op) (cw ?w0)
      = Inr (0, Req_send ''t'' sample_message (delivery_response_options 0 0), ?s1)"
    by (simp add: start_world_def publish_begin_def token_defs Let_def get_topic_def to_string_or_empty_def
        new_client_def sample_message_def c_str_copy_def)
  then have "client_step lib ?w0 ?w1" by (rule client_step.call) simp
  then have r1: "client_reachable lib ?w1" by (rule client_reachable.step [OF client_reachable.start])
  have s1: "?s1 = (new_client True)\<lparr>a_pending_delivery := [0],
      a_tokens := (a_tokens (new_client True))(0 := new_delivery_token sample_message None), a_next := 1\<rparr>"
    by (simp add: start_world_def publish_begin_def alloc_token_def add_delivery_token_def Let_def new_client_def)
  have e: "end_call lib 0 (-3) 0 (cw ?w1) = (cw refused_world, [Cb_delivery_complete 0])"
  proof -
    have "cw ?w1 = (new_client True)\<lparr>a_pending_delivery := [0],
        a_tokens := (a_tokens (new_client True))(0 := new_delivery_token sample_message None), a_next := 1\<rparr>"
      using s1 by simp
    then show ?thesis
      by (simp only:) (simp add: end_call_def publish_end_def remove_token_def refused_world_def new_client_def
          new_delivery_token_def new_token_def sample_message_def Let_def)
  qed
  have "client_step lib ?w1 (?w1\<lparr>cw := cw refused_world, calling := calling ?w1 - {0}, waiting := waiting ?w1 - {0},
      user_log := user_log ?w1 @ [Cb_delivery_complete 0]\<rparr>)"
    by (rule client_step.refused [OF _ _ _ e]) simp_all
  then have "client_step lib ?w1 refused_world" by (simp add: start_world_def refused_world_def)
  with r1 show ?thesis by (rule client_reachable.step)
qed

theorem pending_tokens_in_flight_witness: "a_pending_delivery (cw refused_world) = []"
  using pending_tokens_in_flight [OF refused_world_reachable] by (simp add: in_flight_def refused_world_def)

text \<open>C21: the user's \<open>delivery_complete\<close> is called exactly once for every publication of quality 1 or 2 that has left
  the client, and for nothing else: neither earlier, nor twice, nor for quality 0, nor for other operations.
  It is called however the publication ended.\<close>

theorem delivery_complete_once:
  assumes "client_reachable lib w"
  shows "count_list (user_log w) (Cb_delivery_complete a) =
    (if a_user_callback (cw w) \<and> a < a_next (cw w) \<and> a \<notin> in_flight w
        \<and> t_type (a_tokens (cw w) a) = PUBLISH
        \<and> (case t_message (a_tokens (cw w) a) of None \<Rightarrow> False | Some m \<Rightarrow> 0 < c_qos m) then 1 else 0)"
proof -
  have "told_inv w" using client_reachable_inv [OF assms] by (simp add: pending_inv_def)
  then show ?thesis by (auto simp: told_inv_def told_def resolved_def token_kind_def split: option.split)
qed

theorem delivery_complete_once_witness:
  "count_list (user_log refused_world) (Cb_delivery_complete 0) = 1"
  using delivery_complete_once [OF refused_world_reachable, of 0]
  by (simp add: refused_world_def in_flight_def new_client_def new_delivery_token_def new_token_def sample_message_def Let_def)

text \<open>So a publication that the library refused, or that failed, is reported as delivered too.\<close>

lemma refused_publication_reported_delivered:
  assumes "a \<in> set (a_pending_delivery s)" and "a_user_callback s" and "t_message (a_tokens s a) = Some m" and "0 < c_qos m"
    and "rc \<noteq> 0"
  shows "\<exists>e s'. publish_end lib a rc mid s = (Inl e, s', [Cb_delivery_complete a])"
  using assms by (auto simp: publish_end_def remove_token_def)

text \<open>A second reconnect before the first has completed enters the connect token twice; its completion takes
  out one entry, and the other stays.\<close>

lemma second_reconnect_leaves_token:
  assumes "a_conn_tok s = Some a" and "a \<notin> set (a_pending_delivery s)" and "a \<in> set (a_pending s)"
    and "reconnect_begin lib s = Inr (b, req, s1)"
    and "on_connected cause s1 = (s2, calls)"
  shows "b = a \<and> a \<in> set (a_pending s2)"
proof -
  have s1: "b = a" "a_conn_tok s1 = Some a" "a_pending s1 = a_pending s @ [a]" "a_pending_delivery s1 = a_pending_delivery s"
    using assms(1,4) by (auto simp: reconnect_begin_def add_token_def update_token_def)
  obtain t c1 where cb: "token_callback a (Success None) s1 = (t, c1)" by fastforce
  obtain u c2 where rm: "remove_token a t = (u, c2)" by fastforce
  have t: "a_pending t = a_pending s @ [a]" "a_pending_delivery t = a_pending_delivery s"
    using token_callback_frame [OF cb] s1 by (simp_all add: same_lists_def)
  have "a_pending u = remove1 a (a_pending s @ [a])"
    using remove_token_frame(4) [OF rm] t assms(2) by simp
  then have "a \<in> set (a_pending u)" using assms(3) by (simp add: remove1_append)
  moreover have "s2 = que_put (Connected_event (to_string_or_empty cause)) u"
    using assms(5) s1(2) cb rm by (simp add: on_connected_def Let_def)
  ultimately show ?thesis using s1(1) que_put_frame(2) [where s = u] by (simp add: same_lists_def)
qed

end
