(* ===== verification/Mqtt_Consumer.thy ===== *)
theory Mqtt_Consumer
  imports Mqtt_Client Controller
begin

text \<open>
  The consumer interface of \<open>async_client\<close> (\<open>controller/deps/paho.mqtt.cpp\<close>), which the controller and the sensor
  use: the callbacks put events into a queue, \<open>consume_message\<close> and its relatives take messages out of it.
  The last section composes it with the controller's loop.
\<close>

section \<open>Starting and stopping\<close>

text \<open>\<open>rc1\<close> to \<open>rc4\<close> are the results of the calls of the C library, in the order of the code.\<close>

definition consumer_closed :: "'p async_client \<Rightarrow> bool" where
  "consumer_closed s \<longleftrightarrow> (case a_que s of None \<Rightarrow> True | Some q \<Rightarrow> is_closed q)"

definition consumer_done :: "'p async_client \<Rightarrow> bool" where
  "consumer_done s \<longleftrightarrow> (case a_que s of None \<Rightarrow> True | Some q \<Rightarrow> is_done q)"

definition consumer_queue_size :: "'p async_client \<Rightarrow> nat" where
  "consumer_queue_size s = (case a_que s of None \<Rightarrow> 0 | Some q \<Rightarrow> length (que q))"

definition clear_consumer :: "'p async_client \<Rightarrow> 'p async_client" where
  "clear_consumer s = s\<lparr>a_que := map_option clear_queue (a_que s)\<rparr>"

definition start_consuming ::
  "c_lib \<Rightarrow> int \<Rightarrow> int \<Rightarrow> int \<Rightarrow> int \<Rightarrow> 'p async_client \<Rightarrow> (mqtt_error + unit) \<times> 'p async_client" where
  "start_consuming lib rc1 rc2 rc3 rc4 s =
     (if \<not> consumer_closed s then (Inr (), s)
      else case disable_callbacks lib rc1 s of
        (Inl e, s) \<Rightarrow> (Inl e, s)
      | (Inr _, s) \<Rightarrow>
          (let s = s\<lparr>a_que := Some new_queue\<rparr>;
               s = (if rc2 = 0 then s\<lparr>a_installed := (a_installed s)\<lparr>i_lost := True, i_message := True\<rparr>\<rparr> else s)
           in if rc2 \<noteq> 0 then (client_check_ret lib rc2, s)
              else
                (let s = (if rc3 = 0 then s\<lparr>a_installed := (a_installed s)\<lparr>i_connected := True\<rparr>\<rparr> else s)
                 in if rc3 \<noteq> 0 then (client_check_ret lib rc3, s)
                    else (client_check_ret lib rc4,
                      if rc4 = 0 then s\<lparr>a_installed := (a_installed s)\<lparr>i_disconnected := True\<rparr>\<rparr> else s))))"

definition stop_consuming :: "c_lib \<Rightarrow> int \<Rightarrow> 'p async_client \<Rightarrow> (mqtt_error + unit) \<times> 'p async_client" where
  "stop_consuming lib rc s =
     (let (r, s) = disable_callbacks lib rc s
      in (r, s\<lparr>a_que := map_option close_queue (a_que s)\<rparr>))"

section \<open>Reading events\<close>

text \<open>\<^term>\<open>None\<close>: the caller blocks. Without a queue the code dereferences a null pointer.\<close>

definition consume_event :: "'p async_client \<Rightarrow> ((mqtt_error + 'p event) \<times> 'p async_client) option" where
  "consume_event s =
     (case a_que s of
        None \<Rightarrow> Some (Inl Null_deref, s)
      | Some q \<Rightarrow>
          (case get q of
             None \<Rightarrow> None
           | Some (Inl Queue_closed) \<Rightarrow> Some (Inr Shutdown_event, s)
           | Some (Inr (e, q')) \<Rightarrow> Some (Inr e, s\<lparr>a_que := Some q'\<rparr>)))"

text \<open>The other variants return whether they got an event. None of the queue's functions they call throws,
  so their handler for a closed queue never runs.\<close>

definition try_consume_event :: "'p async_client \<Rightarrow> (mqtt_error + 'p event option) \<times> 'p async_client" where
  "try_consume_event s =
     (case a_que s of
        None \<Rightarrow> (Inl Null_deref, s)
      | Some q \<Rightarrow> (case try_get False q of (r, q') \<Rightarrow> (Inr r, s\<lparr>a_que := Some q'\<rparr>)))"

definition not_started :: "c_lib \<Rightarrow> mqtt_error" where
  "not_started lib = Mqtt_error (mqtt_exception_msg lib (-1) ''Consumer not started'')"

definition try_consume_event_for :: "c_lib \<Rightarrow> 'p async_client \<Rightarrow> (mqtt_error + 'p event option) \<times> 'p async_client" where
  "try_consume_event_for lib s =
     (case a_que s of
        None \<Rightarrow> (Inl (not_started lib), s)
      | Some q \<Rightarrow> (case try_get_for False q of (r, q') \<Rightarrow> (Inr r, s\<lparr>a_que := Some q'\<rparr>)))"

text \<open>The overload that returns the event: an empty message event when the time is over.\<close>

definition consume_event_within :: "'p async_client \<Rightarrow> (mqtt_error + 'p event) \<times> 'p async_client" where
  "consume_event_within s =
     (case a_que s of
        None \<Rightarrow> (Inl Null_deref, s)
      | Some q \<Rightarrow>
          (case try_get_for False q of
             (None, q') \<Rightarrow> (Inr new_event, s\<lparr>a_que := Some q'\<rparr>)
           | (Some e, q') \<Rightarrow> (Inr e, s\<lparr>a_que := Some q'\<rparr>)))"

text \<open>Up to a point in time: \<open>try_get_until\<close> of the queue is \<open>try_get_for\<close> with another deadline.\<close>

definition try_consume_event_until :: "c_lib \<Rightarrow> 'p async_client \<Rightarrow> (mqtt_error + 'p event option) \<times> 'p async_client" where
  "try_consume_event_until lib s =
     (case a_que s of
        None \<Rightarrow> (Inl (not_started lib), s)
      | Some q \<Rightarrow> (case try_get_for False q of (r, q') \<Rightarrow> (Inr r, s\<lparr>a_que := Some q'\<rparr>)))"

definition consume_event_until :: "'p async_client \<Rightarrow> (mqtt_error + 'p event) \<times> 'p async_client" where
  "consume_event_until s =
     (case a_que s of
        None \<Rightarrow> (Inl Null_deref, s)
      | Some q \<Rightarrow>
          (case try_get_for False q of
             (None, q') \<Rightarrow> (Inr new_event, s\<lparr>a_que := Some q'\<rparr>)
           | (Some e, q') \<Rightarrow> (Inr e, s\<lparr>a_que := Some q'\<rparr>)))"

section \<open>Reading messages\<close>

text \<open>
  The loop of \<open>consume_message\<close> on the queue. The result is \<^term>\<open>None\<close> when it blocks, with the queue as it then
  is, otherwise the pointer it returns.
\<close>

function consume_loop_q :: "'p event thread_queue \<Rightarrow> 'p message option option \<times> 'p event thread_queue" where
  "consume_loop_q q =
     (case get q of
        None \<Rightarrow> (None, q)
      | Some (Inl Queue_closed) \<Rightarrow> (Some None, q)
      | Some (Inr (e, q')) \<Rightarrow>
          (case get_message_if e of
             Some m \<Rightarrow> (Some m, q')
           | None \<Rightarrow> if is_any_disconnect e then (Some None, q') else consume_loop_q q'))"
  by pat_completeness auto

termination
  by (relation "measure (\<lambda>q. length (que q))") (auto simp: get_def split: if_splits list.splits)

declare consume_loop_q.simps [simp del]

definition consume_message ::
  "c_lib \<Rightarrow> 'p async_client \<Rightarrow> (mqtt_error + 'p message option) option \<times> 'p async_client" where
  "consume_message lib s =
     (case a_que s of
        None \<Rightarrow> (Some (Inl (not_started lib)), s)
      | Some q \<Rightarrow> (case consume_loop_q q of (r, q') \<Rightarrow> (map_option Inr r, s\<lparr>a_que := Some q'\<rparr>)))"

text \<open>\<open>try_consume_message\<close>: \<^term>\<open>None\<close> is the result false.\<close>

function try_consume_loop :: "'p event thread_queue \<Rightarrow> 'p message option option \<times> 'p event thread_queue" where
  "try_consume_loop q =
     (case try_get False q of
        (None, q') \<Rightarrow> (None, q')
      | (Some e, q') \<Rightarrow>
          (case get_message_if e of
             Some m \<Rightarrow> (Some m, q')
           | None \<Rightarrow> if is_any_disconnect e then (Some None, q') else try_consume_loop q'))"
  by pat_completeness auto

termination
  by (relation "measure (\<lambda>q. length (que q))") (auto simp: try_get_def split: list.splits)

declare try_consume_loop.simps [simp del]

definition try_consume_message ::
  "c_lib \<Rightarrow> 'p async_client \<Rightarrow> (mqtt_error + 'p message option option) \<times> 'p async_client" where
  "try_consume_message lib s =
     (case a_que s of
        None \<Rightarrow> (Inl (not_started lib), s)
      | Some q \<Rightarrow> (case try_consume_loop q of (r, q') \<Rightarrow> (Inr r, s\<lparr>a_que := Some q'\<rparr>)))"

text \<open>
  The timed loops over what their successive waits obtain, \<^term>\<open>None\<close> for a wait whose time was over. The result
  is \<^term>\<open>None\<close> while a wait goes on, otherwise the returned truth value with the message written.
  \<open>try_consume_message_until\<close> negates the test for a disconnect, as written.
\<close>

fun message_for_loop :: "'p event option list \<Rightarrow> (bool \<times> 'p message option) option" where
  "message_for_loop [] = None"
| "message_for_loop (None # ws) = Some (False, None)"
| "message_for_loop (Some e # ws) =
     (case get_message_if e of
        Some m \<Rightarrow> Some (True, m)
      | None \<Rightarrow> if is_any_disconnect e then Some (True, None) else message_for_loop ws)"

fun message_until_loop :: "'p event option list \<Rightarrow> (bool \<times> 'p message option) option" where
  "message_until_loop [] = None"
| "message_until_loop (None # ws) = Some (False, None)"
| "message_until_loop (Some e # ws) =
     (case get_message_if e of
        Some m \<Rightarrow> Some (True, m)
      | None \<Rightarrow> if \<not> is_any_disconnect e then Some (True, None) else message_until_loop ws)"

section \<open>What the consumer sees\<close>

text \<open>The specification: messages as they are, a null pointer for each disconnect, nothing for a connection.\<close>

definition seen :: "'p event list \<Rightarrow> 'p message option list" where
  "seen es = concat (map (\<lambda>e. case get_message_if e of Some m \<Rightarrow> [m]
     | None \<Rightarrow> if is_any_disconnect e then [None] else []) es)"

lemma seen_simps [simp]:
  "seen [] = []"
  "seen (e # es) = (case get_message_if e of Some m \<Rightarrow> [m] | None \<Rightarrow> if is_any_disconnect e then [None] else []) @ seen es"
  "seen (xs @ ys) = seen xs @ seen ys"
  by (simp_all add: seen_def)

lemma consume_loop_q_seen:
  "(case seen (que q) of
      [] \<Rightarrow> consume_loop_q q = (if is_closed q then Some None else None, q\<lparr>que := []\<rparr>)
    | m # ms \<Rightarrow> \<exists>es. consume_loop_q q = (Some m, q\<lparr>que := es\<rparr>) \<and> seen es = ms \<and> length es < length (que q))"
proof (induction "que q" arbitrary: q)
  case Nil
  then show ?case
    by (subst consume_loop_q.simps) (auto simp: get_def get_ready_def split: queue_error.split)
next
  case (Cons e es)
  have g: "get q = Some (Inr (e, q\<lparr>que := es\<rparr>))"
    using Cons.hyps(2) [symmetric] by (simp add: get_def get_ready_def)
  note IH = Cons.hyps(1) [of "q\<lparr>que := es\<rparr>"]
  show ?case
    unfolding Cons.hyps(2) [symmetric] using IH
    by (subst (1 2) consume_loop_q.simps) (auto simp: g split: option.splits list.splits)
qed

lemma try_consume_loop_seen:
  "(case seen (que q) of
      [] \<Rightarrow> try_consume_loop q = (None, q\<lparr>que := []\<rparr>)
    | m # ms \<Rightarrow> \<exists>es. try_consume_loop q = (Some m, q\<lparr>que := es\<rparr>) \<and> seen es = ms)"
proof (induction "que q" arbitrary: q)
  case Nil
  then show ?case by (subst try_consume_loop.simps) (auto simp: try_get_def)
next
  case (Cons e es)
  have g: "try_get False q = (Some e, q\<lparr>que := es\<rparr>)"
    using Cons.hyps(2) [symmetric] by (simp add: try_get_def)
  note IH = Cons.hyps(1) [of "q\<lparr>que := es\<rparr>"]
  show ?case
    unfolding Cons.hyps(2) [symmetric] using IH
    by (subst (1 2) try_consume_loop.simps) (auto simp: g split: option.splits list.splits)
qed

section \<open>Producers and the consumer\<close>

datatype 'p arrival =
    Message_arrived string nat "'p c_message"
  | Connected "string option"
  | Connection_lost "string option"
  | Disconnected "'p list" int

fun arrive :: "'p arrival \<Rightarrow> 'p async_client \<Rightarrow> 'p async_client" where
  "arrive (Message_arrived name len c) s = fst (on_message_arrived name len c s)"
| "arrive (Connected cause) s = fst (on_connected cause s)"
| "arrive (Connection_lost cause) s = fst (on_connection_lost cause s)"
| "arrive (Disconnected ps r) s = fst (on_disconnected ps r s)"

fun event_of :: "'p arrival \<Rightarrow> 'p event" where
  "event_of (Message_arrived name len c) = Message_event (Some (arrived_message name len c))"
| "event_of (Connected cause) = Connected_event (to_string_or_empty cause)"
| "event_of (Connection_lost cause) = Connection_lost_event (to_string_or_empty cause)"
| "event_of (Disconnected ps r) = Disconnected_event ps r"

lemma que_put_que: "a_que (que_put e s) = (case a_que s of None \<Rightarrow> None
    | Some q \<Rightarrow> Some (case put e q of Some (Inr q') \<Rightarrow> q' | _ \<Rightarrow> q))"
  by (simp add: que_put_def split: option.split sum.split)

lemma remove_token_que: "remove_token a s = (s', calls) \<Longrightarrow> a_que s' = a_que s"
  by (auto simp: remove_token_def split: if_splits)

lemma token_callback_que: "token_callback a c s = (s', calls) \<Longrightarrow> a_que s' = a_que s"
  by (auto simp: token_callback_def update_token_def split: prod.splits)

lemma arrive_que: "a_que (arrive x s) = a_que (que_put (event_of x) s)"
proof (cases x)
  case (Connected cause)
  have "\<exists>s1. fst (on_connected cause s) = que_put (event_of x) s1 \<and> a_que s1 = a_que s"
  proof (cases "a_conn_tok s")
    case None
    then show ?thesis using Connected by (auto simp: on_connected_def Let_def)
  next
    case (Some a)
    obtain s1 c1 where cb: "token_callback a (Success None) s = (s1, c1)" by fastforce
    obtain s2 c2 where rm: "remove_token a s1 = (s2, c2)" by fastforce
    have "fst (on_connected cause s) = que_put (event_of x) s2"
      using Connected Some cb rm by (simp add: on_connected_def Let_def)
    then show ?thesis using token_callback_que [OF cb] remove_token_que [OF rm] by auto
  qed
  then obtain s1 where "fst (on_connected cause s) = que_put (event_of x) s1" "a_que s1 = a_que s" by blast
  then show ?thesis using Connected by (simp add: que_put_que)
qed (simp_all add: on_message_arrived_def on_connection_lost_def on_disconnected_def Let_def)

text \<open>The library's thread and the consumer take turns in any way; a call that blocks is made again later.\<close>

datatype 'p consumer_step = Arrive "'p arrival" | Consume

fun run_consumer :: "c_lib \<Rightarrow> 'p consumer_step list \<Rightarrow> 'p async_client \<Rightarrow> 'p message option list \<times> 'p async_client" where
  "run_consumer lib [] s = ([], s)"
| "run_consumer lib (Arrive x # st) s = run_consumer lib st (arrive x s)"
| "run_consumer lib (Consume # st) s =
     (case consume_message lib s of
        (Some (Inr m), s') \<Rightarrow> (case run_consumer lib st s' of (ms, t) \<Rightarrow> (m # ms, t))
      | (_, s') \<Rightarrow> run_consumer lib st s')"

fun arrivals :: "'p consumer_step list \<Rightarrow> 'p arrival list" where
  "arrivals [] = []"
| "arrivals (Arrive x # st) = x # arrivals st"
| "arrivals (Consume # st) = arrivals st"

lemma run_consumer_seen:
  assumes "a_que s = Some q" and "\<not> is_closed q" and "length (que q) + length st < cap q"
    and "run_consumer lib st s = (ms, s')"
  shows "\<exists>q'. a_que s' = Some q' \<and> \<not> is_closed q' \<and> cap q' = cap q
    \<and> ms @ seen (que q') = seen (que q @ map event_of (arrivals st))"
  using assms
proof (induction st arbitrary: q ms s s')
  case Nil
  then show ?case by simp
next
  case (Cons x st)
  show ?case
  proof (cases x)
    case (Arrive y)
    let ?q = "q\<lparr>que := que q @ [event_of y]\<rparr>"
    have "a_que (arrive y s) = Some ?q"
      using Cons.prems(1-3) by (simp add: arrive_que que_put_que put_def put_ready_def)
    from Cons.IH [OF this] Cons.prems Arrive show ?thesis by simp
  next
    case Consume
    obtain r q1 where r: "consume_loop_q q = (r, q1)" by fastforce
    have cm: "consume_message lib s = (map_option Inr r, s\<lparr>a_que := Some q1\<rparr>)"
      using Cons.prems(1) r by (simp add: consume_message_def)
    obtain ms1 t where run: "run_consumer lib st (s\<lparr>a_que := Some q1\<rparr>) = (ms1, t)" by fastforce
    note IH = Cons.IH [OF _ _ _ run, of q1]
    show ?thesis
    proof (cases "seen (que q)")
      case Nil
      then have q1: "r = None" "q1 = q\<lparr>que := []\<rparr>"
        using consume_loop_q_seen [of q] Cons.prems(2) r by auto
      have "ms = ms1" "s' = t" using Cons.prems(4) Consume cm q1 run by simp_all
      then show ?thesis using IH q1 Nil Cons.prems(2,3) Consume by auto
    next
      case (Cons m rest)
      then obtain es where q1: "r = Some m" "q1 = q\<lparr>que := es\<rparr>" "seen es = rest" "length es < length (que q)"
        using consume_loop_q_seen [of q] r by auto
      have "ms = m # ms1" "s' = t" using Cons.prems(4) Consume cm q1 run by simp_all
      then show ?thesis using IH q1 Cons Cons.prems(2,3) Consume by auto
    qed
  qed
qed

text \<open>C14: the consumer misses nothing. After \<open>start_consuming\<close> succeeded, whatever the library delivers and
  whenever the consumer asks, \<open>consume_message\<close> has returned, in order and once each, the messages that
  arrived and one null pointer for each lost connection or disconnect; the rest is still in the queue.\<close>

theorem consumer_misses_nothing:
  assumes "consumer_closed s0" and "start_consuming lib 0 0 0 0 s0 = (r, s)"
    and "length st < MAX_CAPACITY" and "run_consumer lib st s = (ms, s')"
  shows "r = Inr () \<and> (\<exists>q. a_que s' = Some q \<and> ms @ seen (que q) = seen (map event_of (arrivals st)))"
proof -
  have "r = Inr ()" "a_que s = Some new_queue"
    using assms(1,2) by (auto simp: start_consuming_def disable_callbacks_def client_check_ret_def Let_def)
  then show ?thesis
    using run_consumer_seen [OF _ _ _ assms(4), of new_queue] assms(3) by (auto simp: new_queue_def)
qed

definition sample_steps :: "unit consumer_step list" where
  "sample_steps = [Arrive (Connected None), Consume,
     Arrive (Message_arrived ''a/b'' 0 \<lparr>cm_payload = ''1'', cm_qos = 1, cm_retained = 0, cm_dup = 0, cm_props = []\<rparr>),
     Arrive (Connection_lost None), Consume, Consume]"

definition sample_lib :: c_lib where
  "sample_lib = \<lparr>strerror = \<lambda>_. None, reason_string = \<lambda>_. None\<rparr>"

theorem consumer_misses_nothing_witness:
  "\<exists>q. a_que (snd (run_consumer sample_lib sample_steps (snd (start_consuming sample_lib 0 0 0 0 (new_client True))))) = Some q
    \<and> fst (run_consumer sample_lib sample_steps (snd (start_consuming sample_lib 0 0 0 0 (new_client True)))) @ seen (que q)
      = [Some (arrived_message ''a/b'' 0 \<lparr>cm_payload = ''1'', cm_qos = 1, cm_retained = 0, cm_dup = 0, cm_props = []\<rparr>), None]"
proof -
  have "consumer_closed (new_client True :: unit async_client)" by (simp add: consumer_closed_def new_client_def)
  moreover have "length sample_steps < MAX_CAPACITY" by (simp add: sample_steps_def MAX_CAPACITY_def)
  ultimately show ?thesis
    using consumer_misses_nothing [of "new_client True" sample_lib _ _ sample_steps, OF _ prod.collapse [symmetric] _ prod.collapse [symmetric]]
    by (simp add: sample_steps_def)
qed

text \<open>After \<open>stop_consuming\<close> nobody blocks any more: what is left is returned, then a null pointer at every
  call, and the polling variants report that there is nothing, without ever mentioning the shutdown.\<close>

lemma stopped_consumer_returns:
  assumes "a_que s = Some q" and "is_closed q"
  shows "\<exists>s' q'. consume_message lib s = (Some (Inr (case seen (que q) of [] \<Rightarrow> None | m # _ \<Rightarrow> m)), s')
    \<and> a_que s' = Some q' \<and> is_closed q' \<and> seen (que q') = tl (seen (que q))"
proof -
  obtain r q1 where r: "consume_loop_q q = (r, q1)" by fastforce
  then have cm: "consume_message lib s = (map_option Inr r, s\<lparr>a_que := Some q1\<rparr>)"
    using assms(1) by (simp add: consume_message_def)
  show ?thesis using consume_loop_q_seen [of q] r assms(2) cm by (auto split: list.splits)
qed

lemma stop_consuming_closes:
  "a_que s = Some q \<Longrightarrow> stop_consuming lib rc s = (r, s') \<Longrightarrow> a_que s' = Some (close_queue q)"
  by (auto simp: stop_consuming_def disable_callbacks_def Let_def split: if_splits)

lemma polling_hides_shutdown:
  assumes "a_que s = Some q" and "is_done q"
  shows "consume_event s = Some (Inr Shutdown_event, s) \<and> fst (try_consume_event s) = Inr None
    \<and> fst (try_consume_event_for lib s) = Inr None"
  using assms by (simp add: consume_event_def try_consume_event_def try_consume_event_for_def is_done_def get_def
      get_ready_def try_get_def try_get_for_def)

text \<open>Of the timed variants, those that return a truth value report a consumer that was not started, and those that
  return the event dereference its null pointer; when the time is over, the latter return an event that holds a
  null message.\<close>

lemma timed_events:
  "a_que s = None \<Longrightarrow> fst (try_consume_event_until lib s) = Inl (not_started lib) \<and> fst (consume_event_until s) = Inl Null_deref"
  "a_que s = Some q \<Longrightarrow> que q = [] \<Longrightarrow> fst (try_consume_event_until lib s) = Inr None \<and> fst (consume_event_until s) = Inr new_event"
  "a_que s = Some q \<Longrightarrow> que q = e # es \<Longrightarrow> try_consume_event_until lib s = (Inr (Some e), s\<lparr>a_que := Some (q\<lparr>que := es\<rparr>)\<rparr>)
    \<and> consume_event_until s = (Inr e, s\<lparr>a_que := Some (q\<lparr>que := es\<rparr>)\<rparr>)"
  by (simp_all add: try_consume_event_until_def consume_event_until_def try_get_for_def)

text \<open>\<open>is_shutdown\<close> misses the event it is named after, and the loop of \<open>try_consume_message_until\<close> takes a connection
  for the end and goes on after a disconnect.\<close>

lemma is_shutdown_misses: "\<not> is_shutdown Shutdown_event \<and> is_shutdown (Disconnected_event ps r)"
  by simp

lemma until_loop_inverted:
  "message_until_loop (Some (Connected_event c) # ws) = Some (True, None)
    \<and> message_for_loop (Some (Connected_event c) # ws) = message_for_loop ws
    \<and> message_until_loop (Some (Connection_lost_event c) # ws) = message_until_loop ws
    \<and> message_for_loop (Some (Connection_lost_event c) # ws) = Some (True, None)"
  by simp

section \<open>The controller on its messages\<close>

text \<open>What the controller's loop reads of a message: \<open>get_topic\<close> and \<open>to_string\<close>.\<close>

definition as_received :: "'p message \<Rightarrow> mqtt_message" where
  "as_received m = \<lparr>topic = Mqtt_Message.get_topic m, payload = get_payload m, qos = nat (c_qos m)\<rparr>"

definition messages_of :: "'p arrival list \<Rightarrow> mqtt_message list" where
  "messages_of xs = List.map_filter (\<lambda>x. case x of
     Message_arrived name len c \<Rightarrow>
       Some \<lparr>topic = (if len = 0 then c_str_copy name else take len name), payload = cm_payload c, qos = nat (cm_qos c)\<rparr>
   | _ \<Rightarrow> None) xs"

lemma as_received_arrived:
  "as_received (arrived_message name len c)
    = \<lparr>topic = (if len = 0 then c_str_copy name else take len name), payload = cm_payload c, qos = nat (cm_qos c)\<rparr>"
  by (simp add: as_received_def arrived_message_def message_from_c_def Let_def Mqtt_Message.get_topic_def get_payload_def
      to_string_or_empty_def set_payload_def)

lemma consume_loop_drops_none:
  "consume_loop inet prs xs m db = consume_loop inet prs (filter (\<lambda>x. x \<noteq> None) xs) m db"
  by (induction inet prs xs m db rule: consume_loop.induct) (auto split: prod.splits sum.splits)

lemma seen_messages:
  "filter (\<lambda>x. x \<noteq> None) (map (map_option as_received) (seen (map event_of xs))) = map Some (messages_of xs)"
proof (induction xs)
  case Nil
  show ?case by (simp add: messages_of_def)
next
  case (Cons x xs)
  then show ?case
    by (cases x) (simp_all add: messages_of_def as_received_arrived)
qed

text \<open>C15: the controller acts on exactly the messages the broker delivered. Once its consumer has emptied the
  queue, its loop has done to the database what it does for the list of delivered messages, in their
  order; connections, losses and disconnects make no difference.\<close>

theorem controller_acts_on_delivered_messages:
  assumes "consumer_closed s0" and "start_consuming lib 0 0 0 0 s0 = (r, s)"
    and "length st < MAX_CAPACITY" and "run_consumer lib st s = (ms, s')"
    and "consumer_queue_size s' = 0"
  shows "consume_loop inet prs (map (map_option as_received) ms) m db
    = consume_loop inet prs (map Some (messages_of (arrivals st))) m db"
proof -
  from run_consumer_seen [OF _ _ _ assms(4), of new_queue]
  obtain q where q: "a_que s' = Some q" "ms @ seen (que q) = seen (map event_of (arrivals st))"
    using assms(1,2,3) by (auto simp: start_consuming_def disable_callbacks_def client_check_ret_def Let_def new_queue_def)
  then have "ms = seen (map event_of (arrivals st))" using assms(5) by (simp add: consumer_queue_size_def)
  then show ?thesis
    by (metis consume_loop_drops_none seen_messages)
qed

theorem controller_acts_on_delivered_messages_witness:
  "\<exists>ms s'. run_consumer sample_lib [Arrive (Connected None),
        Arrive (Message_arrived ''a/b'' 0 (\<lparr>cm_payload = ''1'', cm_qos = 1, cm_retained = 0, cm_dup = 0, cm_props = []\<rparr> :: unit c_message)),
        Consume] (snd (start_consuming sample_lib 0 0 0 0 (new_client True))) = (ms, s')
    \<and> consume_loop Some node_parse (map (map_option as_received) ms) (sample_mgr :: unit db_manager) sample_db
      = consume_loop Some node_parse [Some \<lparr>topic = ''a/b'', payload = ''1'', qos = 1\<rparr>] sample_mgr sample_db"
proof -
  let ?msg = "Message_arrived ''a/b'' 0 (\<lparr>cm_payload = ''1'', cm_qos = 1, cm_retained = 0, cm_dup = 0, cm_props = []\<rparr> :: unit c_message)"
  let ?steps = "[Arrive (Connected None), Arrive ?msg, Consume]"
  define st where "st = snd (start_consuming sample_lib 0 0 0 0 (new_client True :: unit async_client))"
  have started: "start_consuming sample_lib 0 0 0 0 (new_client True :: unit async_client) = (Inr (), st)"
    by (simp add: st_def start_consuming_def disable_callbacks_def client_check_ret_def consumer_closed_def new_client_def)
  have closed: "consumer_closed (new_client True :: unit async_client)" by (simp add: consumer_closed_def new_client_def)
  have "a_que st = Some new_queue"
    by (simp add: st_def start_consuming_def disable_callbacks_def consumer_closed_def new_client_def)
  then have "a_que (arrive ?msg (arrive (Connected None) st))
      = Some (new_queue\<lparr>que := [event_of (Connected None), event_of ?msg]\<rparr>)"
    by (simp add: arrive_que que_put_que put_def put_ready_def new_queue_def MAX_CAPACITY_def del: arrive.simps)
  then obtain m s' where run: "run_consumer sample_lib ?steps st = ([m], s')" and "a_que s' = Some new_queue"
    by (simp add: consume_message_def consume_loop_q.simps get_def get_ready_def new_queue_def del: arrive.simps)
  then have size: "consumer_queue_size s' = 0" by (simp add: consumer_queue_size_def new_queue_def)
  have len: "length ?steps < MAX_CAPACITY" by (simp add: MAX_CAPACITY_def)
  from controller_acts_on_delivered_messages [OF closed started len run size, of Some node_parse "sample_mgr :: unit db_manager" sample_db]
  have "consume_loop Some node_parse (map (map_option as_received) [m]) (sample_mgr :: unit db_manager) sample_db
      = consume_loop Some node_parse [Some \<lparr>topic = ''a/b'', payload = ''1'', qos = 1\<rparr>] sample_mgr sample_db"
    by (simp add: messages_of_def c_str_copy_def)
  with run show ?thesis unfolding st_def by blast
qed

end
