(* ===== verification/Mqtt_Sync.thy ===== *)
theory Mqtt_Sync
  imports Mqtt_Consumer
begin

text \<open>
  \<open>client.h\<close> and \<open>client.cpp\<close> of \<open>controller/deps/paho.mqtt.cpp\<close>: the synchronous client, which issues an
  operation of the asynchronous one and waits for its token, up to a time limit. What the C library does
  meanwhile is an argument: the completion it reports within the limit, or none.
\<close>

definition DFLT_QOS :: int where
  "DFLT_QOS = 1"

record 'p sync_client =
  sc_cli :: "'p async_client"
  sc_timeout :: int
  sc_user_callback :: bool

definition new_sync_client :: "'p async_client \<Rightarrow> 'p sync_client" where
  "new_sync_client cli = \<lparr>sc_cli = cli, sc_timeout = 30 * 1000, sc_user_callback = False\<rparr>"

definition sync_set_callback :: "c_lib \<Rightarrow> int \<Rightarrow> int \<Rightarrow> 'p sync_client \<Rightarrow> (mqtt_error + unit) \<times> 'p sync_client" where
  "sync_set_callback lib rc1 rc2 c =
     (case set_callback lib rc1 rc2 (sc_cli c) of (r, s) \<Rightarrow> (r, c\<lparr>sc_cli := s, sc_user_callback := True\<rparr>))"

section \<open>Waiting\<close>

text \<open>The library's thread completes the token and removes it.\<close>

definition completed_token :: "nat \<Rightarrow> 'p completion option \<Rightarrow> 'p async_client \<Rightarrow> 'p async_client \<times> 'p user_call list" where
  "completed_token a h s =
     (case h of None \<Rightarrow> (s, [])
      | Some c \<Rightarrow> (case token_callback a c s of (s1, told) \<Rightarrow> (case remove_token a s1 of (s2, rest) \<Rightarrow> (s2, told @ rest))))"

text \<open>\<open>if (!tok->wait_for(timeout_)) throw timeout_error();\<close> followed by the response. \<^term>\<open>None\<close> would mean that the
  call blocks.\<close>

definition finish ::
  "c_lib \<Rightarrow> ('p token \<Rightarrow> (mqtt_error + 'r) option) \<Rightarrow> nat \<Rightarrow> 'p completion option \<Rightarrow> 'p async_client
    \<Rightarrow> (mqtt_error + 'r) option \<times> 'p async_client" where
  "finish lib rsp a h s =
     (let (s, calls) = completed_token a h s; tok = a_tokens s a
      in (case wait_for lib tok of
            Inl e \<Rightarrow> Some (Inl e)
          | Inr False \<Rightarrow> Some (Inl (Mqtt_error (timeout_error lib)))
          | Inr True \<Rightarrow> rsp tok,
          s))"

definition nothing :: "'p token \<Rightarrow> (mqtt_error + unit) option" where
  "nothing t = Some (Inr ())"

text \<open>The second half of a call: \<open>rc\<close> is what the C library returned.\<close>

definition sync_finish ::
  "c_lib \<Rightarrow> ('p token \<Rightarrow> (mqtt_error + 'r) option) \<Rightarrow> (mqtt_error + nat) \<times> 'p async_client \<times> 'p user_call list
    \<Rightarrow> 'p completion option \<Rightarrow> (mqtt_error + 'r) option \<times> 'p async_client" where
  "sync_finish lib rsp res h =
     (case res of (Inl e, s, _) \<Rightarrow> (Some (Inl e), s) | (Inr a, s, _) \<Rightarrow> finish lib rsp a h s)"

section \<open>Operations\<close>

text \<open>\<open>connect\<close> starts the consumer first; \<open>rcs\<close> are the four codes that takes.\<close>

definition sync_connect ::
  "c_lib \<Rightarrow> connect_options \<Rightarrow> int \<times> int \<times> int \<times> int \<Rightarrow> int \<Rightarrow> 'p completion option \<Rightarrow> 'p async_client
    \<Rightarrow> (mqtt_error + 'p connect_response) option \<times> 'p async_client" where
  "sync_connect lib opts rcs rc h s =
     (case rcs of (rc1, rc2, rc3, rc4) \<Rightarrow>
        (case start_consuming lib rc1 rc2 rc3 rc4 s of
           (Inl e, s) \<Rightarrow> (Some (Inl e), s)
         | (Inr _, s) \<Rightarrow>
             (case connect_begin opts None s :: nat \<times> ('p, unit) request \<times> 'p async_client of
                (a, req, s) \<Rightarrow>
                  (case connect_end lib rc s of
                     (Inl e, s, _) \<Rightarrow> (Some (Inl e), s)
                   | (Inr None, s, _) \<Rightarrow> (Some (Inl Null_deref), s)
                   | (Inr (Some a), s, _) \<Rightarrow> finish lib (get_connect_response lib) a h s))))"

definition sync_reconnect ::
  "c_lib \<Rightarrow> int \<Rightarrow> int \<Rightarrow> 'p completion option \<Rightarrow> 'p async_client
    \<Rightarrow> (mqtt_error + 'p connect_response) option \<times> 'p async_client" where
  "sync_reconnect lib rc1 rc2 h s =
     (case reconnect_begin lib s :: mqtt_error + nat \<times> ('p, unit) request \<times> 'p async_client of
        Inl e \<Rightarrow> (Some (Inl e), s)
      | Inr (a, req, s) \<Rightarrow> sync_finish lib (get_connect_response lib) (reconnect_end lib a rc1 rc2 s) h)"

definition sync_subscribe ::
  "c_lib \<Rightarrow> string \<Rightarrow> int option \<Rightarrow> 'o \<Rightarrow> 'p list \<Rightarrow> int \<Rightarrow> 'p completion option \<Rightarrow> 'p async_client
    \<Rightarrow> (mqtt_error + 'p codes_response) option \<times> 'p async_client" where
  "sync_subscribe lib flt q sub ps rc h s =
     (case subscribe_begin flt (case q of None \<Rightarrow> DFLT_QOS | Some q \<Rightarrow> q) sub ps None s of
        (a, req, s) \<Rightarrow> sync_finish lib (get_subscribe_response lib) (op_end lib a rc s) h)"

definition sync_subscribe_many ::
  "c_lib \<Rightarrow> string list \<Rightarrow> int list option \<Rightarrow> 'o list \<Rightarrow> 'p list \<Rightarrow> int \<Rightarrow> 'p completion option \<Rightarrow> 'p async_client
    \<Rightarrow> (mqtt_error + 'p codes_response) option \<times> 'p async_client" where
  "sync_subscribe_many lib flts qs subs ps rc h s =
     (case subscribe_many_begin flts (case qs of None \<Rightarrow> map (\<lambda>_. DFLT_QOS) flts | Some qs \<Rightarrow> qs) subs ps None s of
        Inl e \<Rightarrow> (Some (Inl e), s)
      | Inr (a, req, s) \<Rightarrow> sync_finish lib (get_subscribe_response lib) (op_end lib a rc s) h)"

definition sync_unsubscribe ::
  "c_lib \<Rightarrow> string \<Rightarrow> 'p list \<Rightarrow> int \<Rightarrow> 'p completion option \<Rightarrow> 'p async_client
    \<Rightarrow> (mqtt_error + 'p codes_response) option \<times> 'p async_client" where
  "sync_unsubscribe lib flt ps rc h s =
     (case unsubscribe_begin flt ps None s :: nat \<times> ('p, unit) request \<times> 'p async_client of
        (a, req, s) \<Rightarrow> sync_finish lib (get_unsubscribe_response lib) (op_end lib a rc s) h)"

definition sync_unsubscribe_many ::
  "c_lib \<Rightarrow> string list \<Rightarrow> 'p list \<Rightarrow> int \<Rightarrow> 'p completion option \<Rightarrow> 'p async_client
    \<Rightarrow> (mqtt_error + 'p codes_response) option \<times> 'p async_client" where
  "sync_unsubscribe_many lib flts ps rc h s =
     (case unsubscribe_many_begin flts ps None s :: nat \<times> ('p, unit) request \<times> 'p async_client of
        (a, req, s) \<Rightarrow> sync_finish lib (get_unsubscribe_response lib) (op_end lib a rc s) h)"

definition sync_disconnect ::
  "c_lib \<Rightarrow> int \<Rightarrow> 'p completion option \<Rightarrow> 'p async_client \<Rightarrow> (mqtt_error + unit) option \<times> 'p async_client" where
  "sync_disconnect lib rc h s =
     (case disconnect_begin None s :: nat \<times> ('p, unit) request \<times> 'p async_client of
        (a, req, s) \<Rightarrow> sync_finish lib nothing (op_end lib a rc s) h)"

definition sync_publish ::
  "c_lib \<Rightarrow> 'p message \<Rightarrow> int \<Rightarrow> int \<Rightarrow> 'p completion option \<Rightarrow> 'p async_client
    \<Rightarrow> (mqtt_error + unit) option \<times> 'p async_client" where
  "sync_publish lib m rc mid h s =
     (case publish_begin m None s :: nat \<times> ('p, unit) request \<times> 'p async_client of
        (a, req, s) \<Rightarrow> sync_finish lib nothing (publish_end lib a rc mid s) h)"

text \<open>\<open>publish(const message&)\<close> waits without a limit: \<open>h\<close> is what the library ever reports.\<close>

definition sync_publish_ref ::
  "c_lib \<Rightarrow> 'p message \<Rightarrow> int \<Rightarrow> int \<Rightarrow> 'p completion option \<Rightarrow> 'p async_client
    \<Rightarrow> (mqtt_error + unit) option \<times> 'p async_client" where
  "sync_publish_ref lib m rc mid h s =
     (case publish_begin m None s :: nat \<times> ('p, unit) request \<times> 'p async_client of
        (a, req, s) \<Rightarrow>
          (case publish_end lib a rc mid s of
             (Inl e, s, _) \<Rightarrow> (Some (Inl e), s)
           | (Inr a, s, _) \<Rightarrow> (case completed_token a h s of (s, calls) \<Rightarrow> (wait lib (a_tokens s a), s))))"

section \<open>Properties\<close>

lemma remove_token_tokens: "remove_token a s = (s', calls) \<Longrightarrow> a_tokens s' = a_tokens s"
  by (auto simp: remove_token_def split: if_splits)

lemma completed_token_token:
  assumes "completed_token a h s = (s', calls)"
  shows "a_tokens s' a = (case h of None \<Rightarrow> a_tokens s a | Some c \<Rightarrow> fst (complete_token c (a_tokens s a)))"
proof (cases h)
  case None
  with assms show ?thesis by (simp add: completed_token_def)
next
  case (Some c)
  obtain s1 c1 where cb: "token_callback a c s = (s1, c1)" by fastforce
  obtain s2 c2 where rm: "remove_token a s1 = (s2, c2)" by fastforce
  have "s' = s2" using assms Some cb rm by (simp add: completed_token_def)
  moreover have "a_tokens s1 a = fst (complete_token c (a_tokens s a))"
    using cb by (auto simp: token_callback_def update_token_def split: prod.splits)
  ultimately show ?thesis using remove_token_tokens [OF rm] Some by simp
qed

text \<open>What a bounded call returns on a fresh token: the time limit, the failure reported, or the response.\<close>

lemma finish_result:
  assumes "fresh_token (a_tokens s a)" and "finish lib rsp a h s = (r, s')"
  shows "r = (case h of
      None \<Rightarrow> Some (Inl (Mqtt_error (timeout_error lib)))
    | Some c \<Rightarrow> (case outcome lib c of Inl e \<Rightarrow> Some (Inl e)
        | Inr _ \<Rightarrow> rsp (fst (complete_token c (a_tokens s a)))))"
proof -
  obtain s1 calls where ct: "completed_token a h s = (s1, calls)" by fastforce
  note tok = completed_token_token [OF ct]
  show ?thesis
  proof (cases h)
    case None
    then show ?thesis using assms tok ct by (auto simp: finish_def wait_for_def fresh_token_def)
  next
    case (Some c)
    let ?t = "fst (complete_token c (a_tokens s a))"
    have "t_complete ?t" by (simp add: complete_token_frame)
    moreover have "check_ret lib ?t = outcome lib c" by (rule complete_token_check_ret [OF assms(1)])
    ultimately have "wait_for lib ?t = sbind (outcome lib c) (\<lambda>_. Inr True)" by (simp add: wait_for_def)
    then show ?thesis using assms(2) tok ct Some by (cases "outcome lib c") (auto simp: finish_def)
  qed
qed

lemma get_subscribe_response_returns: "t_complete t \<Longrightarrow> \<exists>r. get_subscribe_response lib t = Some r"
  by (simp add: get_subscribe_response_def)

lemma get_connect_response_returns: "t_complete t \<Longrightarrow> \<exists>r. get_connect_response lib t = Some r"
  by (simp add: get_connect_response_def)

lemma get_unsubscribe_response_returns: "t_complete t \<Longrightarrow> \<exists>r. get_unsubscribe_response lib t = Some r"
  by (simp add: get_unsubscribe_response_def)

lemma finish_returns:
  assumes "\<And>t. t_complete t \<Longrightarrow> \<exists>r. rsp t = Some r"
  shows "\<exists>r. fst (finish lib rsp a h s) = Some r"
proof -
  obtain s1 calls where ct: "completed_token a h s = (s1, calls)" by fastforce
  show ?thesis
    using assms [of "a_tokens s1 a"] ct
    by (cases "check_ret lib (a_tokens s1 a)") (auto simp: finish_def wait_for_def Let_def)
qed

lemma sync_finish_returns: "(\<And>t. t_complete t \<Longrightarrow> \<exists>r. rsp t = Some r) \<Longrightarrow> \<exists>r. fst (sync_finish lib rsp res h) = Some r"
  using finish_returns [of rsp] by (simp add: sync_finish_def split: prod.split sum.split)

text \<open>Every call with a time limit returns, whatever the library reports or fails to report; the one without
  blocks when it reports nothing.\<close>

lemma bounded_calls_return:
  "\<exists>r. fst (sync_subscribe lib flt q sub ps rc h s) = Some r"
  "\<exists>r. fst (sync_subscribe_many lib flts qs subs ps rc h s) = Some r"
  "\<exists>r. fst (sync_unsubscribe lib flt ps rc h s) = Some r"
  "\<exists>r. fst (sync_unsubscribe_many lib flts ps rc h s) = Some r"
  "\<exists>r. fst (sync_disconnect lib rc h s) = Some r"
  "\<exists>r. fst (sync_publish lib m rc mid h s) = Some r"
  "\<exists>r. fst (sync_reconnect lib rc1 rc2 h s) = Some r"
  by (simp_all add: sync_subscribe_def sync_subscribe_many_def sync_unsubscribe_def sync_unsubscribe_many_def
      sync_disconnect_def sync_publish_def sync_reconnect_def sync_finish_returns get_subscribe_response_returns
      get_unsubscribe_response_returns get_connect_response_returns nothing_def split: prod.split sum.split)

lemma sync_connect_returns: "\<exists>r. fst (sync_connect lib opts rcs rc h s) = Some r"
  by (simp add: sync_connect_def finish_returns get_connect_response_returns split: prod.split sum.split option.split)

lemma unbounded_publish_blocks: "fst (sync_publish_ref lib m 0 mid None s) = None"
  by (simp add: sync_publish_ref_def publish_begin_def publish_end_def alloc_token_def add_delivery_token_def
      new_delivery_token_def new_token_def completed_token_def update_token_def set_message_id_def wait_def Let_def)

text \<open>The default qualities of service fit any collection of filters: the sizes never disagree.\<close>

lemma default_qos_fits:
  "subscribe_many_begin flts (map (\<lambda>_. DFLT_QOS) flts) subs ps cb s \<noteq> Inl (Invalid_argument e)"
  by (simp add: subscribe_many_begin_def Let_def split: prod.split)

text \<open>A subscription of one filter under MQTT 3 returns the quality the broker granted, or reports what went
  wrong: the library's refusal, the time limit, or the failure.\<close>

lemma sync_subscribe_result:
  "fst (sync_subscribe lib flt q sub ps rc h s) = Some
    (if rc \<noteq> 0 then Inl (Mqtt_error (mqtt_exception_rc lib rc))
     else case h of
       None \<Rightarrow> Inl (Mqtt_error (timeout_error lib))
     | Some (Success d) \<Rightarrow>
         (case d of None \<Rightarrow> Inl (Mqtt_error (missing_response lib ''subscribe''))
          | Some d \<Rightarrow> Inr \<lparr>rsp_props = [], rsp_codes = [sd_qos d]\<rparr>)
     | Some c \<Rightarrow> (case outcome lib c of Inl e \<Rightarrow> Inl e
         | Inr _ \<Rightarrow> the (get_subscribe_response lib (fst (complete_token c (set_num_expected 0 (new_token SUBSCRIBE (Some [flt]) None)))))))"
proof -
  let ?t = "set_num_expected 0 (new_token SUBSCRIBE (Some [flt]) None) :: 'a token"
  obtain a req s1 where b: "subscribe_begin flt (case q of None \<Rightarrow> DFLT_QOS | Some q \<Rightarrow> q) sub ps None s = (a, req, s1)"
    by (metis prod_cases3)
  have t: "a_tokens s1 a = ?t" "fresh_token ?t" "t_sub_rsp ?t = None"
    using b by (auto simp: subscribe_begin_def Let_def token_defs)
  show ?thesis
  proof (cases "rc = 0")
    case False
    then show ?thesis using b by (simp add: sync_subscribe_def sync_finish_def op_end_def split: prod.split)
  next
    case True
    obtain r s2 where f: "finish lib (get_subscribe_response lib) a h s1 = (r, s2)" by fastforce
    have "fst (sync_subscribe lib flt q sub ps rc h s) = r"
      using b True f by (simp add: sync_subscribe_def sync_finish_def op_end_def)
    moreover have res: "r = (case h of None \<Rightarrow> Some (Inl (Mqtt_error (timeout_error lib)))
      | Some c \<Rightarrow> (case outcome lib c of Inl e \<Rightarrow> Some (Inl e)
          | Inr _ \<Rightarrow> get_subscribe_response lib (fst (complete_token c ?t))))"
      using finish_result [OF t(2) [folded t(1)] f] unfolding t(1) .
    moreover have "get_subscribe_response lib (fst (complete_token c ?t))
        = Some (the (get_subscribe_response lib (fst (complete_token c ?t))))" for c
      using get_subscribe_response_returns [of "fst (complete_token c ?t)" lib] by (auto simp: complete_token_frame)
    note this [of "Success5 _"] this [of "Failure _"] this [of "Failure5 _"]
    moreover have "get_subscribe_response lib (fst (on_success d ?t)) = Some (case d of
        None \<Rightarrow> Inl (Mqtt_error (missing_response lib ''subscribe''))
      | Some d \<Rightarrow> Inr \<lparr>rsp_props = [], rsp_codes = [sd_qos d]\<rparr>)" for d
      using subscription_codes_returned [OF t(2,3), of lib d]
      by (auto simp: set_num_expected_def new_token_def codes_of_def split: option.split)
    ultimately show ?thesis
      using True by (auto simp: outcome_def split: option.split completion.split sum.split)
  qed
qed

section \<open>The rest of the client\<close>

definition sync_set_timeout :: "int \<Rightarrow> 'p sync_client \<Rightarrow> 'p sync_client" where
  "sync_set_timeout ms c = c\<lparr>sc_timeout := ms\<rparr>"

text \<open>The consumer's operations are the asynchronous client's.\<close>

definition sync_start_consuming :: "c_lib \<Rightarrow> int \<times> int \<times> int \<times> int \<Rightarrow> 'p sync_client \<Rightarrow> (mqtt_error + unit) \<times> 'p sync_client" where
  "sync_start_consuming lib rcs c =
     (case rcs of (rc1, rc2, rc3, rc4) \<Rightarrow>
        case start_consuming lib rc1 rc2 rc3 rc4 (sc_cli c) of (r, s) \<Rightarrow> (r, c\<lparr>sc_cli := s\<rparr>))"

definition sync_stop_consuming :: "c_lib \<Rightarrow> int \<Rightarrow> 'p sync_client \<Rightarrow> (mqtt_error + unit) \<times> 'p sync_client" where
  "sync_stop_consuming lib rc c = (case stop_consuming lib rc (sc_cli c) of (r, s) \<Rightarrow> (r, c\<lparr>sc_cli := s\<rparr>))"

definition sync_consume_message :: "c_lib \<Rightarrow> 'p sync_client \<Rightarrow> (mqtt_error + 'p message option) option \<times> 'p sync_client" where
  "sync_consume_message lib c = (case consume_message lib (sc_cli c) of (r, s) \<Rightarrow> (r, c\<lparr>sc_cli := s\<rparr>))"

definition sync_try_consume_message ::
  "c_lib \<Rightarrow> 'p sync_client \<Rightarrow> (mqtt_error + 'p message option option) \<times> 'p sync_client" where
  "sync_try_consume_message lib c = (case try_consume_message lib (sc_cli c) of (r, s) \<Rightarrow> (r, c\<lparr>sc_cli := s\<rparr>))"

text \<open>
  The callbacks of the asynchronous client, passed on to the user's object: \<open>user\<close> is what that does with a
  call. Most run in a thread of their own, whose future is waited for but not asked, so that an exception
  stays in it; \<open>message_arrived\<close> is called directly.
\<close>

fun sync_forward :: "('p user_call \<Rightarrow> exn + unit) \<Rightarrow> 'p user_call \<Rightarrow> exn + unit" where
  "sync_forward user (Cb_message_arrived m) = user (Cb_message_arrived m)"
| "sync_forward user _ = Inr ()"

lemma only_messages_throw: "sync_forward user call = Inl e \<Longrightarrow> \<exists>m. call = Cb_message_arrived m"
  by (cases "(user, call)" rule: sync_forward.cases) auto

text \<open>\<open>connect\<close> starts the consumer for users of callbacks as well: every message that their object is called with
  stays in the queue too, which nobody reads.\<close>

lemma arrivals_pile_up:
  assumes "a_que s = Some q" and "put (Message_event (Some (arrived_message name len c))) q = Some (Inr q')"
  shows "consumer_queue_size (fst (on_message_arrived name len c s)) = consumer_queue_size s + 1"
proof -
  have "length (que q') = length (que q) + 1" using assms(2) by (auto simp: put_def split: if_splits)
  with assms show ?thesis by (simp add: on_message_arrived_def que_put_def consumer_queue_size_def Let_def)
qed

section \<open>Topic objects\<close>

text \<open>The class \<open>topic\<close>: a name with a quality of service and a flag, for a client.\<close>

record topic_object =
  to_name :: string
  to_qos :: int
  to_retained :: bool

definition topic_make :: "string \<Rightarrow> int \<Rightarrow> bool \<Rightarrow> topic_object" where
  "topic_make name q r = \<lparr>to_name = name, to_qos = q, to_retained = r\<rparr>"

definition topic_set_qos :: "c_lib \<Rightarrow> int \<Rightarrow> topic_object \<Rightarrow> mqtt_error + topic_object" where
  "topic_set_qos lib q t = sbind (validate_qos lib q) (\<lambda>_. Inr (t\<lparr>to_qos := q\<rparr>))"

definition topic_set_retained :: "bool \<Rightarrow> topic_object \<Rightarrow> topic_object" where
  "topic_set_retained r t = t\<lparr>to_retained := r\<rparr>"

definition topic_publish_with ::
  "c_lib \<Rightarrow> string \<Rightarrow> int \<Rightarrow> bool \<Rightarrow> topic_object \<Rightarrow> 'p async_client \<Rightarrow> mqtt_error + nat \<times> ('p, 'o) request \<times> 'p async_client" where
  "topic_publish_with lib p q r t s = publish_parts_begin lib (to_name t) p q r [] None s"

definition topic_publish ::
  "c_lib \<Rightarrow> string \<Rightarrow> topic_object \<Rightarrow> 'p async_client \<Rightarrow> mqtt_error + nat \<times> ('p, 'o) request \<times> 'p async_client" where
  "topic_publish lib p t s = topic_publish_with lib p (to_qos t) (to_retained t) t s"

definition topic_subscribe :: "'o \<Rightarrow> topic_object \<Rightarrow> 'p async_client \<Rightarrow> nat \<times> ('p, 'o) request \<times> 'p async_client" where
  "topic_subscribe opts t s = subscribe_begin (to_name t) (to_qos t) opts [] None s"

text \<open>The constructor takes any quality of service; it is \<open>publish\<close> that throws for an illegal one, and
  \<open>subscribe\<close> passes it on to the C library.\<close>

lemma topic_publish_checks:
  "(\<exists>x. topic_publish lib p t s = Inr x) \<longleftrightarrow> to_qos t \<in> {0, 1, 2}"
proof -
  have "(\<exists>m. make_message lib (Some (to_name t)) (Some p) (to_qos t) (to_retained t) [] = Inr m) \<longleftrightarrow> to_qos t \<in> {0, 1, 2}"
    by (simp add: make_message_Inr)
  moreover have "\<exists>a b c. publish_begin m None s = (a, b, c)" for m
    by (metis prod_cases3)
  ultimately show ?thesis by (auto simp: topic_publish_def topic_publish_with_def publish_parts_begin_def)
qed

lemma topic_set_qos_checks: "topic_set_qos lib q t = Inr t' \<longleftrightarrow> q \<in> {0, 1, 2} \<and> t' = t\<lparr>to_qos := q\<rparr>"
  by (auto simp: topic_set_qos_def validate_qos_def)

lemma topic_subscribe_request:
  "fst (snd (topic_subscribe opts (topic_make name q r) s))
    = Req_subscribe (c_str_copy name) q (ro_set_subscribe_options [opts] (ro_set_token (a_next s) (new_response_options (a_version s))))"
  by (simp add: topic_subscribe_def topic_make_def subscribe_begin_def alloc_token_def add_token_def ro_set_properties_def
      ro_set_subscribe_options_def ro_set_token_def new_response_options_def Let_def)

end
