(* ===== verification/Nodes.thy ===== *)
theory Nodes
  imports Mqtt_Sync Mqtt_Options Sensor
begin

text \<open>
  The two programs on the client library: what \<open>main\<close> of the controller and of the sensor
  (\<open>controller/src/main.cpp\<close>, \<open>sensor/src/main.cpp\<close>) do from the construction of the client to the end of the
  process, with the operations of \<open>Mqtt_Options\<close>, \<open>Mqtt_Client\<close> and \<open>Mqtt_Consumer\<close>.
\<close>

section \<open>Operations that are waited for\<close>

text \<open>What the C library returns for a request, and what it later reports, if it does.\<close>

type_synonym 'p lib_reply = "int \<times> 'p completion option"

text \<open>\<open>->wait()\<close> has no time limit: \<^term>\<open>None\<close>, it goes on.\<close>

definition wait_token ::
  "c_lib \<Rightarrow> nat \<Rightarrow> 'p completion option \<Rightarrow> 'p async_client \<Rightarrow> (mqtt_error + unit) option \<times> 'p async_client" where
  "wait_token lib a h s = (case completed_token a h s of (s, calls) \<Rightarrow> (wait lib (a_tokens s a), s))"

definition node_connect ::
  "c_lib \<Rightarrow> connect_options \<Rightarrow> 'p lib_reply \<Rightarrow> 'p async_client \<Rightarrow> (mqtt_error + unit) option \<times> 'p async_client" where
  "node_connect lib opts x s =
     (case connect_begin opts None s :: nat \<times> ('p, unit) request \<times> 'p async_client of
        (a, req, s) \<Rightarrow>
          (case connect_end lib (fst x) s of
             (Inl e, s, _) \<Rightarrow> (Some (Inl e), s)
           | (Inr None, s, _) \<Rightarrow> (Some (Inl Null_deref), s)
           | (Inr (Some a), s, _) \<Rightarrow> wait_token lib a (snd x) s))"

definition node_subscribe ::
  "c_lib \<Rightarrow> string \<Rightarrow> 'p lib_reply \<Rightarrow> 'p async_client \<Rightarrow> (mqtt_error + unit) option \<times> 'p async_client" where
  "node_subscribe lib flt x s =
     (case subscribe_begin flt 1 () [] None s of
        (a, req, s) \<Rightarrow>
          (case op_end lib a (fst x) s of
             (Inl e, s, _) \<Rightarrow> (Some (Inl e), s)
           | (Inr a, s, _) \<Rightarrow> wait_token lib a (snd x) s))"

text \<open>One statement after the other: the next one is reached when this one returns normally.\<close>

definition and_then ::
  "(mqtt_error + unit) option \<times> 's \<Rightarrow> ('s \<Rightarrow> (mqtt_error + unit) option \<times> 's) \<Rightarrow> (mqtt_error + unit) option \<times> 's" where
  "and_then r f = (case r of (Some (Inr _), s) \<Rightarrow> f s | (x, s) \<Rightarrow> (x, s))"

text \<open>\<open>connect_options_builder().clean_session(\<dots>).keep_alive_interval(30s).finalize()\<close>: \<open>b\<close> is the builder's object,
  \<open>a\<close> the copy that \<open>finalize\<close> returns.\<close>

definition node_options :: "initialisers \<Rightarrow> nat \<Rightarrow> nat \<Rightarrow> bool \<Rightarrow> 'p conn_options" where
  "node_options d a b clean = conn_copy d a (conn_set_keep_alive 30 (conn_set_clean_session clean (conn_new d b 0)))"

text \<open>\<open>start_consuming\<close> and \<open>connect\<close>; \<open>connect\<close> takes a copy of the options, at \<open>c\<close>.\<close>

definition node_start ::
  "c_lib \<Rightarrow> initialisers \<Rightarrow> bool \<Rightarrow> int \<times> int \<times> int \<times> int \<Rightarrow> 'p lib_reply \<Rightarrow> 'p async_client
    \<Rightarrow> (mqtt_error + unit) option \<times> 'p async_client" where
  "node_start lib d clean rcs con s =
     (case rcs of (rc1, rc2, rc3, rc4) \<Rightarrow>
        and_then (map_prod Some (\<lambda>s. s) (start_consuming lib rc1 rc2 rc3 rc4 s))
          (node_connect lib (conn_view (conn_copy d 3 (node_options d 2 1 clean :: 'p conn_options))) con))"

text \<open>An exception as the programs' handlers see it.\<close>

fun exn_of :: "mqtt_error \<Rightarrow> exn" where
  "exn_of (Mqtt_error x) = Mqtt_exception (e_what x)"
| "exn_of Bad_cast = Runtime_error ''bad cast''"
| "exn_of (Invalid_argument msg) = Runtime_error msg"
| "exn_of Null_deref = Undefined_behaviour"

section \<open>The controller\<close>

definition controller_mqtt ::
  "c_lib \<Rightarrow> initialisers \<Rightarrow> int \<times> int \<times> int \<times> int \<Rightarrow> 'p lib_reply \<Rightarrow> 'p lib_reply \<Rightarrow> 'p lib_reply \<Rightarrow> 'p async_client
    \<Rightarrow> (mqtt_error + unit) option \<times> 'p async_client" where
  "controller_mqtt lib d rcs con ev tel s =
     and_then (node_start lib d False rcs con s) (\<lambda>s.
     and_then (node_subscribe lib EVENTS_CONFIG_TOPIC ev s) (node_subscribe lib TELEMETRY_TOPIC tel))"

text \<open>The process: \<open>st\<close> is how the library's thread and the loop take turns.\<close>

definition controller_process ::
  "inet_input \<Rightarrow> json_parse \<Rightarrow> c_lib \<Rightarrow> initialisers \<Rightarrow> bool \<times> bool \<Rightarrow> int \<times> int \<times> int \<times> int
    \<Rightarrow> 'p lib_reply \<Rightarrow> 'p lib_reply \<Rightarrow> 'p lib_reply \<Rightarrow> 'h \<Rightarrow> bool \<Rightarrow> 'p consumer_step list \<Rightarrow> 'p async_client
    \<Rightarrow> database \<Rightarrow> controller_result \<times> 'h db_manager \<times> database" where
  "controller_process inet prs lib d oks rcs con ev tel callback listener_ends st s db =
     (case controller_mqtt lib d rcs con ev tel s of
        (r, s) \<Rightarrow> controller_main inet prs (fst oks) (snd oks) (map_option (map_sum exn_of (\<lambda>u. u)) r) callback listener_ends
          (map (map_option as_received) (fst (run_consumer lib st s))) db)"

section \<open>The sensor\<close>

definition TELEMETRY_SECONDS :: nat where
  "TELEMETRY_SECONDS = 100000"

text \<open>
  \<open>run_telemetry_producer\<close> from its round \<open>k\<close> on, which is \<open>k\<close> sleeps after its start; \<open>stop\<close> is when a stop is
  requested. The rounds' temperatures and what \<open>publish\<close> throws are arguments. The result is what was
  published, and when the function returns.
\<close>

function producer ::
  "json_serialize \<Rightarrow> int \<Rightarrow> (nat \<Rightarrow> rat) \<Rightarrow> (nat \<Rightarrow> exn option) \<Rightarrow> nat \<Rightarrow> nat \<Rightarrow> exn + (mqtt_message list \<times> nat)" where
  "producer ser sid temp pub stop k =
     (if stop \<le> k * TELEMETRY_SECONDS then Inr ([], k * TELEMETRY_SECONDS)
      else sbind (telemetry_round ser (pub k) sid (temp k)) (\<lambda>out.
           sbind (producer ser sid temp pub stop (Suc k)) (\<lambda>(outs, t). Inr (out @ outs, t))))"
  by pat_completeness auto

termination
  by (relation "measure (\<lambda>(ser, sid, temp, pub, stop, k). stop - k * TELEMETRY_SECONDS)") (auto simp: TELEMETRY_SECONDS_def)

declare producer.simps [simp del]

text \<open>The messages the loop sees, each with what its \<open>publish\<close> throws.\<close>

definition received :: "(nat \<Rightarrow> exn option) \<Rightarrow> 'p message option list \<Rightarrow> (string option \<times> exn option) list" where
  "received pubs ms = map (\<lambda>i. (map_option get_payload (ms ! i), pubs i)) [0..<length ms]"

text \<open>\<open>Ended\<close>: the exit code, and when, counted in seconds from the start of the telemetry thread.\<close>

datatype sensor_end = Ended nat nat | Terminated | Sensor_connecting | Serving

text \<open>
  \<open>left\<close> is when the \<open>try\<close> block is left, or until when we look while it is not. Leaving it, normally or by an
  exception, destroys the \<open>jthread\<close>, which requests the stop and joins it.
\<close>

definition sensor_process ::
  "json_parse \<Rightarrow> json_serialize \<Rightarrow> c_lib \<Rightarrow> initialisers \<Rightarrow> int \<times> int \<times> int \<times> int \<Rightarrow> 'p lib_reply \<Rightarrow> 'p lib_reply
    \<Rightarrow> (nat \<Rightarrow> rat) \<Rightarrow> (nat \<Rightarrow> exn option) \<Rightarrow> (nat \<Rightarrow> exn option) \<Rightarrow> nat \<Rightarrow> 'p consumer_step list \<Rightarrow> 'p async_client
    \<Rightarrow> sensor_end \<times> mqtt_message list \<times> mqtt_message list" where
  "sensor_process prs ser lib d rcs con sub temp tpubs pubs left st s =
     (case node_start lib d True rcs con s of
        (None, s) \<Rightarrow> (Sensor_connecting, [], [])
      | (Some (Inl e), s) \<Rightarrow> (if is_std_exception (exn_of e) then Ended 1 0 else Terminated, [], [])
      | (Some (Inr _), s) \<Rightarrow>
          (case producer ser 1 temp tpubs left 0 of
             Inl e \<Rightarrow> (Terminated, [], [])
           | Inr (readings, t) \<Rightarrow>
               (case node_subscribe lib REQUEST_CONFIG_TOPIC sub s of
                  (None, s) \<Rightarrow> (Serving, [], readings)
                | (Some (Inl e), s) \<Rightarrow> (if is_std_exception (exn_of e) then Ended 1 t else Terminated, [], readings)
                | (Some (Inr _), s) \<Rightarrow>
                    (case sensor_loop prs ser (received pubs (fst (run_consumer lib st s))) of
                       Inl e \<Rightarrow> (Terminated, [], readings)
                     | Inr (Sensor_exit code, out) \<Rightarrow> (Ended code t, out, readings)
                     | Inr (Sensor_running, out) \<Rightarrow> (Serving, out, readings)))))"

section \<open>Starting up\<close>

text \<open>A request that the library takes and the broker confirms.\<close>

definition accepted :: "c_lib \<Rightarrow> 'p lib_reply \<Rightarrow> bool" where
  "accepted lib x \<longleftrightarrow> fst x = 0 \<and> (case snd x of None \<Rightarrow> False | Some c \<Rightarrow> outcome lib c = Inr ())"

lemma completed_token_que: "completed_token a h s = (s', calls) \<Longrightarrow> a_que s' = a_que s"
  using token_callback_que remove_token_que
  by (fastforce simp: completed_token_def split: option.splits prod.splits)

lemma wait_token_result:
  assumes "fresh_token (a_tokens s a)"
  shows "fst (wait_token lib a h s) = map_option (outcome lib) h" and "a_que (snd (wait_token lib a h s)) = a_que s"
proof -
  obtain s' calls where ct: "completed_token a h s = (s', calls)" by fastforce
  show "a_que (snd (wait_token lib a h s)) = a_que s" using ct completed_token_que [OF ct] by (simp add: wait_token_def)
  show "fst (wait_token lib a h s) = map_option (outcome lib) h"
  proof (cases h)
    case None
    then show ?thesis using ct completed_token_token [OF ct] assms by (simp add: wait_token_def wait_def fresh_token_def)
  next
    case (Some c)
    let ?t = "fst (complete_token c (a_tokens s a))"
    have "t_complete ?t" by (simp add: complete_token_frame)
    moreover have "check_ret lib ?t = outcome lib c" by (rule complete_token_check_ret [OF assms])
    ultimately show ?thesis using Some ct completed_token_token [OF ct] by (simp add: wait_token_def wait_def)
  qed
qed

text \<open>What a reply comes to: the library's refusal, the broker's, or success; \<^term>\<open>None\<close>, the wait goes on.\<close>

definition reply_result :: "c_lib \<Rightarrow> 'p lib_reply \<Rightarrow> (mqtt_error + unit) option" where
  "reply_result lib x =
     (if fst x \<noteq> 0 then Some (Inl (Mqtt_error (mqtt_exception_rc lib (fst x)))) else map_option (outcome lib) (snd x))"

lemma accepted_reply: "accepted lib x \<longleftrightarrow> reply_result lib x = Some (Inr ())"
  by (auto simp: accepted_def reply_result_def split: option.split)

lemma node_connect_result:
  shows "fst (node_connect lib opts x s) = reply_result lib x" and "a_que (snd (node_connect lib opts x s)) = a_que s"
proof -
  obtain a s1 where b: "\<exists>req. connect_begin opts None s = (a, req :: ('a, unit) request, s1)" by (metis prod_cases3)
  have s1: "a_conn_tok s1 = Some a" "fresh_token (a_tokens s1 a)" "a_que s1 = a_que s"
    using b by (auto simp: connect_begin_def Let_def token_defs)
  note w = wait_token_result [OF s1(2), of lib "snd x"]
  obtain s2 calls where rm: "remove_token a s1 = (s2, calls)" by fastforce
  show "fst (node_connect lib opts x s) = reply_result lib x"
    using b s1 w rm by (auto simp: node_connect_def connect_end_def reply_result_def)
  show "a_que (snd (node_connect lib opts x s)) = a_que s"
    using b s1 w rm remove_token_que [OF rm] by (auto simp: node_connect_def connect_end_def)
qed

lemma node_subscribe_result:
  shows "fst (node_subscribe lib flt x s) = reply_result lib x" and "a_que (snd (node_subscribe lib flt x s)) = a_que s"
proof -
  obtain a s1 where b: "\<exists>req. subscribe_begin flt 1 () [] None s = (a, req, s1)" by (metis prod_cases3)
  have s1: "fresh_token (a_tokens s1 a)" "a_que s1 = a_que s"
    using b by (auto simp: subscribe_begin_def Let_def token_defs)
  note w = wait_token_result [OF s1(1), of lib "snd x"]
  obtain s2 calls where rm: "remove_token a s1 = (s2, calls)" by fastforce
  show "fst (node_subscribe lib flt x s) = reply_result lib x"
    using b w rm by (auto simp: node_subscribe_def op_end_def reply_result_def)
  show "a_que (snd (node_subscribe lib flt x s)) = a_que s"
    using b s1 w rm remove_token_que [OF rm] by (auto simp: node_subscribe_def op_end_def)
qed

text \<open>Statement after statement: each is reached when the one before it returns normally.\<close>

lemma and_then_ok [simp]: "fst r = Some (Inr ()) \<Longrightarrow> and_then r f = f (snd r)"
  by (cases r) (simp add: and_then_def)

lemma node_start_ok:
  assumes "consumer_closed s" and "accepted lib con"
  shows "fst (node_start lib d clean (0, 0, 0, 0) con s) = Some (Inr ())
    \<and> a_que (snd (node_start lib d clean (0, 0, 0, 0) con s)) = Some new_queue"
proof -
  have "fst (start_consuming lib 0 0 0 0 s) = Inr () \<and> a_que (snd (start_consuming lib 0 0 0 0 s)) = Some new_queue"
    using assms(1) by (simp add: start_consuming_def disable_callbacks_def client_check_ret_def Let_def)
  then show ?thesis using assms(2) by (simp add: node_start_def node_connect_result accepted_reply)
qed

lemma controller_mqtt_ok:
  assumes "consumer_closed s" and "accepted lib con" and "accepted lib ev" and "accepted lib tel"
  shows "fst (controller_mqtt lib d (0, 0, 0, 0) con ev tel s) = Some (Inr ())
    \<and> a_que (snd (controller_mqtt lib d (0, 0, 0, 0) con ev tel s)) = Some new_queue"
  using node_start_ok [OF assms(1,2)] assms(3,4)
  by (simp add: controller_mqtt_def node_subscribe_result accepted_reply)

section \<open>The telemetry thread\<close>

lemma producer_result:
  assumes "\<forall>i. telemetry_round ser (pub i) sid (temp i) = Inr (out i)"
  shows "\<exists>n. k \<le> n \<and> producer ser sid temp pub stop k = Inr (concat (map out [k..<n]), n * TELEMETRY_SECONDS)
    \<and> stop \<le> n * TELEMETRY_SECONDS \<and> (k < n \<longrightarrow> n * TELEMETRY_SECONDS < stop + TELEMETRY_SECONDS)"
  using assms
proof (induction ser sid temp pub stop k rule: producer.induct)
  case (1 ser sid temp pub stop k)
  show ?case
  proof (cases "stop \<le> k * TELEMETRY_SECONDS")
    case True
    then show ?thesis by (intro exI [of _ k]) (simp add: producer.simps)
  next
    case False
    then obtain n where n: "Suc k \<le> n"
        "producer ser sid temp pub stop (Suc k) = Inr (concat (map out [Suc k..<n]), n * TELEMETRY_SECONDS)"
        "stop \<le> n * TELEMETRY_SECONDS" "Suc k < n \<longrightarrow> n * TELEMETRY_SECONDS < stop + TELEMETRY_SECONDS"
      using 1 by blast
    have "n * TELEMETRY_SECONDS < stop + TELEMETRY_SECONDS"
      using n(1,4) False by (cases "n = Suc k") (auto simp: TELEMETRY_SECONDS_def)
    moreover have "producer ser sid temp pub stop k = Inr (concat (map out [k..<n]), n * TELEMETRY_SECONDS)"
      using False n(1,2) 1 by (subst producer.simps) (simp add: upt_conv_Cons)
    ultimately show ?thesis using n(1,3) by (intro exI [of _ n]) simp
  qed
qed

definition only_mqtt :: "(nat \<Rightarrow> exn option) \<Rightarrow> bool" where
  "only_mqtt pubs \<longleftrightarrow> (\<forall>k. pubs k = None \<or> (\<exists>w. pubs k = Some (Mqtt_exception w)))"

text \<open>What the rounds publish.\<close>

definition readings :: "json_serialize \<Rightarrow> (nat \<Rightarrow> rat) \<Rightarrow> (nat \<Rightarrow> exn option) \<Rightarrow> nat \<Rightarrow> mqtt_message list" where
  "readings ser temp pubs n = concat (map (\<lambda>k. if pubs k = None
     then [\<lparr>topic = TELEMETRY_TOPIC, payload = ser (JObject (telemetry_object 1 (temp k))), qos = 1\<rparr>] else []) [0..<n])"

lemma producer_readings:
  assumes "only_mqtt pubs"
  shows "\<exists>n. producer ser 1 temp pubs stop 0 = Inr (readings ser temp pubs n, n * TELEMETRY_SECONDS)
    \<and> stop \<le> n * TELEMETRY_SECONDS \<and> n * TELEMETRY_SECONDS < stop + TELEMETRY_SECONDS"
proof -
  let ?out = "\<lambda>k. if pubs k = None
     then [\<lparr>topic = TELEMETRY_TOPIC, payload = ser (JObject (telemetry_object 1 (temp k))), qos = 1\<rparr>] else []"
  have "telemetry_round ser (pubs k) 1 (temp k) = Inr (?out k)" for k
    using spec [OF assms [unfolded only_mqtt_def], of k] by (auto simp: telemetry_round_def)
  then obtain n where "producer ser 1 temp pubs stop 0 = Inr (concat (map ?out [0..<n]), n * TELEMETRY_SECONDS)"
      "stop \<le> n * TELEMETRY_SECONDS" "0 < n \<longrightarrow> n * TELEMETRY_SECONDS < stop + TELEMETRY_SECONDS"
    using producer_result [of ser pubs 1 temp ?out 0 stop] by auto
  then show ?thesis
    by (intro exI [of _ n]) (cases "n = 0"; simp add: readings_def TELEMETRY_SECONDS_def)
qed

section \<open>The processes\<close>

text \<open>Once the queue is empty, the loop has seen what the library delivered.\<close>

lemma emptied_queue_seen:
  assumes "a_que s = Some new_queue" and "length st < MAX_CAPACITY"
    and "consumer_queue_size (snd (run_consumer lib st s)) = 0"
  shows "fst (run_consumer lib st s) = seen (map event_of (arrivals st))"
  using run_consumer_seen [OF assms(1) _ _ prod.collapse [symmetric], of st lib] assms(2,3)
  by (auto simp: new_queue_def consumer_queue_size_def)

lemma loop_on_seen:
  "consume_loop inet prs (map (map_option as_received) (seen (map event_of xs))) m db
    = consume_loop inet prs (map Some (messages_of xs)) m db"
  by (metis consume_loop_drops_none seen_messages)

lemma handle_message_listener: "handle_message inet prs msg m db = (r, m', db') \<Longrightarrow> listener_thread m' = listener_thread m"
  by (auto simp: handle_message_def on_telemetry_def on_config_event_def upsert_sensor_state_def upsert_sensor_config_def
      swallow_def run_txn_def split: sum.splits if_splits prod.splits)

lemma consume_loop_listener:
  "consume_loop inet prs msgs m db = (r, m', db') \<Longrightarrow> listener_thread m' = listener_thread m"
proof (induction inet prs msgs m db rule: consume_loop.induct)
  case (3 inet prs msg msgs m db)
  obtain x m1 db1 where one: "handle_message inet prs msg m db = (x, m1, db1)" by (metis prod_cases3)
  with 3 handle_message_listener [OF one] show ?case by (cases x) auto
qed auto

lemma connected_manager_listens: "listener_thread (controller_manager True True callback)"
  by (simp add: controller_manager_def db_connect_def run_listener_loop_def)

text \<open>What the two programs ask the broker for.\<close>

lemma node_options_request:
  assumes "cc_version (init3 d) < 5" and "c_connect_empty (init3 d)"
  shows "k_opts (conn_copy d 3 (node_options d 2 1 clean))
    = (init3 d)\<lparr>cc_cleansession := to_int clean, cc_keep_alive := 30,
        cc_callbacks := version_token None (cc_version (init3 d)) (cc_callbacks (init3 d))\<rparr>"
  using assms by (simp add: node_options_def conn_copy_def conn_adopt_def conn_update_def conn_of_def conn_new_def
      conn_set_keep_alive_def conn_set_clean_session_def c_connect_empty_def ref_ptr_def to_string_or_empty_def c_ptr_def Let_def)

text \<open>C40: one bad message silences the controller. When the database and the broker accept everything at start-up
  and the messages delivered are \<open>good\<close>, which the loop handles, then one that is no JSON object, then others,
  the tables are as \<open>good\<close> left them, nothing after the bad message is looked at, and \<open>main\<close> waits for the
  listener's thread: as long as that lives the process neither works nor ends, and then it ends with 0.\<close>

theorem bad_message_silences_controller:
  assumes "consumer_closed s" and "accepted lib con" and "accepted lib ev" and "accepted lib tel"
    and "length st < MAX_CAPACITY"
    and "consumer_queue_size (snd (run_consumer lib st (snd (controller_mqtt lib d (0, 0, 0, 0) con ev tel s)))) = 0"
    and "messages_of (arrivals st) = good @ bad # later"
    and "consume_loop inet prs (map Some good) (controller_manager True True callback) db = (Inr (), m1, db1)"
    and "sbind (prs (payload bad)) as_object = Inl e" and "is_std_exception e"
  shows "controller_process inet prs lib d (True, True) (0, 0, 0, 0) con ev tel callback listener_ends st s db
    = (if listener_ends then Exited 0 else Joining, m1, db1)"
proof -
  obtain s1 where started: "controller_mqtt lib d (0, 0, 0, 0) con ev tel s = (Some (Inr ()), s1)" "a_que s1 = Some new_queue"
    using controller_mqtt_ok [OF assms(1-4), of d] by (metis prod.collapse)
  have "fst (run_consumer lib st s1) = seen (map event_of (arrivals st))"
    by (rule emptied_queue_seen) (use started assms(5,6) in auto)
  then have "consume_loop inet prs (map (map_option as_received) (fst (run_consumer lib st s1)))
      (controller_manager True True callback) db = (Inl e, m1, db1)"
    using assms(7-9) by (simp add: loop_on_seen bad_message_ends_loop)
  moreover have "listener_thread m1"
    using consume_loop_listener [OF assms(8)] connected_manager_listens by simp
  ultimately show ?thesis
    using started(1) assms(10) by (simp add: controller_process_def controller_main_def join_listener_def)
qed

lemma received_Nil [simp]: "received pubs [] = []"
  by (simp add: received_def)

lemma received_benign:
  assumes "only_mqtt pubs" and "\<forall>text. prs text \<noteq> Inl Undefined_behaviour" and "x \<in> set (received pubs ms)"
  shows "benign prs x"
proof -
  obtain i where "snd x = pubs i" using assms(3) by (auto simp: received_def)
  moreover have "pubs i = None \<or> (\<exists>w. pubs i = Some (Mqtt_exception w))" using assms(1) by (simp add: only_mqtt_def)
  ultimately show ?thesis using assms(2) by (auto simp: benign_def)
qed

lemma received_null: "(\<exists>x \<in> set (received pubs ms). fst x = None) \<longleftrightarrow> None \<in> set ms"
  by (auto simp: received_def in_set_conv_nth)

lemma seen_null: "None \<in> set (seen (map event_of xs)) \<longleftrightarrow> list_ex (\<lambda>x. is_any_disconnect (event_of x)) xs"
proof (induction xs)
  case (Cons x xs)
  then show ?case by (cases x) simp_all
qed simp

text \<open>C35: the sensor's process. When the broker accepts the connection and the subscription, and publishing throws
  nothing but MQTT exceptions, the sensor answers the messages up to the first loss of the connection, in
  order and one by one. At that loss it ends with code 0, but only at the end of the telemetry thread's sleep,
  which is up to 100000 seconds later.\<close>

theorem sensor_process_outcome:
  assumes "consumer_closed s" and "accepted lib con" and "accepted lib sub" and "length st < MAX_CAPACITY"
    and "consumer_queue_size (snd (run_consumer lib st
      (snd (node_subscribe lib REQUEST_CONFIG_TOPIC sub (snd (node_start lib d True (0, 0, 0, 0) con s)))))) = 0"
    and "only_mqtt tpubs" and "only_mqtt pubs" and "\<forall>text. prs text \<noteq> Inl Undefined_behaviour"
  shows "\<exists>n. sensor_process prs ser lib d (0, 0, 0, 0) con sub temp tpubs pubs left st s
      = (if list_ex (\<lambda>x. is_any_disconnect (event_of x)) (arrivals st) then Ended 0 (n * TELEMETRY_SECONDS) else Serving,
         concat (map (answers prs ser) (takeWhile (\<lambda>x. fst x \<noteq> None) (received pubs (seen (map event_of (arrivals st)))))),
         readings ser temp tpubs n)
    \<and> left \<le> n * TELEMETRY_SECONDS \<and> n * TELEMETRY_SECONDS < left + TELEMETRY_SECONDS"
proof -
  let ?ms = "seen (map event_of (arrivals st))"
  obtain s1 where started: "node_start lib d True (0, 0, 0, 0) con s = (Some (Inr ()), s1)" "a_que s1 = Some new_queue"
    using node_start_ok [OF assms(1,2), of d True] by (metis prod.collapse)
  obtain n where n: "producer ser 1 temp tpubs left 0 = Inr (readings ser temp tpubs n, n * TELEMETRY_SECONDS)"
      "left \<le> n * TELEMETRY_SECONDS" "n * TELEMETRY_SECONDS < left + TELEMETRY_SECONDS"
    using producer_readings [OF assms(6)] by blast
  obtain s2 where sub: "node_subscribe lib REQUEST_CONFIG_TOPIC sub s1 = (Some (Inr ()), s2)" "a_que s2 = Some new_queue"
    using assms(3) started(2) node_subscribe_result [of lib REQUEST_CONFIG_TOPIC sub s1]
    by (metis accepted_reply prod.collapse)
  have "fst (run_consumer lib st s2) = ?ms"
    by (rule emptied_queue_seen) (use started sub assms(4,5) in auto)
  moreover have ben: "\<forall>x \<in> set (received pubs ?ms). benign prs x"
    by (intro ballI received_benign [OF assms(7,8)])
  have "sensor_loop prs ser (received pubs ?ms)
      = Inr (if list_ex (\<lambda>x. is_any_disconnect (event_of x)) (arrivals st) then Sensor_exit 0 else Sensor_running,
         concat (map (answers prs ser) (takeWhile (\<lambda>x. fst x \<noteq> None) (received pubs ?ms))))"
    using sensor_answers_in_order [OF ben, of ser] unfolding received_null seen_null .
  ultimately have "sensor_process prs ser lib d (0, 0, 0, 0) con sub temp tpubs pubs left st s
      = (if list_ex (\<lambda>x. is_any_disconnect (event_of x)) (arrivals st) then Ended 0 (n * TELEMETRY_SECONDS) else Serving,
         concat (map (answers prs ser) (takeWhile (\<lambda>x. fst x \<noteq> None) (received pubs ?ms))), readings ser temp tpubs n)"
    using started(1) sub(1) n(1) by (simp add: sensor_process_def)
  with n(2,3) show ?thesis by blast
qed

text \<open>Both on concrete input, each event consumed before the next one arrives.\<close>

fun in_turn :: "'p arrival list \<Rightarrow> 'p consumer_step list" where
  "in_turn [] = []"
| "in_turn (x # xs) = Arrive x # Consume # in_turn xs"

lemma arrivals_in_turn [simp]: "arrivals (in_turn xs) = xs"
  by (induction xs) simp_all

lemma in_turn_empties:
  "a_que s = Some new_queue \<Longrightarrow> a_que (snd (run_consumer lib (in_turn xs) s)) = Some new_queue"
proof (induction xs arbitrary: s)
  case (Cons x xs)
  let ?q = "new_queue\<lparr>que := [event_of x]\<rparr>"
  have q: "a_que (arrive x s) = Some ?q"
    using Cons.prems by (simp add: arrive_que que_put_que put_def put_ready_def new_queue_def MAX_CAPACITY_def)
  have "consume_loop_q ?q = (fst (consume_loop_q ?q), new_queue)"
    using consume_loop_q_seen [of ?q] by (cases "seen [event_of x]") (auto simp: new_queue_def)
  then obtain r where "consume_loop_q ?q = (r, new_queue)" by blast
  then have "consume_message lib (arrive x s) = (map_option Inr r, (arrive x s)\<lparr>a_que := Some new_queue\<rparr>)"
    using q by (simp add: consume_message_def)
  with Cons.IH [of "(arrive x s)\<lparr>a_que := Some new_queue\<rparr>"] show ?case
    by (cases r) (auto split: prod.split)
qed simp

lemma in_turn_size:
  "a_que s = Some new_queue \<Longrightarrow> consumer_queue_size (snd (run_consumer lib (in_turn xs) s)) = 0"
  using in_turn_empties [of s lib xs] by (simp add: consumer_queue_size_def new_queue_def)

definition sample_arrival :: "string \<Rightarrow> string \<Rightarrow> unit arrival" where
  "sample_arrival t p = Message_arrived t 0 \<lparr>cm_payload = p, cm_qos = 1, cm_retained = 0, cm_dup = 0, cm_props = []\<rparr>"

definition sample_reply :: "unit lib_reply" where
  "sample_reply = (0, Some (Success None))"

lemma sample_accepted: "accepted sample_lib sample_reply"
  by (simp add: accepted_def sample_reply_def outcome_def)

lemma sample_closed: "consumer_closed (new_client True :: unit async_client)"
  by (simp add: consumer_closed_def new_client_def)

theorem bad_message_silences_controller_witness:
  "controller_process Some node_parse sample_lib sample_inits (True, True) (0, 0, 0, 0) sample_reply sample_reply sample_reply ()
      False (in_turn [sample_arrival ''x'' ''junk'', sample_arrival TELEMETRY_TOPIC ''t'']) (new_client True) sample_db
    = (Joining, controller_manager True True (), sample_db)"
proof -
  let ?xs = "[sample_arrival ''x'' ''junk'', sample_arrival TELEMETRY_TOPIC ''t'']"
  let ?s = "snd (controller_mqtt sample_lib sample_inits (0, 0, 0, 0) sample_reply sample_reply sample_reply (new_client True))"
  note start = sample_closed sample_accepted sample_accepted sample_accepted
  have len: "length (in_turn ?xs) < MAX_CAPACITY" by (simp add: MAX_CAPACITY_def)
  have "a_que ?s = Some new_queue" using controller_mqtt_ok [OF start] by simp
  note size = in_turn_size [OF this, of sample_lib ?xs]
  have msgs: "messages_of (arrivals (in_turn ?xs)) = [] @ \<lparr>topic = ''x'', payload = ''junk'', qos = 1\<rparr> # [good_telemetry]"
    by (simp add: messages_of_def sample_arrival_def c_str_copy_def good_telemetry_def TELEMETRY_TOPIC_def)
  from bad_message_silences_controller [OF start len size msgs, of Some node_parse "()" sample_db _ _ _ False] show ?thesis
    by (simp add: node_parse_def is_std_exception_def)
qed

theorem sensor_process_outcome_witness:
  "sensor_process echo_parse (\<lambda>_. ''r'') sample_lib sample_inits (0, 0, 0, 0) sample_reply sample_reply (\<lambda>_. 40)
      (\<lambda>_. None) (\<lambda>_. None) 5 (in_turn [sample_arrival ''config/requested'' ''{}'', Connection_lost None]) (new_client True)
    = (Ended 0 TELEMETRY_SECONDS, [\<lparr>topic = EVENTS_CONFIG_TOPIC, payload = ''r'', qos = 1\<rparr>],
       readings (\<lambda>_. ''r'') (\<lambda>_. 40) (\<lambda>_. None) 1)"
proof -
  let ?xs = "[sample_arrival ''config/requested'' ''{}'', Connection_lost None]"
  let ?s1 = "snd (node_start sample_lib sample_inits True (0, 0, 0, 0) sample_reply (new_client True))"
  let ?s2 = "snd (node_subscribe sample_lib REQUEST_CONFIG_TOPIC sample_reply ?s1)"
  note start = sample_closed sample_accepted sample_accepted
  have len: "length (in_turn ?xs) < MAX_CAPACITY" by (simp add: MAX_CAPACITY_def)
  have "a_que ?s2 = Some new_queue"
    using node_start_ok [OF sample_closed sample_accepted] by (simp add: node_subscribe_result)
  note size = in_turn_size [OF this, of sample_lib ?xs]
  have mqtt: "only_mqtt (\<lambda>_. None)" by (simp add: only_mqtt_def)
  have parses: "\<forall>text. echo_parse text \<noteq> Inl Undefined_behaviour" by (simp add: echo_parse_def)
  have answered: "concat (map (answers echo_parse (\<lambda>_. ''r''))
      (takeWhile (\<lambda>x. fst x \<noteq> None) (received (\<lambda>_. None) (seen (map event_of (arrivals (in_turn ?xs)))))))
    = [\<lparr>topic = EVENTS_CONFIG_TOPIC, payload = ''r'', qos = 1\<rparr>]"
    by (simp add: received_def sample_arrival_def answers_def sensor_reply_def echo_parse_def arrived_message_def
        message_from_c_def get_payload_def set_payload_def to_string_or_empty_def upt_rec Let_def)
  have lost: "list_ex (\<lambda>x. is_any_disconnect (event_of x)) (arrivals (in_turn ?xs))" by simp
  obtain n where n: "sensor_process echo_parse (\<lambda>_. ''r'') sample_lib sample_inits (0, 0, 0, 0) sample_reply sample_reply (\<lambda>_. 40)
      (\<lambda>_. None) (\<lambda>_. None) 5 (in_turn ?xs) (new_client True)
    = (Ended 0 (n * TELEMETRY_SECONDS), [\<lparr>topic = EVENTS_CONFIG_TOPIC, payload = ''r'', qos = 1\<rparr>],
       readings (\<lambda>_. ''r'') (\<lambda>_. 40) (\<lambda>_. None) n)"
    "5 \<le> n * TELEMETRY_SECONDS" "n * TELEMETRY_SECONDS < 5 + TELEMETRY_SECONDS"
    using sensor_process_outcome [OF start len size mqtt mqtt parses, of "\<lambda>_. ''r''" "\<lambda>_. 40" 5]
    unfolding answered if_P [OF lost] by blast
  moreover have "n = 1" using n(2,3) by (simp add: TELEMETRY_SECONDS_def)
  ultimately show ?thesis by simp
qed

end
