(* ===== verification/Mqtt_Builders.thy ===== *)
theory Mqtt_Builders
  imports Mqtt_Options Mqtt_Replies
begin

text \<open>
  The builders of the MQTT client's headers (\<open>controller/deps/paho.mqtt.cpp/include/mqtt\<close>): of TLS options, of the
  options a client is created with, of response and disconnect options, and of shared messages. A use of a
  builder is a chain of calls between its constructor and \<open>finalize\<close>: a list here, folded over the object in
  the builder. The locale states what such a chain promises: every option has a slot, calls of different
  slots commute, a later call of the same slot replaces an earlier one, and so a chain is the same as any
  other with the same last calls. The builder of messages is the exception: it hands out a pointer.
\<close>

section \<open>Chains of calls\<close>

locale call_chain =
  fixes step :: "'c \<Rightarrow> 's \<Rightarrow> 's"
    and slot :: "'c \<Rightarrow> nat"
  assumes commute: "slot c \<noteq> slot c' \<Longrightarrow> step c (step c' s) = step c' (step c s)"
    and replace: "slot c = slot c' \<Longrightarrow> step c (step c' s) = step c s"
begin

lemma earlier_calls_do_not_count:
  "step c (foldr step xs s) = step c (foldr step (filter (\<lambda>x. slot x \<noteq> slot c) xs) s)"
proof (induction xs)
  case (Cons x xs)
  show ?case
  proof (cases "slot x = slot c")
    case True
    then show ?thesis using Cons replace [of c x] by simp
  next
    case False
    then show ?thesis using Cons commute [of c x] by simp
  qed
qed simp

lemma last_call_first:
  "find (\<lambda>x. slot x = slot c) ys = Some c
    \<Longrightarrow> foldr step ys s = step c (foldr step (filter (\<lambda>x. slot x \<noteq> slot c) ys) s)"
proof (induction ys)
  case (Cons y ys)
  show ?case
  proof (cases "slot y = slot c")
    case True
    with Cons.prems have "y = c" by simp
    then show ?thesis using earlier_calls_do_not_count [of c ys s] by simp
  next
    case False
    with Cons.prems have "find (\<lambda>x. slot x = slot c) ys = Some c" by simp
    with Cons.IH False show ?thesis using commute [of y c] by simp
  qed
qed simp

end

text \<open>The last call of a slot in a chain.\<close>

definition last_call :: "('c \<Rightarrow> nat) \<Rightarrow> 'c list \<Rightarrow> nat \<Rightarrow> 'c option" where
  "last_call slot cs k = find (\<lambda>c. slot c = k) (rev cs)"

lemma find_filter_other:
  "find (\<lambda>x. f x = k) (filter (\<lambda>x. f x \<noteq> j) xs) = (if k = j then None else find (\<lambda>x. f x = k) xs)"
  by (induction xs) auto

lemma find_own_slot: "find (\<lambda>x. f x = k) xs = Some c \<Longrightarrow> f c = k"
  by (induction xs) (auto split: if_splits)

lemma find_all_None: "(\<And>k. find (\<lambda>x. f x = k) xs = None) \<Longrightarrow> xs = []"
proof (cases xs)
  case (Cons x ys)
  assume "\<And>k. find (\<lambda>x. f x = k) xs = None"
  from this [of "f x"] Cons show ?thesis by simp
qed simp

context call_chain
begin

lemma same_first_calls:
  "(\<And>k. find (\<lambda>x. slot x = k) xs = find (\<lambda>x. slot x = k) ys) \<Longrightarrow> foldr step xs s = foldr step ys s"
proof (induction "length xs" arbitrary: xs ys rule: less_induct)
  case less
  show ?case
  proof (cases xs)
    case Nil
    have "ys = []" using less.prems Nil by (intro find_all_None [of slot]) auto
    with Nil show ?thesis by simp
  next
    case (Cons c xs')
    let ?other = "filter (\<lambda>x. slot x \<noteq> slot c)"
    have c: "find (\<lambda>x. slot x = slot c) xs = Some c" using Cons by simp
    have "length (?other xs) < length xs"
      using Cons le_imp_less_Suc [OF length_filter_le [of "\<lambda>x. slot x \<noteq> slot c" xs']] by simp
    moreover have "find (\<lambda>x. slot x = k) (?other xs) = find (\<lambda>x. slot x = k) (?other ys)" for k
      using less.prems [of k] by (simp only: find_filter_other)
    ultimately have "foldr step (?other xs) s = foldr step (?other ys) s" by (rule less.hyps)
    then show ?thesis using last_call_first [OF c, of s] last_call_first [of c ys s] less.prems [of "slot c"] c by simp
  qed
qed

lemma same_last_calls: "last_call slot cs = last_call slot ds \<Longrightarrow> fold step cs s = fold step ds s"
  using same_first_calls [of "rev cs" "rev ds" s] by (simp add: last_call_def foldr_conv_fold fun_eq_iff)

lemma last_call_decides:
  "last_call slot cs (slot c) = Some c \<Longrightarrow> fold step cs s = step c (fold step cs s)"
  using last_call_first [of c "rev cs" s]  earlier_calls_do_not_count [of c "rev cs" s]
  by (simp add: last_call_def foldr_conv_fold)

end

section \<open>TLS options\<close>

datatype ssl_call = Trust_store string | Key_store string | Private_key string | Private_key_password string
  | Enabled_cipher_suites string | Enable_server_cert_auth bool | Ssl_version int | Verify bool | Ca_path string
  | Error_handler "error_handler option" | Psk_handler "psk_handler option" | Alpn_protos "string list"

fun ssl_call_step :: "ssl_call \<Rightarrow> ssl_options \<Rightarrow> ssl_options" where
  "ssl_call_step (Trust_store v) s = set_trust_store v s"
| "ssl_call_step (Key_store v) s = set_key_store v s"
| "ssl_call_step (Private_key v) s = set_private_key v s"
| "ssl_call_step (Private_key_password v) s = set_private_key_password v s"
| "ssl_call_step (Enabled_cipher_suites v) s = set_enabled_cipher_suites v s"
| "ssl_call_step (Enable_server_cert_auth b) s = set_enable_server_cert_auth b s"
| "ssl_call_step (Ssl_version n) s = set_ssl_version n s"
| "ssl_call_step (Verify b) s = set_verify b s"
| "ssl_call_step (Ca_path v) s = set_ca_path v s"
| "ssl_call_step (Error_handler h) s = set_error_handler h s"
| "ssl_call_step (Psk_handler h) s = set_psk_handler h s"
| "ssl_call_step (Alpn_protos ps) s = set_alpn_protos ps s"

text \<open>\<open>b\<close> is the builder's member and \<open>a\<close> the object that \<open>finalize\<close> copies it into.\<close>

definition ssl_build :: "c_ssl \<Rightarrow> nat \<Rightarrow> nat \<Rightarrow> ssl_call list \<Rightarrow> ssl_options" where
  "ssl_build d b a cs = ssl_copy a (fold ssl_call_step cs (ssl_new d b))"

fun ssl_slot :: "ssl_call \<Rightarrow> nat" where
  "ssl_slot (Trust_store _) = 0"
| "ssl_slot (Key_store _) = 1"
| "ssl_slot (Private_key _) = 2"
| "ssl_slot (Private_key_password _) = 3"
| "ssl_slot (Enabled_cipher_suites _) = 4"
| "ssl_slot (Enable_server_cert_auth _) = 5"
| "ssl_slot (Ssl_version _) = 6"
| "ssl_slot (Verify _) = 7"
| "ssl_slot (Ca_path _) = 8"
| "ssl_slot (Error_handler _) = 9"
| "ssl_slot (Psk_handler _) = 10"
| "ssl_slot (Alpn_protos _) = 11"

lemma ssl_calls_commute: "ssl_slot c \<noteq> ssl_slot c' \<Longrightarrow> ssl_call_step c (ssl_call_step c' s) = ssl_call_step c' (ssl_call_step c s)"
  by (cases c; cases c'; simp add: ssl_setter_defs set_alpn_protos_def Let_def)

lemma ssl_calls_replace: "ssl_slot c = ssl_slot c' \<Longrightarrow> ssl_call_step c (ssl_call_step c' s) = ssl_call_step c s"
  by (cases c; cases c'; simp add: ssl_setter_defs set_alpn_protos_def Let_def)

interpretation ssl_chain: call_chain ssl_call_step ssl_slot
  by unfold_locales (fact ssl_calls_commute ssl_calls_replace)+

section \<open>The options a client is created with\<close>

datatype create_call = Server_uri string | Client_id string | Persistence persistence_type
  | Send_while_disconnected bool bool | Max_buffered_messages int | Create_version int
  | Delete_oldest_messages bool | Restore_messages bool | Persist_qos0 bool

text \<open>The builder is a friend of the class and sets the structure's fields itself, as the setters do.\<close>

fun create_call_step :: "create_call \<Rightarrow> create_options \<Rightarrow> create_options" where
  "create_call_step (Server_uri uri) x = create_set_server_uri uri x"
| "create_call_step (Client_id cid) x = create_set_client_id cid x"
| "create_call_step (Persistence p) x = create_set_persistence p x"
| "create_call_step (Send_while_disconnected on any) x =
     x\<lparr>co_opts := (co_opts x)\<lparr>cr_send_disconnected := to_int on, cr_any_time := to_int any\<rparr>\<rparr>"
| "create_call_step (Max_buffered_messages n) x = x\<lparr>co_opts := (co_opts x)\<lparr>cr_max_buffered := n\<rparr>\<rparr>"
| "create_call_step (Create_version v) x = x\<lparr>co_opts := (co_opts x)\<lparr>cr_version := v\<rparr>\<rparr>"
| "create_call_step (Delete_oldest_messages b) x = x\<lparr>co_opts := (co_opts x)\<lparr>cr_delete_oldest := to_int b\<rparr>\<rparr>"
| "create_call_step (Restore_messages b) x = x\<lparr>co_opts := (co_opts x)\<lparr>cr_restore := to_int b\<rparr>\<rparr>"
| "create_call_step (Persist_qos0 b) x = x\<lparr>co_opts := (co_opts x)\<lparr>cr_persist_qos0 := to_int b\<rparr>\<rparr>"

definition create_build :: "c_create \<Rightarrow> create_call list \<Rightarrow> create_options" where
  "create_build d cs = fold create_call_step cs (create_new d)"

fun create_slot :: "create_call \<Rightarrow> nat" where
  "create_slot (Server_uri _) = 0"
| "create_slot (Client_id _) = 1"
| "create_slot (Persistence _) = 2"
| "create_slot (Send_while_disconnected _ _) = 3"
| "create_slot (Max_buffered_messages _) = 4"
| "create_slot (Create_version _) = 5"
| "create_slot (Delete_oldest_messages _) = 6"
| "create_slot (Restore_messages _) = 7"
| "create_slot (Persist_qos0 _) = 8"

lemmas create_setter_defs = create_set_server_uri_def create_set_client_id_def create_set_persistence_def

lemma create_calls_commute:
  "create_slot c \<noteq> create_slot c' \<Longrightarrow> create_call_step c (create_call_step c' x) = create_call_step c' (create_call_step c x)"
  by (cases c; cases c'; simp add: create_setter_defs)

lemma create_calls_replace: "create_slot c = create_slot c' \<Longrightarrow> create_call_step c (create_call_step c' x) = create_call_step c x"
  by (cases c; cases c'; simp add: create_setter_defs)

interpretation create_chain: call_chain create_call_step create_slot
  by unfold_locales (fact create_calls_commute create_calls_replace)+

text \<open>The last server, client and buffer named are in the request for a client, whatever else was called; the
  version never is.\<close>

lemma create_request_says_last:
  assumes "last_call create_slot cs 0 = Some (Server_uri uri)" "last_call create_slot cs 1 = Some (Client_id cid)"
    "last_call create_slot cs 2 = Some (Persistence p)"
  shows "fst (create_request (create_build d cs)) = c_str_copy uri
    \<and> fst (snd (create_request (create_build d cs))) = c_str_copy cid
    \<and> fst (snd (snd (create_request (create_build d cs)))) = persistence_argument p
    \<and> cr_version (snd (snd (snd (create_request (create_build d cs))))) = 5"
proof -
  let ?x = "fold create_call_step cs (create_new d)"
  note decides = create_chain.last_call_decides [of cs _ "create_new d"]
  have "co_server_uri ?x = uri" "co_client_id ?x = cid" "co_persistence ?x = p"
    using arg_cong [OF decides [of "Server_uri uri"], of co_server_uri] arg_cong [OF decides [of "Client_id cid"], of co_client_id]
      arg_cong [OF decides [of "Persistence p"], of co_persistence] assms
    by (simp_all add: create_setter_defs)
  then show ?thesis by (simp add: create_request_def create_build_def)
qed

section \<open>Response options\<close>

datatype 'p reply_call = Reply_version int | Reply_token "nat option" | Reply_properties "'p list"
  | Subscribe_opts subscribe_options | Subscribe_many_opts "subscribe_options list"

fun reply_call_step :: "'p reply_call \<Rightarrow> 'p reply_options \<Rightarrow> 'p reply_options" where
  "reply_call_step (Reply_version v) r = reply_set_mqtt_version v r"
| "reply_call_step (Reply_token t) r = reply_set_token t r"
| "reply_call_step (Reply_properties ps) r = reply_set_properties ps r"
| "reply_call_step (Subscribe_opts s) r = reply_set_subscribe s r"
| "reply_call_step (Subscribe_many_opts ss) r = reply_set_subscribe_many ss r"

text \<open>\<open>d\<close> is the C library's initialiser of subscribe options, \<open>v\<close> the version given to the builder.\<close>

definition reply_build :: "subscribe_options \<Rightarrow> nat \<Rightarrow> nat \<Rightarrow> int \<Rightarrow> 'p reply_call list \<Rightarrow> 'p reply_options" where
  "reply_build d b a v cs = reply_copy a (fold reply_call_step cs (reply_new d b v))"

fun reply_slot :: "'p reply_call \<Rightarrow> nat" where
  "reply_slot (Reply_version _) = 0"
| "reply_slot (Reply_token _) = 1"
| "reply_slot (Reply_properties _) = 2"
| "reply_slot (Subscribe_opts _) = 3"
| "reply_slot (Subscribe_many_opts _) = 4"

interpretation reply_chain: call_chain reply_call_step reply_slot
proof unfold_locales
  fix c c' :: "'p reply_call" and s
  show "reply_slot c \<noteq> reply_slot c' \<Longrightarrow> reply_call_step c (reply_call_step c' s) = reply_call_step c' (reply_call_step c s)"
    by (cases c; cases c'; simp add: reply_defs set_mqtt_version_def)
  show "reply_slot c = reply_slot c' \<Longrightarrow> reply_call_step c (reply_call_step c' s) = reply_call_step c s"
    by (cases c; cases c'; simp add: reply_defs set_mqtt_version_def)
qed

lemma reply_chain_built: "reply_built d r \<Longrightarrow> reply_built d (fold reply_call_step cs r)"
proof (induction cs arbitrary: r)
  case (Cons c cs)
  have "reply_built d (reply_call_step c r)" using Cons.prems by (cases c) (auto intro: reply_built.intros)
  then show ?case using Cons.IH by simp
qed simp

lemma reply_build_agrees: "reply_agrees (reply_build d b a v cs)"
  using reply_struct_agrees [OF reply_built.copied [OF reply_chain_built [OF reply_built.fresh]]]
  by (simp add: reply_build_def)

text \<open>
  What the C library reads of the structure: \<open>MQTTAsync_subscribe\<close> the options of one subscription,
  \<open>MQTTAsync_subscribeMany\<close> the list. The chains that \<open>async_client.cpp\<close> writes say what \<open>Mqtt_Client\<close> passes
  to the library in its requests.
\<close>

definition read_single :: "'p reply_options \<Rightarrow> ('p, subscribe_options) response_options" where
  "read_single r = \<lparr>ro_callbacks = rp_callbacks r, ro_props = ps_held (rp_c_props r), ro_sub_opts = [rp_c_sub r]\<rparr>"

definition read_many :: "'p reply_options \<Rightarrow> ('p, subscribe_options) response_options" where
  "read_many r = \<lparr>ro_callbacks = rp_callbacks r, ro_props = ps_held (rp_c_props r), ro_sub_opts = rp_subs r\<rparr>"

lemmas client_reply_defs = new_response_options_def ro_set_token_def ro_set_properties_def ro_set_subscribe_options_def

lemma client_subscribes_with_chain:
  "read_single (reply_build d b a v [Reply_token (Some t), Subscribe_opts s, Reply_properties ps])
    = ro_set_properties ps (ro_set_subscribe_options [s] (ro_set_token t (new_response_options v)))"
  "read_many (reply_build d b a v [Reply_token (Some t), Subscribe_many_opts ss, Reply_properties ps])
    = ro_set_properties ps (ro_set_subscribe_options ss (ro_set_token t (new_response_options v)))"
  by (simp_all add: read_single_def read_many_def reply_build_def reply_defs client_reply_defs props_struct_of_def
      set_mqtt_version_def Let_def)

lemma client_unsubscribes_with_chain:
  "(read_many (reply_build d b a v [Reply_token (Some t), Reply_properties ps]))
    = ro_set_properties ps (ro_set_token t (new_response_options v))"
  by (simp add: read_many_def reply_build_def reply_defs client_reply_defs props_struct_of_def set_mqtt_version_def Let_def)

section \<open>Disconnect options\<close>

datatype 'p disc_call = Disc_properties "'p list" | Disc_timeout int | Disc_reason_code int

fun disc_call_step :: "'p disc_call \<Rightarrow> 'p disc_options \<Rightarrow> 'p disc_options" where
  "disc_call_step (Disc_properties ps) x = disc_set_properties ps x"
| "disc_call_step (Disc_timeout t) x = disc_set_timeout t x"
| "disc_call_step (Disc_reason_code rc) x = disc_set_reason_code rc x"

text \<open>\<open>dflt\<close> is the timeout of the initialiser: the default one, or that of \<open>v3\<close> or \<open>v5\<close>.\<close>

definition disc_build :: "nat \<Rightarrow> nat \<Rightarrow> int \<Rightarrow> 'p disc_call list \<Rightarrow> 'p disc_options" where
  "disc_build b a dflt cs = disc_copy a (fold disc_call_step cs (disc_new b dflt))"

fun disc_slot :: "'p disc_call \<Rightarrow> nat" where
  "disc_slot (Disc_properties _) = 0"
| "disc_slot (Disc_timeout _) = 1"
| "disc_slot (Disc_reason_code _) = 2"

lemmas disc_setter_defs = disc_set_properties_def disc_set_timeout_def disc_set_reason_code_def

interpretation disc_chain: call_chain disc_call_step disc_slot
proof unfold_locales
  fix c c' :: "'p disc_call" and s
  show "disc_slot c \<noteq> disc_slot c' \<Longrightarrow> disc_call_step c (disc_call_step c' s) = disc_call_step c' (disc_call_step c s)"
    by (cases c; cases c'; simp add: disc_setter_defs)
  show "disc_slot c = disc_slot c' \<Longrightarrow> disc_call_step c (disc_call_step c' s) = disc_call_step c s"
    by (cases c; cases c'; simp add: disc_setter_defs)
qed

text \<open>No chain sets a token: what is built has no context and no callbacks, which \<open>disconnect\<close> adds.\<close>

lemma disc_build_fields:
  "disc_agrees (disc_build b a dflt cs) \<and> d_tok (disc_build b a dflt cs) = None
    \<and> d_callbacks (disc_build b a dflt cs) = no_callbacks"
proof -
  have "d_tok (fold disc_call_step cs x) = d_tok x \<and> d_callbacks (fold disc_call_step cs x) = d_callbacks x" for x :: "'a disc_options"
  proof (induction cs arbitrary: x)
    case (Cons c cs)
    then show ?case by (cases c) (simp_all add: disc_setter_defs)
  qed simp
  then have "d_tok (disc_build b a dflt cs) = None \<and> d_callbacks (disc_build b a dflt cs) = no_callbacks"
    by (simp add: disc_build_def disc_copy_def disc_update_def disc_new_def)
  then show ?thesis by (simp add: disc_build_def disc_steps_agree(2))
qed

section \<open>Messages\<close>

text \<open>
  The builder of messages holds a \<open>shared_ptr\<close>, and \<open>finalize\<close> returns that pointer: messages lie in a store,
  by address. A call that throws (a quality of service out of range) leaves the message as it was and ends
  the chain. A payload of bytes with its length is a buffer that copies them; the array that a list of
  properties is copied to is part of the call.
\<close>

datatype 'p message_call = Msg_topic "string option" | Msg_payload "string option" | Msg_bytes string
  | Msg_qos int | Msg_retained bool | Msg_properties nat "'p list"

fun message_call_step :: "c_lib \<Rightarrow> 'p message_call \<Rightarrow> 'p message_object \<Rightarrow> mqtt_error + 'p message_object" where
  "message_call_step lib (Msg_topic t) m = Inr (set_topic t m)"
| "message_call_step lib (Msg_payload p) m = Inr (set_payload p m)"
| "message_call_step lib (Msg_bytes bs) m = Inr (set_payload (Some bs) m)"
| "message_call_step lib (Msg_qos q) m = set_qos lib q m"
| "message_call_step lib (Msg_retained b) m = Inr (set_retained b m)"
| "message_call_step lib (Msg_properties n ps) m = Inr (object_set_properties n ps m)"

type_synonym 'p message_store = "nat \<Rightarrow> 'p message_object"

definition message_builder :: "nat \<Rightarrow> 'p message_store \<Rightarrow> 'p message_store" where
  "message_builder a h = h(a := new_object)"

fun message_chain :: "c_lib \<Rightarrow> nat \<Rightarrow> 'p message_call list \<Rightarrow> 'p message_store \<Rightarrow> mqtt_error option \<times> 'p message_store" where
  "message_chain lib a [] h = (None, h)"
| "message_chain lib a (c # cs) h =
     (case message_call_step lib c (h a) of
        Inl e \<Rightarrow> (Some e, h)
      | Inr m \<Rightarrow> message_chain lib a cs (h(a := m)))"

text \<open>\<open>finalize\<close>: the pointer, not a message.\<close>

definition message_finalize :: "nat \<Rightarrow> nat" where
  "message_finalize a = a"

lemma message_chain_append:
  "message_chain lib a (cs @ ds) h =
    (case message_chain lib a cs h of (None, h') \<Rightarrow> message_chain lib a ds h' | (Some e, h') \<Rightarrow> (Some e, h'))"
  by (induction cs arbitrary: h) (auto split: sum.split)

lemma message_chain_elsewhere: "x \<noteq> a \<Longrightarrow> snd (message_chain lib a cs h) x = h x"
  by (induction cs arbitrary: h) (auto split: sum.split)

lemma message_chain_built: "built lib False False (h a) \<Longrightarrow> built lib False False (snd (message_chain lib a cs h) a)"
proof (induction cs arbitrary: h)
  case (Cons c cs)
  have "built lib False False m" if "message_call_step lib c (h a) = Inr m" for m
    using that Cons.prems by (cases c) (auto intro: built.intros)
  then show ?case using Cons.IH Cons.prems by (auto split: sum.split)
qed simp

lemma legal_calls_succeed:
  "(\<forall>q. Msg_qos q \<in> set cs \<longrightarrow> q \<in> {0, 1, 2}) \<Longrightarrow> fst (message_chain lib a cs h) = None"
proof (induction cs arbitrary: h)
  case (Cons c cs)
  have "\<exists>m. message_call_step lib c (h a) = Inr m"
    using Cons.prems by (cases c) (simp_all add: set_qos_Inr)
  moreover have "\<forall>q. Msg_qos q \<in> set cs \<longrightarrow> q \<in> {0, 1, 2}" using Cons.prems by simp
  ultimately show ?case using Cons.IH by (elim exE) simp
qed simp

text \<open>The message that was handed out changes with the builder.\<close>

lemma built_message_is_shared:
  "snd (message_chain lib a [Msg_payload (Some p)] h) (message_finalize a) = set_payload (Some p) (h (message_finalize a))"
  by (simp add: message_finalize_def)

section \<open>Only last calls count\<close>

lemma same_calls_same_options:
  "last_call ssl_slot cs = last_call ssl_slot ds \<Longrightarrow> ssl_build e b a cs = ssl_build e b a ds"
  "last_call create_slot cs' = last_call create_slot ds' \<Longrightarrow> create_build e' cs' = create_build e' ds'"
  "last_call reply_slot rs = last_call reply_slot qs \<Longrightarrow> reply_build f b a v rs = reply_build f b a v qs"
  "last_call disc_slot xs = last_call disc_slot ys \<Longrightarrow> disc_build b a n xs = disc_build b a n ys"
  using ssl_chain.same_last_calls [of cs ds] create_chain.same_last_calls [of cs' ds']
    reply_chain.same_last_calls [of rs qs] disc_chain.same_last_calls [of xs ys]
  by (simp_all add: ssl_build_def create_build_def reply_build_def disc_build_def)

section \<open>Constructing a client\<close>

text \<open>The constructors of \<open>async_client\<close>: each fills the options and creates the C client, with the result \<open>rc\<close>; \<open>d\<close> is the
  C library's initialiser. The blocking client's pass their arguments on.\<close>

datatype client_args = With_uri string string persistence_type | With_buffer string string int persistence_type
  | With_defaults string string create_options persistence_type | With_options create_options

fun client_options :: "c_create \<Rightarrow> client_args \<Rightarrow> create_options" where
  "client_options d (With_uri uri cid p) = create_for_uri d uri cid p"
| "client_options d (With_buffer uri cid n p) = create_for_uri_buffering d uri cid n p"
| "client_options d (With_defaults uri cid opts p) = create_with uri cid opts p"
| "client_options d (With_options opts) = opts"

definition async_client_new ::
  "c_lib \<Rightarrow> c_create \<Rightarrow> client_args \<Rightarrow> int \<Rightarrow> 'p async_client \<Rightarrow> (mqtt_error + unit) \<times> 'p async_client" where
  "async_client_new lib d args rc s = create_client lib (client_options d args) rc s"

text \<open>The constructor with a buffer size asks for a buffer and not to send while disconnected, so the buffer stays
  empty, unlike options built for it.\<close>

lemma buffer_needs_sending:
  "cr_send_disconnected (snd (snd (snd (create_request (client_options d (With_buffer uri cid n p)))))) = cr_send_disconnected d"
  "cr_send_disconnected (snd (snd (snd (create_request (client_options d
     (With_options (create_build d [Send_while_disconnected True any, Max_buffered_messages n])))))) ) = 1"
  by (simp_all add: create_request_def create_for_uri_buffering_def create_build_def to_int_def)

text \<open>A client that the C library refuses has its version already set when the exception leaves the constructor;
  otherwise the version is the one of the options, whatever the request says.\<close>

lemma async_client_new_version:
  "a_version (snd (async_client_new lib d args rc s)) = cr_version (co_opts (client_options d args))
    \<and> (fst (async_client_new lib d args rc s) = Inr () \<longleftrightarrow> rc = MQTTASYNC_SUCCESS)"
  by (simp add: async_client_new_def create_client_def Let_def)

end
