(* ===== verification/Mqtt_Connect_Builder.thy ===== *)
theory Mqtt_Connect_Builder
  imports Mqtt_Builders Nodes
begin

text \<open>
  The class \<open>connect_options_builder\<close> of \<open>connect_options.h\<close> (\<open>controller/deps/paho.mqtt.cpp\<close>), as chains of calls.
  Its calls do not all commute (the version decides what some of them do), and \<open>finalize\<close> makes a copy, which
  may point into the builder: the property says exactly when it does. The chains that the sensor and the
  controller write are safe.
\<close>

section \<open>Calls\<close>

datatype 'p conn_call = Clean_session bool | Keep_alive_interval int | Connect_timeout int
  | User_name "string option" | Password "string option" | Max_inflight int
  | Will "'p will_options" | Will_message "'p message" | Ssl ssl_options | Conn_token "nat option"
  | Servers "string_collection option" | Conn_version int | Automatic_reconnect bool | Retry_intervals int int
  | Clean_start bool | Conn_properties "'p list" | Http_headers name_value_collection
  | Http_proxy string | Https_proxy string

fun conn_call_step :: "initialisers \<Rightarrow> 'p conn_call \<Rightarrow> 'p conn_options \<Rightarrow> 'p conn_options" where
  "conn_call_step d (Clean_session on) k = conn_set_clean_session on k"
| "conn_call_step d (Keep_alive_interval n) k = conn_set_keep_alive n k"
| "conn_call_step d (Connect_timeout n) k = conn_set_timeout n k"
| "conn_call_step d (User_name u) k = conn_set_user_name u k"
| "conn_call_step d (Password p) k = conn_set_password p k"
| "conn_call_step d (Max_inflight n) k = conn_set_max_inflight n k"
| "conn_call_step d (Will w) k = conn_set_will w k"
| "conn_call_step d (Will_message m) k = conn_set_will_message d (Some m) k"
| "conn_call_step d (Ssl s) k = conn_set_ssl s k"
| "conn_call_step d (Conn_token t) k = conn_set_token t k"
| "conn_call_step d (Servers ss) k = conn_set_servers ss k"
| "conn_call_step d (Conn_version v) k = conn_set_mqtt_version v k"
| "conn_call_step d (Automatic_reconnect on) k = conn_set_automatic_reconnect on k"
| "conn_call_step d (Retry_intervals lo hi) k = conn_set_retry_intervals lo hi k"
| "conn_call_step d (Clean_start on) k = conn_set_clean_start on k"
| "conn_call_step d (Conn_properties ps) k = conn_set_properties ps k"
| "conn_call_step d (Http_headers h) k = conn_set_http_headers h k"
| "conn_call_step d (Http_proxy p) k = conn_set_http_proxy p k"
| "conn_call_step d (Https_proxy p) k = conn_set_https_proxy p k"

text \<open>
  How a builder starts: from a version, from existing options by copy or move, or from one of the defaults,
  which are made in a temporary, at \<open>t\<close>, and moved. \<open>b\<close> is the builder's member, \<open>a\<close> the object that \<open>finalize\<close>
  copies it into.
\<close>

datatype 'p conn_start = From_version int | From_copy "'p conn_options" | From_move "'p conn_options"
  | From_v3 | From_v5 | From_ws | From_v5_ws

fun conn_start_options :: "initialisers \<Rightarrow> nat \<Rightarrow> nat \<Rightarrow> 'p conn_start \<Rightarrow> 'p conn_options" where
  "conn_start_options d t b (From_version v) = conn_new d b v"
| "conn_start_options d t b (From_copy k) = conn_copy d b k"
| "conn_start_options d t b (From_move k) = conn_move b k"
| "conn_start_options d t b From_v3 = conn_move b (conn_of d t (init3 d))"
| "conn_start_options d t b From_v5 = conn_move b (conn_of d t (init5 d))"
| "conn_start_options d t b From_ws = conn_move b (conn_of d t (init_ws d))"
| "conn_start_options d t b From_v5_ws = conn_move b (conn_of d t (init5_ws d))"

definition conn_finalize :: "initialisers \<Rightarrow> nat \<Rightarrow> 'p conn_options \<Rightarrow> 'p conn_options" where
  "conn_finalize d a k = conn_copy d a k"

definition conn_build ::
  "initialisers \<Rightarrow> nat \<Rightarrow> nat \<Rightarrow> nat \<Rightarrow> 'p conn_start \<Rightarrow> 'p conn_call list \<Rightarrow> 'p conn_options" where
  "conn_build d t b a st cs = conn_finalize d a (fold (conn_call_step d) cs (conn_start_options d t b st))"

section \<open>What a chain leaves in the builder\<close>

definition servers_built :: "'p conn_call list \<Rightarrow> bool" where
  "servers_built cs \<longleftrightarrow> (\<forall>s. Servers (Some s) \<in> set cs \<longrightarrow> collection_built s)"

text \<open>The headers that a chain leaves, and whether it leaves properties below version 5 (\<open>p\<close>: there are properties,
  \<open>v\<close>: the version, both so far).\<close>

fun chain_headers :: "(string \<times> string) list \<Rightarrow> 'p conn_call list \<Rightarrow> (string \<times> string) list" where
  "chain_headers h [] = h"
| "chain_headers h (Http_headers nv # cs) = chain_headers (nv_map nv) cs"
| "chain_headers h (c # cs) = chain_headers h cs"

fun chain_downgrades :: "bool \<Rightarrow> int \<Rightarrow> 'p conn_call list \<Rightarrow> bool" where
  "chain_downgrades p v [] \<longleftrightarrow> p \<and> v < 5"
| "chain_downgrades p v (Conn_version w # cs) = chain_downgrades p w cs"
| "chain_downgrades p v (Conn_properties ps # cs) = chain_downgrades True 5 cs"
| "chain_downgrades p v (c # cs) = chain_downgrades p v cs"

text \<open>One call: it keeps the structure in step with the object, and the three things that a copy depends on change
  only where the chain's summary says so.\<close>

lemma call_agrees:
  assumes "conn_agrees k" "\<And>s. c = Servers (Some s) \<Longrightarrow> collection_built s"
  shows "conn_agrees (conn_call_step d c k)"
  using assms by (cases c)
    (simp_all add: plain_setters_agree set_will_agrees set_ssl_agrees set_servers_agrees conn_set_will_message_def)

lemma call_self: "k_self (conn_call_step d c k) = k_self k"
  by (cases c) (simp_all add: conn_setter_defs conn_set_will_message_def Let_def)

lemma call_headers:
  "nv_map (k_headers (conn_call_step d c k)) = (case c of Http_headers nv \<Rightarrow> nv_map nv | _ \<Rightarrow> nv_map (k_headers k))"
  by (cases c) (simp_all add: conn_setter_defs conn_set_will_message_def conn_set_will_def conn_set_ssl_def
      nv_update_c_arr_def Let_def)

lemma call_version:
  "cc_version (k_opts (conn_call_step d c k))
    = (case c of Conn_version v \<Rightarrow> v | Conn_properties _ \<Rightarrow> 5 | _ \<Rightarrow> cc_version (k_opts k))"
  by (cases c) (simp_all add: conn_setter_defs conn_set_will_message_def Let_def)

lemma call_props:
  "cc_connect_props (k_opts (conn_call_step d c k))
    = (case c of Conn_properties _ \<Rightarrow> Some (k_self k) | _ \<Rightarrow> cc_connect_props (k_opts k))"
  by (cases c) (simp_all add: conn_setter_defs conn_set_will_message_def Let_def)

lemma chain_agrees:
  "conn_agrees k \<Longrightarrow> servers_built cs \<Longrightarrow>
    conn_agrees (fold (conn_call_step d) cs k) \<and> k_self (fold (conn_call_step d) cs k) = k_self k"
proof (induction cs arbitrary: k)
  case (Cons c cs)
  have "conn_agrees (conn_call_step d c k)"
    using Cons.prems by (intro call_agrees) (auto simp: servers_built_def)
  moreover have "servers_built cs" using Cons.prems by (simp add: servers_built_def)
  ultimately show ?case using Cons.IH by (simp add: call_self)
qed simp

lemma chain_headers_fold:
  "nv_map (k_headers (fold (conn_call_step d) cs k)) = chain_headers (nv_map (k_headers k)) cs"
proof (induction cs arbitrary: k)
  case (Cons c cs)
  show ?case by (simp add: Cons.IH call_headers) (cases c; simp)
qed simp

lemma chain_move_safe:
  "\<not> move_safe (fold (conn_call_step d) cs k)
    \<longleftrightarrow> chain_downgrades (cc_connect_props (k_opts k) \<noteq> None) (cc_version (k_opts k)) cs"
proof (induction cs arbitrary: k)
  case Nil
  show ?case by (auto simp: move_safe_def)
next
  case (Cons c cs)
  show ?case by (simp add: Cons.IH call_props call_version) (cases c; simp)
qed

text \<open>A copy of an object whose structure describes it describes itself exactly when there are no headers and no
  properties below version 5.\<close>

lemma copy_agrees_iff:
  assumes "inits_empty d" "conn_agrees k" "a \<noteq> k_self k"
  shows "conn_agrees (conn_copy d a k) \<longleftrightarrow> nv_map (k_headers k) = [] \<and> move_safe k"
proof
  assume copy: "conn_agrees (conn_copy d a k)"
  have "nv_map (k_headers k) = []"
    using copied_headers_disagree [OF assms(2) _ assms(3)] copy by (auto simp: conn_agrees_def)
  moreover have "move_safe k"
  proof (rule ccontr)
    assume "\<not> move_safe k"
    then have "cc_version (k_opts k) < 5" "cc_connect_props (k_opts k) = Some (k_self k)"
      using assms(2) by (auto simp: move_safe_def conn_agrees_def props_part_agrees_def)
    then have "cc_connect_props (k_opts (conn_copy d a k)) = Some (k_self k)" "k_self (conn_copy d a k) = a"
      by (simp_all add: conn_copy_def conn_update_def conn_of_def Let_def)
    with copy assms(3) show False by (simp add: conn_agrees_def props_part_agrees_def)
  qed
  ultimately show "nv_map (k_headers k) = [] \<and> move_safe k" ..
next
  assume "nv_map (k_headers k) = [] \<and> move_safe k"
  then have "copy_safe k"
    using assms(2) by (simp add: copy_safe_def conn_agrees_def headers_part_agrees_def)
  with assms show "conn_agrees (conn_copy d a k)" by (intro conn_copy_agrees)
qed

definition start_ok :: "'p conn_start \<Rightarrow> bool" where
  "start_ok st \<longleftrightarrow>
     (case st of
        From_copy k \<Rightarrow> conn_agrees k \<and> copy_safe k
      | From_move k \<Rightarrow> conn_agrees k \<and> move_safe k
      | _ \<Rightarrow> True)"

lemma default_agrees:
  assumes "inits_empty d" "c \<in> {init3 d, init5 d, init_ws d, init5_ws d}"
  shows "conn_agrees (conn_of d t c) \<and> move_safe (conn_of d t c)"
proof
  show "conn_agrees (conn_of d t c)"
    using conn_struct_agrees [OF conn_built.of_c [OF assms(2)] assms(1)] .
  show "move_safe (conn_of d t c)"
    using assms by (auto simp: move_safe_def conn_of_def inits_empty_def c_connect_empty_def)
qed

lemma start_agrees: "inits_empty d \<Longrightarrow> start_ok st \<Longrightarrow> conn_agrees (conn_start_options d t b st)"
  using default_agrees [of d _ b] default_agrees [of d _ t]
  by (cases st) (auto simp: start_ok_def conn_new_def conn_copy_agrees intro!: conn_move_agrees)

lemma start_self: "k_self (conn_start_options d t b st) = b"
  by (cases st) (simp_all add: conn_new_def conn_of_def conn_copy_def conn_move_def conn_update_def take_headers_def Let_def)

lemma fresh_start_empty:
  assumes "inits_empty d" "st \<in> {From_version v, From_v3, From_v5, From_ws, From_v5_ws}"
  shows "nv_map (k_headers (conn_start_options d t b st)) = []
    \<and> (cc_connect_props (k_opts (conn_start_options d t b st)) = None \<or> 5 \<le> cc_version (k_opts (conn_start_options d t b st)))"
  using assms
  by (auto simp: conn_new_def conn_of_def conn_move_def conn_update_def take_headers_def new_nv_def inits_empty_def
      c_connect_empty_def Let_def)

text \<open>What the copy that \<open>finalize\<close> makes keeps, and where its two doubtful pointers go.\<close>

lemma copy_pointers:
  assumes "conn_agrees k" "a \<noteq> k_self k"
  shows "nv_map (k_headers (conn_copy d a k)) = nv_map (k_headers k) \<and> k_self (conn_copy d a k) = a
    \<and> cc_http_headers (k_opts (conn_copy d a k)) = (if nv_map (k_headers k) = [] then None else Some (k_self k))
    \<and> cc_connect_props (k_opts (conn_copy d a k)) =
        (if 5 \<le> cc_version (k_opts k) then Some a
         else if cc_connect_props (k_opts k) = None then None else Some (k_self k))"
proof -
  have "cc_http_headers (k_opts k) = c_ptr (k_self k) (nv_map (k_headers k))" "cc_connect_props (k_opts k) \<in> {None, Some (k_self k)}"
    using assms(1) by (simp_all add: conn_agrees_def headers_part_agrees_def props_part_agrees_def)
  then show ?thesis
    by (auto simp: c_ptr_def conn_copy_def conn_update_def conn_of_def Let_def)
qed

text \<open>C33: options built by a chain of calls keep the HTTP headers that the chain leaves, and their structure
  describes the object exactly when the chain leaves no headers and no properties below version 5.
  Otherwise it points into the builder: the pointer to the headers does if there are any, the pointer to
  the properties does if they are left below version 5. The chain starts from a version, a default, or
  from options whose structure describes them and that can be copied or moved safely (\<open>start_ok\<close>), and the
  server lists given to it were built by their class (\<open>servers_built\<close>); the C library's initialisers have
  nothing set (\<open>inits_empty\<close>), and the builder, at \<open>b\<close>, and the result, at \<open>a\<close>, are different objects.\<close>

theorem built_options_describe_themselves:
  assumes "inits_empty d" "start_ok st" "servers_built cs" "a \<noteq> b"
    and "k = conn_build d t b a st cs"
    and "h = chain_headers (nv_map (k_headers (conn_start_options d t b st))) cs"
    and "low = chain_downgrades (cc_connect_props (k_opts (conn_start_options d t b st)) \<noteq> None)
              (cc_version (k_opts (conn_start_options d t b st))) cs"
  shows "nv_map (k_headers k) = h \<and> (conn_agrees k \<longleftrightarrow> h = [] \<and> \<not> low)
    \<and> cc_http_headers (k_opts k) = (if h = [] then None else Some b)
    \<and> (if low then cc_connect_props (k_opts k) = Some b else cc_connect_props (k_opts k) \<in> {None, Some a})"
proof -
  let ?s = "conn_start_options d t b st"
  let ?f = "fold (conn_call_step d) cs ?s"
  have fold: "conn_agrees ?f" "k_self ?f = b"
    using chain_agrees [OF start_agrees [OF assms(1,2)] assms(3)] start_self by simp_all
  have k: "k = conn_copy d a ?f" using assms(5) by (simp add: conn_build_def conn_finalize_def)
  have h: "nv_map (k_headers ?f) = h" using chain_headers_fold [of d cs ?s] assms(6) by simp
  have low: "low \<longleftrightarrow> \<not> move_safe ?f" using chain_move_safe [of d cs ?s] assms(7) by simp
  have "conn_agrees k \<longleftrightarrow> h = [] \<and> \<not> low"
    using copy_agrees_iff [OF assms(1) fold(1), of a] fold(2) assms(4) k h low by simp
  with copy_pointers [OF fold(1), of a d] fold(2) assms(4) k h low show ?thesis
    by (auto simp: move_safe_def)
qed

theorem built_options_describe_themselves_witness:
  "conn_agrees (conn_build sample_inits 3 4 2 From_v5 [User_name (Some ''me''), Conn_properties [7]] :: nat conn_options)
    \<and> cc_connect_props (k_opts (conn_build sample_inits 3 4 2 From_v5 [Conn_properties [7], Conn_version 4] :: nat conn_options)) = Some 4
    \<and> cc_http_headers (k_opts (conn_build sample_inits 3 4 2 From_ws
          [Http_headers \<lparr>nv_map = [(''a'', ''b'')], nv_arr = []\<rparr>] :: nat conn_options)) = Some 4"
proof -
  have start: "start_ok (From_v5 :: nat conn_start)" "start_ok (From_ws :: nat conn_start)"
    by (simp_all add: start_ok_def)
  have empty: "nv_map (k_headers (conn_start_options sample_inits 3 4 From_v5 :: nat conn_options)) = []"
    by (rule conjunct1 [OF fresh_start_empty [OF sample_inits_empty]]) simp
  have servers: "servers_built [User_name (Some ''me''), Conn_properties [7 :: nat]]"
    "servers_built [Conn_properties [7 :: nat], Conn_version 4]"
    "servers_built ([Http_headers \<lparr>nv_map = [(''a'', ''b'')], nv_arr = []\<rparr>] :: nat conn_call list)"
    by (simp_all add: servers_built_def)
  have differ: "(2 :: nat) \<noteq> 4" by simp
  note described = built_options_describe_themselves [OF sample_inits_empty _ _ differ refl refl refl]
  from described [OF start(1) servers(1), of 3] empty
  have "conn_agrees (conn_build sample_inits 3 4 2 From_v5 [User_name (Some ''me''), Conn_properties [7]] :: nat conn_options)"
    by (simp del: conn_start_options.simps)
  moreover from described [OF start(1) servers(2), of 3]
  have "cc_connect_props (k_opts (conn_build sample_inits 3 4 2 From_v5 [Conn_properties [7], Conn_version 4] :: nat conn_options)) = Some 4"
    by (simp del: conn_start_options.simps)
  moreover from described [OF start(2) servers(3), of 3]
  have "cc_http_headers (k_opts (conn_build sample_inits 3 4 2 From_ws
      [Http_headers \<lparr>nv_map = [(''a'', ''b'')], nv_arr = []\<rparr>] :: nat conn_options)) = Some 4"
    by (simp del: conn_start_options.simps)
  ultimately show ?thesis by blast
qed

section \<open>The chains of the nodes\<close>

text \<open>What \<open>Nodes\<close> connects with is the chain that both \<open>main.cpp\<close> write.\<close>

lemma node_options_are_built:
  "node_options d a b clean = conn_build d t b a (From_version 0) [Clean_session clean, Keep_alive_interval 30]"
  by (simp add: node_options_def conn_build_def conn_finalize_def)

lemma built_plain_fields:
  assumes "inits_empty d" "cc_version (init3 d) < 5"
  shows "cc_cleansession (k_opts (conn_build d t b a (From_version 0) [Clean_session c, Keep_alive_interval n])) = to_int c"
    "cc_keep_alive (k_opts (conn_build d t b a (From_version 0) [Clean_session c, Keep_alive_interval n])) = n"
    "cc_connect_props (k_opts (conn_build d t b a (From_version 0) [Clean_session c, Keep_alive_interval n])) = None"
  using assms by (simp_all add: conn_build_def conn_finalize_def conn_copy_def conn_update_def conn_adopt_def conn_new_def
      conn_of_def conn_set_clean_session_def conn_set_keep_alive_def inits_empty_def c_connect_empty_def Let_def)

lemma plain_chain_agrees:
  "inits_empty d \<Longrightarrow> a \<noteq> b \<Longrightarrow> conn_agrees (conn_build d t b a (From_version 0) [Clean_session c, Keep_alive_interval n] :: 'p conn_options)"
proof -
  assume d: "inits_empty d" "a \<noteq> b"
  let ?k = "fold (conn_call_step d) [Clean_session c, Keep_alive_interval n] (conn_start_options d t b (From_version 0)) :: 'p conn_options"
  have "conn_agrees ?k \<and> k_self ?k = b"
    using chain_agrees [OF start_agrees [OF d(1)], of "From_version 0" "[Clean_session c, Keep_alive_interval n]" d t b]
    by (simp add: start_ok_def servers_built_def) (simp add: conn_new_def conn_of_def)
  moreover have "nv_map (k_headers ?k) = [] \<and> move_safe ?k"
    using d(1) by (simp add: conn_new_def conn_of_def conn_set_clean_session_def conn_set_keep_alive_def move_safe_def
      new_nv_def inits_empty_def c_connect_empty_def)
  ultimately show ?thesis using copy_agrees_iff [OF d(1), of ?k a] d(2) by (simp add: conn_build_def conn_finalize_def)
qed

text \<open>Both nodes hand the C library options that describe themselves; the sensor's session is a clean one, the
  controller's is kept.\<close>

lemma node_options_reach_library:
  assumes "inits_empty d" "cc_version (init3 d) < 5" "a \<noteq> b" "conn_agrees cached"
  shows "conn_agrees (connect_prepare x (node_options d a b clean) cached)"
    "cc_cleansession (k_opts (node_options d a b clean :: 'p conn_options)) = to_int clean"
    "cc_keep_alive (k_opts (node_options d a b clean :: 'p conn_options)) = 30"
  by (simp_all add: node_options_are_built [where t = 0] move_safe_def built_plain_fields [OF assms(1,2)]
      connect_prepare_agrees plain_chain_agrees [OF assms(1,3)] assms(4))

end
