(* ===== verification/Spec2Isabelle.thy ===== *)
theory Spec2Isabelle
  imports Prelude Json Dispatcher Jwt Db_Schema Database_Manager Server_Requests Logger Cli Http Ocsp_Cache
    Tls_Engine Server_Main Tls_Start Tls_Threads Controller Sensor Proxy Pipeline Db_Script Deployment
    Std_Map Mqtt_Topic Topic_Matcher Thread_Queue Mqtt_Message Mqtt_Buffer Mqtt_Properties Mqtt_Property_Memory Mqtt_Property_List
    Mqtt_Persistence Mqtt_Token Mqtt_Client Mqtt_Ssl Mqtt_Options Mqtt_Replies Mqtt_Pending Mqtt_Consumer Mqtt_Sync Nodes
    Mqtt_Builders Mqtt_Connect_Builder
begin

text \<open>
  \<^bold>\<open>The program.\<close> Sensors are configured and observed through four C++ processes around a
  PostgreSQL database and an MQTT broker. The \<^emph>\<open>server\<close> (\<open>server/src\<close>) accepts TLS sessions, as a line
  protocol or as HTTP, stores configuration requests in \<open>sensor_config_pending\<close> and waits for their
  outcome. The \<^emph>\<open>controller\<close> (\<open>controller/src\<close>) listens to the database's \<open>config_requested\<close>
  notifications, publishes them on the topic \<open>config/requested\<close>, and writes what sensors answer on
  \<open>config/events\<close> and \<open>telemetry/state\<close> into the tables. The \<^emph>\<open>sensor\<close> (\<open>sensor/src\<close>) answers requests
  and publishes temperatures. The triggers of \<open>database/sql/db.sql\<close> announce the controller's upsert on
  \<open>config_events\<close>; the server's listener dispatches it to the thread that waits for the request's id.
  The \<^emph>\<open>proxy\<close> (\<open>proxy/src\<close>) puts plain HTTP clients onto one TLS connection to the server.

  \<^bold>\<open>The theories\<close>, in the order in which they build on each other:

  \<^item> \<open>Prelude\<close>: integers at their width, exceptions as values (\<open>exn\<close>, \<open>sbind\<close>, \<open>catch_std\<close>), the string
    operations of the C++ library, decimal numbers, association lists.
  \<^item> \<open>Json\<close>: the value type of Boost.JSON, its accessors with their exceptions, and \<open>JsonUtils\<close>
    (\<open>libs/json/JsonUtils.cpp\<close>). The printed text is shown to denote the value.
  \<^item> \<open>Dispatcher\<close>: \<open>server/src/dispatcher/Dispatcher.cpp\<close>. The pending table and the contexts on the
    waiting threads' stacks are the state, the critical sections its atomic steps. Rule induction
    over all interleavings gives that the published pointers never dangle and the table is bounded;
    \<open>wait_for_response\<close> is then seen from its thread, with the other threads' events as a list.
  \<^item> \<open>Jwt\<close>: \<open>libs/jwt/JwtManager.cpp\<close>. Soundness of \<open>verify\<close>, round trips of base64url and of tokens,
    and what the constructor does not check.
  \<^item> \<open>Db_Schema\<close>, \<open>Database_Manager\<close>: the tables, triggers and statements, and
    \<open>libs/db/DatabaseManager.cpp\<close> over them. \<open>schema_ok\<close> is the invariant the constraints keep; every call keeps
    it, and request ids increase until the sequence is initialised again.
  \<^item> \<open>Db_Script\<close>, \<open>Deployment\<close>: the rest of \<open>db.sql\<close>: the errors, deletes that cascade along the foreign keys, and
    the sample rows, with an invariant for all tables; and the server on the database that the script leaves.
  \<^item> \<open>Server_Requests\<close>: what CLI and HTTP do for a configuration request. \<open>request_step\<close> lets handler
    threads, the listener and other processes interleave; ids are not shared while nobody initialises their
    sequence under a request, and what the handlers call is shown to be a run of these steps.
  \<^item> \<open>Logger\<close>: \<open>common/log/Log.hpp\<close>.
  \<^item> \<open>Cli\<close>, \<open>Http\<close>: \<open>server/src/cli/QuantumCommandCli.cpp\<close> and \<open>server/src/http/QuantumSafeHttp.cpp\<close>: parsing,
    authentication, every response, the session loops.
  \<^item> \<open>Ocsp_Cache\<close>, \<open>Tls_Engine\<close>: \<open>server/src/oscp/ocsp_cache.cpp\<close> and
    \<open>server/src/net/QuantumSafeTlsEngine.cpp\<close>. The locale \<open>session_handler\<close> is \<open>ISessionHandler\<close>; it is
    interpreted by both protocols, and what the engine keeps for one it keeps for the other. The cache is followed
    over a list of calls, each with its own clock and its own answers of the network.
  \<^item> \<open>Server_Main\<close>, \<open>Controller\<close>, \<open>Sensor\<close>, \<open>Proxy\<close>: the four \<open>main.cpp\<close>.
  \<^item> \<open>Tls_Start\<close>: the constructor of the engine over the files it reads, which of them end the server, and the key
    exchange that a handshake reports.
  \<^item> \<open>Tls_Threads\<close>: \<open>initialize\<close>, \<open>join\<close>, \<open>stop\<close> and the destructor of the engine, as the server's \<open>main\<close> calls
    them, and with which exit code, if at all, the process then ends.
  \<^item> \<open>Pipeline\<close>: a request's way through all of them, from the stored row to the waiting handler.

  The MQTT client library that the controller and the sensor are built on is in the repository as well
  (\<open>controller/deps/paho.mqtt.cpp\<close>, called paho below), above a C library that is not:

  \<^item> \<open>Std_Map\<close>: \<open>std::map\<close> with string keys, as an association list in the order of its keys.
  \<^item> \<open>Mqtt_Topic\<close>, \<open>Topic_Matcher\<close>: paho's \<open>topic.cpp\<close> and \<open>topic_matcher.h\<close>. Matching is equivalent to the rules
    of the MQTT standard, written as a recursion on the fields; the trie of filters refines a map, and its
    search returns what matching each filter would, once each, apart from the cases the lemmas name (a topic
    with a field \<open>+\<close> or \<open>#\<close>, a filter with \<open>#\<close> in the middle, entries removed and not yet pruned).
  \<^item> \<open>Thread_Queue\<close>: paho's \<open>thread_queue.h\<close>. The operations under the lock, then threads that block on the
    condition variables as a step relation: first in, first out, and no wake-up is lost.
  \<^item> \<open>Mqtt_Message\<close>: exceptions, messages and string collections, whose C structures are shown to agree
    with the C++ members. A message in memory (\<open>message_object\<close>) has the addresses of its arrays of properties,
    so that a copy that keeps a pointer into its source differs from one that does not.
  \<^item> \<open>Mqtt_Buffer\<close>: the shared immutable strings of \<open>buffer_ref.h\<close>; they refine the optional strings that the
    other theories use in their place.
  \<^item> \<open>Mqtt_Properties\<close>: the class \<open>property\<close> of \<open>properties.h\<close>: what is stored is read back, a property that owns
    what its kind needs can be copied, moved from and destroyed, and the ones that do not are shown.
  \<^item> \<open>Mqtt_Property_Memory\<close>: the codes of properties, the types of their values, and which memory the assignments lose.
  \<^item> \<open>Mqtt_Property_List\<close>: the class \<open>properties\<close> over the list functions of the C library, whose documented
    behaviour is the hypothesis \<open>props_lib_ok\<close>.
  \<^item> \<open>Mqtt_Persistence\<close>: \<open>iclient_persistence.cpp\<close>. The locale \<open>key_store\<close> is the interface \<open>iclient_persistence\<close>;
    the calls of the C library refine a map for every store that keeps it, and the in-memory store of
    \<open>examples/sync_publish.cpp\<close> interprets it.
  \<^item> \<open>Mqtt_Token\<close>: paho's \<open>token.cpp\<close> and \<open>server_response.cpp\<close>: what waits, responses and listeners report of
    an operation, in either order of registration and completion.
  \<^item> \<open>Mqtt_Client\<close>, \<open>Mqtt_Pending\<close>: paho's \<open>async_client.cpp\<close>. Every operation is split at its call of the C
    library, so that the library's callbacks may run in between; the invariant over all interleavings, calls of
    \<open>reconnect\<close> included, says which tokens the client holds and how often a delivery is reported.
  \<^item> \<open>Mqtt_Consumer\<close>: \<open>start_consuming\<close>, \<open>consume_message\<close> and their variants over the queue, and their
    composition with the controller's loop.
  \<^item> \<open>Mqtt_Ssl\<close>, \<open>Mqtt_Options\<close>: the options of TLS, of the last will, of a connection and of creation, each with the
    C structure beside it. A pointer in a structure is the address of the object it points into; the
    invariant says that it is the structure's own object, for everything but the copies that the lemmas
    name, and that what \<open>connect\<close> passes on is the request of \<open>Mqtt_Client\<close>.
  \<^item> \<open>Mqtt_Replies\<close>: the options of a single subscription, response or disconnection, with their structures, and
    how they relate to the callbacks that \<open>Mqtt_Client\<close> keeps.
  \<^item> \<open>Mqtt_Builders\<close>, \<open>Mqtt_Connect_Builder\<close>: the builders of the options and of messages, as chains of calls. The
    locale \<open>call_chain\<close> gives that a chain is determined by its last calls, for every builder whose calls commute;
    for connections, whose calls do not, the property says when the copy that is handed out points into the builder.
  \<^item> \<open>Mqtt_Sync\<close>: \<open>client.cpp\<close> and the topic objects of \<open>topic.cpp\<close>. The client waits for the tokens of the
    asynchronous one: its calls return within their time limit, with the outcome the library reported.
  \<^item> \<open>Nodes\<close>: \<open>main\<close> of the controller and of the sensor over the client library, from the construction of the client
    and its options to the end of the process, with the sensor's telemetry thread and its time.

  \<^bold>\<open>Correspondence.\<close> Each operation is a function of the state it touches, named as in the code, that
  returns the new state; an exception is \<^term>\<open>Inl\<close>, and \<open>Undefined_behaviour\<close> marks what C++ leaves
  undefined. Where the code locks, the critical section is one step. Log output changes nothing the
  components read, so only \<open>Logger\<close> models it, and the other theories leave the calls out. Loops that
  serve for ever (\<open>handle_session\<close>, the consume loops, \<open>do_listen\<close>) are functions of the list of inputs
  that have arrived; no fuel is used anywhere, and \<open>backoff\<close>, \<open>pad4\<close> and the digit printers come with their
  termination proofs. Temperatures are rationals instead of doubles: the operations used (multiply by
  100, round, divide by 100, store as \<open>NUMERIC(5,2)\<close>) are exact there.

  \<^bold>\<open>Parameters.\<close> Code that is not in the repository is an argument: base64, signatures and
  certificates of Botan (\<open>jwt_lib\<close>, \<open>ocsp_lib\<close>), the error texts and the return codes of the MQTT C library
  (\<open>c_lib\<close>, and the \<open>rc\<close> arguments), Boost.JSON's \<open>parse\<close> and \<open>serialize\<close>, PostgreSQL's reading of
  an \<open>INET\<close> literal and its rendering of a JSON value, the file system, the clock, the scheduling of
  other threads (\<open>schedule\<close>). What a theorem needs of them is a named hypothesis, such as \<open>jwt_lib_ok\<close>,
  \<open>codec_ok\<close> or \<open>wire_ok\<close>, each satisfied in the theorem's witness.

  \<^bold>\<open>Not modelled.\<close> The Asio objects and coroutines of the TLS engine beyond the order in which they run, program-option
  parsing, the TLS protocol, the web front end, tests, examples and scripts; of paho, the interface classes, and
  what a move leaves of the options it is taken from; of the database, the columns \<open>not_after\<close> and
  \<open>completed_at\<close>, which nothing reads, the report queries of \<open>db.sql\<close>, a commit that ends in doubt, and the numbers
  that failed transactions take from a sequence.
\<close>

end
